(* ===== verification/Prelude.thy ===== *)
theory Prelude
  imports Main "HOL-Library.Word" "HOL-Library.Sublist"
begin

text \<open>
  Shared vocabulary of the development: machine integers, source spans
  (\<^verbatim>\<open>include/eter/Base/Span.h\<close>), the few operations on string views the program uses,
  the \<^verbatim>\<open><cctype>\<close> predicates on bytes, and generic lemmas on lists and 32-bit words.

  A \<^verbatim>\<open>char\<close> of the program is a byte, which is HOL's type \<open>char\<close>; a string view, a
  \<^verbatim>\<open>std::string\<close> and the contents of a source buffer are values of type \<open>string\<close>
  (lists of bytes).  A \<^verbatim>\<open>std::vector\<close> or \<^verbatim>\<open>SmallVector\<close> is a list.
\<close>

type_synonym u16 = "16 word"
type_synonym u32 = "32 word"

unbundle bit_operations_syntax

named_theorems char_class \<open>definitions of the byte predicates\<close>

section \<open>Source spans\<close>

datatype span = Span (Start: u32) (End: u32)

section \<open>String views\<close>

text \<open>
  \<open>substr s i n\<close> is the view of at most \<open>n\<close> bytes from index \<open>i\<close>; \<open>slice s i j\<close> the view
  \<open>[i, j)\<close>; both clamp to the string, which \<open>take\<close> and \<open>drop\<close> do.  \<open>find_char s c i\<close> is the
  index of the first \<open>c\<close> at or after \<open>i\<close>, \<open>rfind_char s c i\<close> that of the last \<open>c\<close> before
  \<open>i\<close>; \<open>None\<close> stands for \<^verbatim>\<open>npos\<close>.
\<close>

definition substr :: "string \<Rightarrow> nat \<Rightarrow> nat \<Rightarrow> string" where
  "substr s i n = take n (drop i s)"

definition slice :: "string \<Rightarrow> nat \<Rightarrow> nat \<Rightarrow> string" where
  "slice s i j = take (j - i) (drop i s)"

fun index_of :: "'a \<Rightarrow> 'a list \<Rightarrow> nat option" where
  "index_of c [] = None"
| "index_of c (x # xs) = (if x = c then Some 0 else map_option Suc (index_of c xs))"

definition find_char :: "string \<Rightarrow> char \<Rightarrow> nat \<Rightarrow> nat option" where
  "find_char s c i = map_option (\<lambda>k. i + k) (index_of c (drop i s))"

definition rfind_char :: "string \<Rightarrow> char \<Rightarrow> nat \<Rightarrow> nat option" where
  "rfind_char s c i = (let p = take i s in
     map_option (\<lambda>k. length p - 1 - k) (index_of c (rev p)))"

section \<open>Bytes\<close>

abbreviation (input) ch_dquote :: char where "ch_dquote \<equiv> CHR 0x22"
abbreviation (input) ch_squote :: char where "ch_squote \<equiv> CHR 0x27"
abbreviation (input) ch_backslash :: char where "ch_backslash \<equiv> CHR 0x5C"
abbreviation (input) ch_tab :: char where "ch_tab \<equiv> CHR 0x09"
abbreviation (input) ch_lf :: char where "ch_lf \<equiv> CHR 0x0A"
abbreviation (input) ch_cr :: char where "ch_cr \<equiv> CHR 0x0D"

definition byte :: "char \<Rightarrow> nat" where
  "byte c = of_char c"

definition isdigit :: "char \<Rightarrow> bool" where [char_class]:
  "isdigit c \<longleftrightarrow> 48 \<le> byte c \<and> byte c \<le> 57"

definition isalpha :: "char \<Rightarrow> bool" where [char_class]:
  "isalpha c \<longleftrightarrow> 65 \<le> byte c \<and> byte c \<le> 90 \<or> 97 \<le> byte c \<and> byte c \<le> 122"

definition isalnum :: "char \<Rightarrow> bool" where [char_class]:
  "isalnum c \<longleftrightarrow> isalpha c \<or> isdigit c"

definition isxdigit :: "char \<Rightarrow> bool" where [char_class]:
  "isxdigit c \<longleftrightarrow> isdigit c \<or> 65 \<le> byte c \<and> byte c \<le> 70 \<or> 97 \<le> byte c \<and> byte c \<le> 102"

lemma byte_inject [simp]: "byte c = byte d \<longleftrightarrow> c = d"
  by (simp add: byte_def)

lemma byte_less: "byte c < 256"
  by (simp add: byte_def)

section \<open>Lists\<close>

lemma index_of_None [simp]: "index_of c xs = None \<longleftrightarrow> c \<notin> set xs"
  by (induction xs) auto

lemma index_of_Some:
  "index_of c xs = Some i \<longleftrightarrow> i < length xs \<and> xs ! i = c \<and> c \<notin> set (take i xs)"
proof (induction xs arbitrary: i)
  case Nil
  then show ?case by simp
next
  case (Cons x xs)
  then show ?case by (cases i) auto
qed

lemma find_char_Some:
  "find_char s c i = Some j \<longleftrightarrow>
     i \<le> j \<and> j < length s \<and> s ! j = c \<and> c \<notin> set (take (j - i) (drop i s))"
proof
  assume "find_char s c i = Some j"
  then obtain k where "index_of c (drop i s) = Some k" "j = i + k"
    by (auto simp: find_char_def)
  then show "i \<le> j \<and> j < length s \<and> s ! j = c \<and> c \<notin> set (take (j - i) (drop i s))"
    by (auto simp: index_of_Some)
next
  assume *: "i \<le> j \<and> j < length s \<and> s ! j = c \<and> c \<notin> set (take (j - i) (drop i s))"
  then have "index_of c (drop i s) = Some (j - i)"
    by (auto simp: index_of_Some)
  with * show "find_char s c i = Some j"
    by (simp add: find_char_def)
qed

lemma length_dropWhile_le' [simp]: "length (dropWhile P xs) \<le> length xs"
  by (simp add: length_dropWhile_le)

lemma take_length_diff:
  "suffix ys xs \<Longrightarrow> take (length xs - length ys) xs @ ys = xs"
  by (auto simp: suffix_def)

lemma suffix_dropWhile' [simp]: "suffix (dropWhile P xs) xs"
  by (rule suffix_dropWhile)

lemma take_dropWhile_takeWhile:
  "take (length xs - length (dropWhile P xs)) xs = takeWhile P xs"
  by (induction xs) (auto simp: Suc_diff_le length_dropWhile_le)

section \<open>Words\<close>

lemma unat_of_nat32 [simp]: "n < 4294967296 \<Longrightarrow> unat (of_nat n :: u32) = n"
  by (simp add: unat_of_nat take_bit_nat_eq_self)

lemma unat_Suc32:
  assumes "unat (x :: u32) < n" "n < 4294967296"
  shows "unat (x + 1) = Suc (unat x)"
proof -
  have "unat x + 1 < 2 ^ LENGTH(32)"
    using assms by simp
  then show ?thesis
    by (simp add: unat_word_ariths)
qed

end
