(* ===== verification/Tokens.thy ===== *)
theory Tokens
  imports Prelude
begin

text \<open>
  Token kinds and lexer error kinds (\<^verbatim>\<open>include/eter/Lexer/TokenKinds.def\<close>,
  \<^verbatim>\<open>LexerErrors.def\<close>, \<^verbatim>\<open>Token.h\<close>, \<^verbatim>\<open>lib/Lexer/Token.cpp\<close>).
  The X-macro file lists the kinds in sections; the enumeration is modelled section by
  section (special tokens, identifiers and literals, delimiters, operators, keywords,
  reserved keywords, and the late symbol \<open>arrow\<close>), with the abbreviations \<open>tk_x\<close>
  and \<open>kw_x\<close> for the enumerators \<^verbatim>\<open>Kind::x\<close> and \<^verbatim>\<open>Kind::kw_x\<close>.
\<close>

section \<open>Token kinds\<close>

datatype special =
    S_unknown | S_eof | S_doc_comment | S_file_doc_comment | S_comment

datatype literal =
    L_identifier | L_integer_literal | L_float_literal | L_char_literal | L_string_literal

datatype delimiter =
    D_l_paren | D_r_paren | D_l_brace | D_r_brace | D_l_square
  | D_r_square | D_comma | D_semi | D_colon | D_colon_colon

datatype (plugins only: code) operator =
    O_plus | O_minus | O_star | O_slash | O_percent
  | O_caret | O_plus_plus | O_minus_minus | O_pipe | O_less_less
  | O_greater_greater | O_amp | O_amp_amp | O_pipe_pipe | O_bang
  | O_eq_eq | O_bang_eq | O_less | O_greater | O_less_eq
  | O_greater_eq | O_eq | O_plus_eq | O_minus_eq | O_star_eq
  | O_slash_eq | O_percent_eq | O_amp_eq | O_pipe_eq | O_caret_eq
  | O_less_less_eq | O_greater_greater_eq | O_dot | O_fat_arrow | O_at
  | O_question

datatype (plugins only: code) keyword =
    K_as | K_break | K_const | K_continue | K_else
  | K_enum | K_false | K_imm | K_in | K_fn
  | K_for | K_if | K_let | K_match | K_mod
  | K_mut | K_proj | K_pub | K_ret | K_struct
  | K_tensor | K_trait | K_true | K_union | K_unsafe
  | K_impl | K_Self | K_use | K_while

datatype reserved =
    R_dim | R_ref | R_return | R_shape | R_sym
  | R_tsor | R_type | R_where

datatype kind =
    Special special | Literal literal | Delimiter delimiter | Operator operator
  | Keyword keyword | Reserved reserved | Arrow

abbreviation tk_unknown :: kind where "tk_unknown \<equiv> Special S_unknown"
abbreviation tk_eof :: kind where "tk_eof \<equiv> Special S_eof"
abbreviation tk_doc_comment :: kind where "tk_doc_comment \<equiv> Special S_doc_comment"
abbreviation tk_file_doc_comment :: kind where "tk_file_doc_comment \<equiv> Special S_file_doc_comment"
abbreviation tk_comment :: kind where "tk_comment \<equiv> Special S_comment"
abbreviation tk_identifier :: kind where "tk_identifier \<equiv> Literal L_identifier"
abbreviation tk_integer_literal :: kind where "tk_integer_literal \<equiv> Literal L_integer_literal"
abbreviation tk_float_literal :: kind where "tk_float_literal \<equiv> Literal L_float_literal"
abbreviation tk_char_literal :: kind where "tk_char_literal \<equiv> Literal L_char_literal"
abbreviation tk_string_literal :: kind where "tk_string_literal \<equiv> Literal L_string_literal"
abbreviation tk_l_paren :: kind where "tk_l_paren \<equiv> Delimiter D_l_paren"
abbreviation tk_r_paren :: kind where "tk_r_paren \<equiv> Delimiter D_r_paren"
abbreviation tk_l_brace :: kind where "tk_l_brace \<equiv> Delimiter D_l_brace"
abbreviation tk_r_brace :: kind where "tk_r_brace \<equiv> Delimiter D_r_brace"
abbreviation tk_l_square :: kind where "tk_l_square \<equiv> Delimiter D_l_square"
abbreviation tk_r_square :: kind where "tk_r_square \<equiv> Delimiter D_r_square"
abbreviation tk_comma :: kind where "tk_comma \<equiv> Delimiter D_comma"
abbreviation tk_semi :: kind where "tk_semi \<equiv> Delimiter D_semi"
abbreviation tk_colon :: kind where "tk_colon \<equiv> Delimiter D_colon"
abbreviation tk_colon_colon :: kind where "tk_colon_colon \<equiv> Delimiter D_colon_colon"
abbreviation tk_plus :: kind where "tk_plus \<equiv> Operator O_plus"
abbreviation tk_minus :: kind where "tk_minus \<equiv> Operator O_minus"
abbreviation tk_star :: kind where "tk_star \<equiv> Operator O_star"
abbreviation tk_slash :: kind where "tk_slash \<equiv> Operator O_slash"
abbreviation tk_percent :: kind where "tk_percent \<equiv> Operator O_percent"
abbreviation tk_caret :: kind where "tk_caret \<equiv> Operator O_caret"
abbreviation tk_plus_plus :: kind where "tk_plus_plus \<equiv> Operator O_plus_plus"
abbreviation tk_minus_minus :: kind where "tk_minus_minus \<equiv> Operator O_minus_minus"
abbreviation tk_pipe :: kind where "tk_pipe \<equiv> Operator O_pipe"
abbreviation tk_less_less :: kind where "tk_less_less \<equiv> Operator O_less_less"
abbreviation tk_greater_greater :: kind where "tk_greater_greater \<equiv> Operator O_greater_greater"
abbreviation tk_amp :: kind where "tk_amp \<equiv> Operator O_amp"
abbreviation tk_amp_amp :: kind where "tk_amp_amp \<equiv> Operator O_amp_amp"
abbreviation tk_pipe_pipe :: kind where "tk_pipe_pipe \<equiv> Operator O_pipe_pipe"
abbreviation tk_bang :: kind where "tk_bang \<equiv> Operator O_bang"
abbreviation tk_eq_eq :: kind where "tk_eq_eq \<equiv> Operator O_eq_eq"
abbreviation tk_bang_eq :: kind where "tk_bang_eq \<equiv> Operator O_bang_eq"
abbreviation tk_less :: kind where "tk_less \<equiv> Operator O_less"
abbreviation tk_greater :: kind where "tk_greater \<equiv> Operator O_greater"
abbreviation tk_less_eq :: kind where "tk_less_eq \<equiv> Operator O_less_eq"
abbreviation tk_greater_eq :: kind where "tk_greater_eq \<equiv> Operator O_greater_eq"
abbreviation tk_eq :: kind where "tk_eq \<equiv> Operator O_eq"
abbreviation tk_plus_eq :: kind where "tk_plus_eq \<equiv> Operator O_plus_eq"
abbreviation tk_minus_eq :: kind where "tk_minus_eq \<equiv> Operator O_minus_eq"
abbreviation tk_star_eq :: kind where "tk_star_eq \<equiv> Operator O_star_eq"
abbreviation tk_slash_eq :: kind where "tk_slash_eq \<equiv> Operator O_slash_eq"
abbreviation tk_percent_eq :: kind where "tk_percent_eq \<equiv> Operator O_percent_eq"
abbreviation tk_amp_eq :: kind where "tk_amp_eq \<equiv> Operator O_amp_eq"
abbreviation tk_pipe_eq :: kind where "tk_pipe_eq \<equiv> Operator O_pipe_eq"
abbreviation tk_caret_eq :: kind where "tk_caret_eq \<equiv> Operator O_caret_eq"
abbreviation tk_less_less_eq :: kind where "tk_less_less_eq \<equiv> Operator O_less_less_eq"
abbreviation tk_greater_greater_eq :: kind where "tk_greater_greater_eq \<equiv> Operator O_greater_greater_eq"
abbreviation tk_dot :: kind where "tk_dot \<equiv> Operator O_dot"
abbreviation tk_fat_arrow :: kind where "tk_fat_arrow \<equiv> Operator O_fat_arrow"
abbreviation tk_at :: kind where "tk_at \<equiv> Operator O_at"
abbreviation tk_question :: kind where "tk_question \<equiv> Operator O_question"
abbreviation kw_as :: kind where "kw_as \<equiv> Keyword K_as"
abbreviation kw_break :: kind where "kw_break \<equiv> Keyword K_break"
abbreviation kw_const :: kind where "kw_const \<equiv> Keyword K_const"
abbreviation kw_continue :: kind where "kw_continue \<equiv> Keyword K_continue"
abbreviation kw_else :: kind where "kw_else \<equiv> Keyword K_else"
abbreviation kw_enum :: kind where "kw_enum \<equiv> Keyword K_enum"
abbreviation kw_false :: kind where "kw_false \<equiv> Keyword K_false"
abbreviation kw_imm :: kind where "kw_imm \<equiv> Keyword K_imm"
abbreviation kw_in :: kind where "kw_in \<equiv> Keyword K_in"
abbreviation kw_fn :: kind where "kw_fn \<equiv> Keyword K_fn"
abbreviation kw_for :: kind where "kw_for \<equiv> Keyword K_for"
abbreviation kw_if :: kind where "kw_if \<equiv> Keyword K_if"
abbreviation kw_let :: kind where "kw_let \<equiv> Keyword K_let"
abbreviation kw_match :: kind where "kw_match \<equiv> Keyword K_match"
abbreviation kw_mod :: kind where "kw_mod \<equiv> Keyword K_mod"
abbreviation kw_mut :: kind where "kw_mut \<equiv> Keyword K_mut"
abbreviation kw_proj :: kind where "kw_proj \<equiv> Keyword K_proj"
abbreviation kw_pub :: kind where "kw_pub \<equiv> Keyword K_pub"
abbreviation kw_ret :: kind where "kw_ret \<equiv> Keyword K_ret"
abbreviation kw_struct :: kind where "kw_struct \<equiv> Keyword K_struct"
abbreviation kw_tensor :: kind where "kw_tensor \<equiv> Keyword K_tensor"
abbreviation kw_trait :: kind where "kw_trait \<equiv> Keyword K_trait"
abbreviation kw_true :: kind where "kw_true \<equiv> Keyword K_true"
abbreviation kw_union :: kind where "kw_union \<equiv> Keyword K_union"
abbreviation kw_unsafe :: kind where "kw_unsafe \<equiv> Keyword K_unsafe"
abbreviation kw_impl :: kind where "kw_impl \<equiv> Keyword K_impl"
abbreviation kw_Self :: kind where "kw_Self \<equiv> Keyword K_Self"
abbreviation kw_use :: kind where "kw_use \<equiv> Keyword K_use"
abbreviation kw_while :: kind where "kw_while \<equiv> Keyword K_while"
abbreviation reserved_dim :: kind where "reserved_dim \<equiv> Reserved R_dim"
abbreviation reserved_ref :: kind where "reserved_ref \<equiv> Reserved R_ref"
abbreviation reserved_return :: kind where "reserved_return \<equiv> Reserved R_return"
abbreviation reserved_shape :: kind where "reserved_shape \<equiv> Reserved R_shape"
abbreviation reserved_sym :: kind where "reserved_sym \<equiv> Reserved R_sym"
abbreviation reserved_tsor :: kind where "reserved_tsor \<equiv> Reserved R_tsor"
abbreviation reserved_type :: kind where "reserved_type \<equiv> Reserved R_type"
abbreviation reserved_where :: kind where "reserved_where \<equiv> Reserved R_where"
abbreviation tk_arrow :: kind where "tk_arrow \<equiv> Arrow"

section \<open>Spelling and numbering\<close>

text \<open>
  \<open>Token::getTokenName\<close> returns the spelling of a symbol or keyword and the enumerator's
  name for every other kind.  The underlying value of an enumerator is its position in the
  X-macro file.
\<close>

primrec special_name :: "special \<Rightarrow> string" where
  "special_name S_unknown = ''unknown''"
| "special_name S_eof = ''eof''"
| "special_name S_doc_comment = ''doc_comment''"
| "special_name S_file_doc_comment = ''file_doc_comment''"
| "special_name S_comment = ''comment''"

primrec literal_name :: "literal \<Rightarrow> string" where
  "literal_name L_identifier = ''identifier''"
| "literal_name L_integer_literal = ''integer_literal''"
| "literal_name L_float_literal = ''float_literal''"
| "literal_name L_char_literal = ''char_literal''"
| "literal_name L_string_literal = ''string_literal''"

primrec delimiter_name :: "delimiter \<Rightarrow> string" where
  "delimiter_name D_l_paren = ''(''"
| "delimiter_name D_r_paren = '')''"
| "delimiter_name D_l_brace = ''{''"
| "delimiter_name D_r_brace = ''}''"
| "delimiter_name D_l_square = ''[''"
| "delimiter_name D_r_square = '']''"
| "delimiter_name D_comma = '',''"
| "delimiter_name D_semi = '';''"
| "delimiter_name D_colon = '':''"
| "delimiter_name D_colon_colon = ''::''"

primrec operator_name :: "operator \<Rightarrow> string" where
  "operator_name O_plus = ''+''"
| "operator_name O_minus = ''-''"
| "operator_name O_star = ''*''"
| "operator_name O_slash = ''/''"
| "operator_name O_percent = ''%''"
| "operator_name O_caret = ''^''"
| "operator_name O_plus_plus = ''++''"
| "operator_name O_minus_minus = ''--''"
| "operator_name O_pipe = ''|''"
| "operator_name O_less_less = ''<<''"
| "operator_name O_greater_greater = ''>>''"
| "operator_name O_amp = ''&''"
| "operator_name O_amp_amp = ''&&''"
| "operator_name O_pipe_pipe = ''||''"
| "operator_name O_bang = ''!''"
| "operator_name O_eq_eq = ''==''"
| "operator_name O_bang_eq = ''!=''"
| "operator_name O_less = ''<''"
| "operator_name O_greater = ''>''"
| "operator_name O_less_eq = ''<=''"
| "operator_name O_greater_eq = ''>=''"
| "operator_name O_eq = ''=''"
| "operator_name O_plus_eq = ''+=''"
| "operator_name O_minus_eq = ''-=''"
| "operator_name O_star_eq = ''*=''"
| "operator_name O_slash_eq = ''/=''"
| "operator_name O_percent_eq = ''%=''"
| "operator_name O_amp_eq = ''&=''"
| "operator_name O_pipe_eq = ''|=''"
| "operator_name O_caret_eq = ''^=''"
| "operator_name O_less_less_eq = ''<<=''"
| "operator_name O_greater_greater_eq = ''>>=''"
| "operator_name O_dot = ''.''"
| "operator_name O_fat_arrow = ''=>''"
| "operator_name O_at = ''@''"
| "operator_name O_question = ''?''"

primrec keyword_name :: "keyword \<Rightarrow> string" where
  "keyword_name K_as = ''as''"
| "keyword_name K_break = ''break''"
| "keyword_name K_const = ''const''"
| "keyword_name K_continue = ''continue''"
| "keyword_name K_else = ''else''"
| "keyword_name K_enum = ''enum''"
| "keyword_name K_false = ''false''"
| "keyword_name K_imm = ''imm''"
| "keyword_name K_in = ''in''"
| "keyword_name K_fn = ''fn''"
| "keyword_name K_for = ''for''"
| "keyword_name K_if = ''if''"
| "keyword_name K_let = ''let''"
| "keyword_name K_match = ''match''"
| "keyword_name K_mod = ''mod''"
| "keyword_name K_mut = ''mut''"
| "keyword_name K_proj = ''proj''"
| "keyword_name K_pub = ''pub''"
| "keyword_name K_ret = ''ret''"
| "keyword_name K_struct = ''struct''"
| "keyword_name K_tensor = ''tensor''"
| "keyword_name K_trait = ''trait''"
| "keyword_name K_true = ''true''"
| "keyword_name K_union = ''union''"
| "keyword_name K_unsafe = ''unsafe''"
| "keyword_name K_impl = ''impl''"
| "keyword_name K_Self = ''Self''"
| "keyword_name K_use = ''use''"
| "keyword_name K_while = ''while''"

primrec reserved_name :: "reserved \<Rightarrow> string" where
  "reserved_name R_dim = ''reserved_dim''"
| "reserved_name R_ref = ''reserved_ref''"
| "reserved_name R_return = ''reserved_return''"
| "reserved_name R_shape = ''reserved_shape''"
| "reserved_name R_sym = ''reserved_sym''"
| "reserved_name R_tsor = ''reserved_tsor''"
| "reserved_name R_type = ''reserved_type''"
| "reserved_name R_where = ''reserved_where''"

primrec reserved_word :: "reserved \<Rightarrow> string" where
  "reserved_word R_dim = ''dim''"
| "reserved_word R_ref = ''ref''"
| "reserved_word R_return = ''return''"
| "reserved_word R_shape = ''shape''"
| "reserved_word R_sym = ''sym''"
| "reserved_word R_tsor = ''tsor''"
| "reserved_word R_type = ''type''"
| "reserved_word R_where = ''where''"

primrec getTokenName :: "kind \<Rightarrow> string" where
  "getTokenName (Special x) = special_name x"
| "getTokenName (Literal x) = literal_name x"
| "getTokenName (Delimiter x) = delimiter_name x"
| "getTokenName (Operator x) = operator_name x"
| "getTokenName (Keyword x) = keyword_name x"
| "getTokenName (Reserved x) = reserved_name x"
| "getTokenName Arrow = ''->''"

definition special_list :: "special list" where
  "special_list = [S_unknown, S_eof, S_doc_comment, S_file_doc_comment, S_comment]"

primrec special_code :: "special \<Rightarrow> nat" where
  "special_code S_unknown = 0"
| "special_code S_eof = 1"
| "special_code S_doc_comment = 2"
| "special_code S_file_doc_comment = 3"
| "special_code S_comment = 4"

definition literal_list :: "literal list" where
  "literal_list = [L_identifier, L_integer_literal, L_float_literal, L_char_literal, L_string_literal]"

primrec literal_code :: "literal \<Rightarrow> nat" where
  "literal_code L_identifier = 0"
| "literal_code L_integer_literal = 1"
| "literal_code L_float_literal = 2"
| "literal_code L_char_literal = 3"
| "literal_code L_string_literal = 4"

definition delimiter_list :: "delimiter list" where
  "delimiter_list = [D_l_paren, D_r_paren, D_l_brace, D_r_brace, D_l_square, D_r_square,
     D_comma, D_semi, D_colon, D_colon_colon]"

primrec delimiter_code :: "delimiter \<Rightarrow> nat" where
  "delimiter_code D_l_paren = 0"
| "delimiter_code D_r_paren = 1"
| "delimiter_code D_l_brace = 2"
| "delimiter_code D_r_brace = 3"
| "delimiter_code D_l_square = 4"
| "delimiter_code D_r_square = 5"
| "delimiter_code D_comma = 6"
| "delimiter_code D_semi = 7"
| "delimiter_code D_colon = 8"
| "delimiter_code D_colon_colon = 9"

definition operator_list :: "operator list" where
  "operator_list = [O_plus, O_minus, O_star, O_slash, O_percent, O_caret,
     O_plus_plus, O_minus_minus, O_pipe, O_less_less, O_greater_greater, O_amp,
     O_amp_amp, O_pipe_pipe, O_bang, O_eq_eq, O_bang_eq, O_less,
     O_greater, O_less_eq, O_greater_eq, O_eq, O_plus_eq, O_minus_eq,
     O_star_eq, O_slash_eq, O_percent_eq, O_amp_eq, O_pipe_eq, O_caret_eq,
     O_less_less_eq, O_greater_greater_eq, O_dot, O_fat_arrow, O_at, O_question]"

primrec operator_code :: "operator \<Rightarrow> nat" where
  "operator_code O_plus = 0"
| "operator_code O_minus = 1"
| "operator_code O_star = 2"
| "operator_code O_slash = 3"
| "operator_code O_percent = 4"
| "operator_code O_caret = 5"
| "operator_code O_plus_plus = 6"
| "operator_code O_minus_minus = 7"
| "operator_code O_pipe = 8"
| "operator_code O_less_less = 9"
| "operator_code O_greater_greater = 10"
| "operator_code O_amp = 11"
| "operator_code O_amp_amp = 12"
| "operator_code O_pipe_pipe = 13"
| "operator_code O_bang = 14"
| "operator_code O_eq_eq = 15"
| "operator_code O_bang_eq = 16"
| "operator_code O_less = 17"
| "operator_code O_greater = 18"
| "operator_code O_less_eq = 19"
| "operator_code O_greater_eq = 20"
| "operator_code O_eq = 21"
| "operator_code O_plus_eq = 22"
| "operator_code O_minus_eq = 23"
| "operator_code O_star_eq = 24"
| "operator_code O_slash_eq = 25"
| "operator_code O_percent_eq = 26"
| "operator_code O_amp_eq = 27"
| "operator_code O_pipe_eq = 28"
| "operator_code O_caret_eq = 29"
| "operator_code O_less_less_eq = 30"
| "operator_code O_greater_greater_eq = 31"
| "operator_code O_dot = 32"
| "operator_code O_fat_arrow = 33"
| "operator_code O_at = 34"
| "operator_code O_question = 35"

definition keyword_list :: "keyword list" where
  "keyword_list = [K_as, K_break, K_const, K_continue, K_else, K_enum,
     K_false, K_imm, K_in, K_fn, K_for, K_if,
     K_let, K_match, K_mod, K_mut, K_proj, K_pub,
     K_ret, K_struct, K_tensor, K_trait, K_true, K_union,
     K_unsafe, K_impl, K_Self, K_use, K_while]"

primrec keyword_code :: "keyword \<Rightarrow> nat" where
  "keyword_code K_as = 0"
| "keyword_code K_break = 1"
| "keyword_code K_const = 2"
| "keyword_code K_continue = 3"
| "keyword_code K_else = 4"
| "keyword_code K_enum = 5"
| "keyword_code K_false = 6"
| "keyword_code K_imm = 7"
| "keyword_code K_in = 8"
| "keyword_code K_fn = 9"
| "keyword_code K_for = 10"
| "keyword_code K_if = 11"
| "keyword_code K_let = 12"
| "keyword_code K_match = 13"
| "keyword_code K_mod = 14"
| "keyword_code K_mut = 15"
| "keyword_code K_proj = 16"
| "keyword_code K_pub = 17"
| "keyword_code K_ret = 18"
| "keyword_code K_struct = 19"
| "keyword_code K_tensor = 20"
| "keyword_code K_trait = 21"
| "keyword_code K_true = 22"
| "keyword_code K_union = 23"
| "keyword_code K_unsafe = 24"
| "keyword_code K_impl = 25"
| "keyword_code K_Self = 26"
| "keyword_code K_use = 27"
| "keyword_code K_while = 28"

definition reserved_list :: "reserved list" where
  "reserved_list = [R_dim, R_ref, R_return, R_shape, R_sym, R_tsor,
     R_type, R_where]"

primrec reserved_code :: "reserved \<Rightarrow> nat" where
  "reserved_code R_dim = 0"
| "reserved_code R_ref = 1"
| "reserved_code R_return = 2"
| "reserved_code R_shape = 3"
| "reserved_code R_sym = 4"
| "reserved_code R_tsor = 5"
| "reserved_code R_type = 6"
| "reserved_code R_where = 7"

definition all_kinds :: "kind list" where
  "all_kinds = map Special special_list @ map Literal literal_list @ map Delimiter delimiter_list
     @ map Operator operator_list @ map Keyword keyword_list @ map Reserved reserved_list @ [Arrow]"

text \<open>The position of a kind in the X-macro file, as a natural number.\<close>

primrec kind_index :: "kind \<Rightarrow> nat" where
  "kind_index (Special x) = special_code x"
| "kind_index (Literal x) = 5 + literal_code x"
| "kind_index (Delimiter x) = 10 + delimiter_code x"
| "kind_index (Operator x) = 20 + operator_code x"
| "kind_index (Keyword x) = 56 + keyword_code x"
| "kind_index (Reserved x) = 85 + reserved_code x"
| "kind_index Arrow = 93"

definition kind_code :: "kind \<Rightarrow> u16" where
  "kind_code k = of_nat (kind_index k)"

section \<open>Tokens, lexer errors and lexer items\<close>

datatype token = Token (TokenKind: kind) (TokenSpan: span)

datatype lexer_error_kind =
    UnterminatedStringLiteral | UnterminatedCharLiteral | UnterminatedBlockComment
  | InvalidCharacter | InvalidEscapeSequence | InvalidUnicodeEscape | EmptyCharLiteral
  | MultiCharCharLiteral | InvalidNumericLiteral | TrailingNumericSeparator
  | ReservedKeyword | ReservedSymbol

primrec getErrorString :: "lexer_error_kind \<Rightarrow> string" where
  "getErrorString UnterminatedStringLiteral = ''unterminated_string_literal''"
| "getErrorString UnterminatedCharLiteral = ''unterminated_char_literal''"
| "getErrorString UnterminatedBlockComment = ''unterminated_block_comment''"
| "getErrorString InvalidCharacter = ''invalid_character''"
| "getErrorString InvalidEscapeSequence = ''invalid_escape_sequence''"
| "getErrorString InvalidUnicodeEscape = ''invalid_unicode_escape''"
| "getErrorString EmptyCharLiteral = ''empty_char_literal''"
| "getErrorString MultiCharCharLiteral = ''multi_char_literal''"
| "getErrorString InvalidNumericLiteral = ''invalid_numeric_literal''"
| "getErrorString TrailingNumericSeparator = ''trailing_numeric_separator''"
| "getErrorString ReservedKeyword = ''reserved_keyword''"
| "getErrorString ReservedSymbol = ''reserved_symbol''"

datatype lexer_error = LexerError (ErrorKind: lexer_error_kind) (ErrorSpan: span)

text \<open>\<open>LexerItem\<close> is \<^verbatim>\<open>std::variant<Token, LexerError>\<close>.\<close>

datatype lexer_item = ItemToken token | ItemError lexer_error

primrec item_span :: "lexer_item \<Rightarrow> span" where
  "item_span (ItemToken t) = TokenSpan t"
| "item_span (ItemError e) = ErrorSpan e"

primrec is_token_item :: "lexer_item \<Rightarrow> bool" where
  "is_token_item (ItemToken t) = True"
| "is_token_item (ItemError e) = False"

section \<open>The tables agree\<close>

lemma nth_special_code: "special_list ! special_code x = x" "special_code x < 5"
  by (cases x; simp add: special_list_def)+

lemma nth_literal_code: "literal_list ! literal_code x = x" "literal_code x < 5"
  by (cases x; simp add: literal_list_def)+

lemma nth_delimiter_code: "delimiter_list ! delimiter_code x = x" "delimiter_code x < 10"
  by (cases x; simp add: delimiter_list_def)+

lemma nth_operator_code: "operator_list ! operator_code x = x" "operator_code x < 36"
  by (cases x; simp add: operator_list_def)+

lemma nth_keyword_code: "keyword_list ! keyword_code x = x" "keyword_code x < 29"
  by (cases x; simp add: keyword_list_def)+

lemma nth_reserved_code: "reserved_list ! reserved_code x = x" "reserved_code x < 8"
  by (cases x; simp add: reserved_list_def)+

lemma length_lists:
  "length special_list = 5" "length literal_list = 5" "length delimiter_list = 10"
  "length operator_list = 36" "length keyword_list = 29" "length reserved_list = 8"
  by (simp_all add: special_list_def literal_list_def delimiter_list_def operator_list_def
      keyword_list_def reserved_list_def)

lemmas group_codes =
  nth_special_code nth_literal_code nth_delimiter_code nth_operator_code nth_keyword_code
  nth_reserved_code

lemma length_all_kinds: "length all_kinds = 94"
  by (simp add: all_kinds_def length_lists)

lemma unat_of_nat16: "n < 65536 \<Longrightarrow> unat (of_nat n :: u16) = n"
  by (simp add: unat_of_nat take_bit_nat_eq_self)

lemma kind_index_less: "kind_index k < 94"
  by (cases k)
    (auto intro: order_less_le_trans [OF nth_special_code(2)]
      order_less_le_trans [OF nth_literal_code(2)] order_less_le_trans [OF nth_delimiter_code(2)]
      order_less_le_trans [OF nth_operator_code(2)] order_less_le_trans [OF nth_keyword_code(2)]
      order_less_le_trans [OF nth_reserved_code(2)])

lemma nth_kind_index: "all_kinds ! kind_index k = k"
  by (cases k) (simp_all add: all_kinds_def nth_append length_lists group_codes)

lemma nth_kind_code: "all_kinds ! unat (kind_code k) = k"
  using kind_index_less [of k] by (simp add: kind_code_def unat_of_nat16 nth_kind_index)

lemma kind_code_inject [simp]: "kind_code k = kind_code k' \<longleftrightarrow> k = k'"
  by (metis nth_kind_code)

text \<open>Every keyword kind is the image of its spelling, and no two keywords share one.\<close>

lemma keyword_name_inject: "keyword_name x = keyword_name y \<longleftrightarrow> x = y"
  by (cases x; cases y) simp_all

end
