(* ===== verification/Lexer.thy ===== *)
theory Lexer
  imports Tokens
begin

text \<open>
  The lexer (\<^verbatim>\<open>lib/Lexer/Lexer.cpp\<close>).  The program scans a window of the source buffer
  with raw pointers \<^verbatim>\<open>TokStart\<close>, \<^verbatim>\<open>CurPtr\<close> and the fixed bound \<^verbatim>\<open>BufferEnd\<close>.
  A pointer is modelled by the bytes from it up to \<^verbatim>\<open>BufferEnd\<close> (type \<open>ptr\<close>): then
  \<^verbatim>\<open>CurPtr >= BufferEnd\<close> is \<open>CurPtr = []\<close>, \<^verbatim>\<open>*CurPtr\<close> is the head, \<^verbatim>\<open>CurPtr++\<close> is
  the tail, \<^verbatim>\<open>CurPtr + 1 < BufferEnd\<close> says that two bytes are left, and a read at or past
  \<^verbatim>\<open>BufferEnd\<close> has no meaning at all.  Where the code needs the distance from
  \<^verbatim>\<open>BufferStart\<close>, the model has the offset \<open>e\<close> of \<^verbatim>\<open>BufferEnd\<close>, so a pointer \<open>p\<close> is
  at offset \<open>e - length p\<close>.  A routine that appends to the output vector returns the items
  it appends.
\<close>

type_synonym ptr = string

section \<open>Spans, errors and byte tests\<close>

definition makeTokenSpan :: "nat \<Rightarrow> ptr \<Rightarrow> ptr \<Rightarrow> span" where
  "makeTokenSpan e TokStart CurPtr =
     Span (of_nat (e - length TokStart)) (of_nat (e - length CurPtr))"

definition lexerError :: "nat \<Rightarrow> lexer_error_kind \<Rightarrow> ptr \<Rightarrow> ptr \<Rightarrow> lexer_item" where
  "lexerError e k start stop = ItemError (LexerError k (makeTokenSpan e start stop))"

definition isHexDigit :: "char \<Rightarrow> bool" where
  "isHexDigit c = isxdigit c"

definition isReservedKeyword :: "string \<Rightarrow> bool" where
  "isReservedKeyword s \<longleftrightarrow> s \<in> set (map reserved_word reserved_list)"

text \<open>No symbol of the X-macro file is declared with \<^verbatim>\<open>ETER_RESERVED_SYMBOL\<close>.\<close>

definition isReservedSymbolKind :: "kind \<Rightarrow> bool" where
  "isReservedSymbolKind k = False"

definition isWhitespace :: "char \<Rightarrow> bool" where
  "isWhitespace c \<longleftrightarrow> c = CHR '' '' \<or> c = ch_tab \<or> c = ch_lf \<or> c = ch_cr"

fun skipWhitespace :: "ptr \<Rightarrow> ptr" where
  "skipWhitespace [] = []"
| "skipWhitespace (C # CurPtr) =
     (if isWhitespace C then skipWhitespace CurPtr else C # CurPtr)"

section \<open>Unicode escapes\<close>

text \<open>
  The routine is entered with \<open>CurPtr\<close> just after the backslash at \<open>EscapeStart\<close>.  It
  returns whether it recognised \<^verbatim>\<open>u{\<close>, the new pointer and the errors appended.
\<close>

definition lexUnicodeEscape :: "nat \<Rightarrow> ptr \<Rightarrow> ptr \<Rightarrow> bool \<times> ptr \<times> lexer_item list" where
  "lexUnicodeEscape e EscapeStart CurPtr =
     (if CurPtr = [] \<or> hd CurPtr \<noteq> CHR ''u'' then (False, CurPtr, [])
      else if length CurPtr < 2 \<or> CurPtr ! 1 \<noteq> CHR ''{'' then (False, CurPtr, [])
      else
        let DigitsStart = drop 2 CurPtr;
            Cur = dropWhile isHexDigit DigitsStart;
            HasDigits = length Cur < length DigitsStart
        in case Cur of
             [] \<Rightarrow> (True, Cur, [lexerError e InvalidUnicodeEscape EscapeStart Cur])
           | C # Rest \<Rightarrow>
               if C \<noteq> CHR ''}''
               then (True, Cur, [lexerError e InvalidUnicodeEscape EscapeStart Cur])
               else (True, Rest,
                     if HasDigits then []
                     else [lexerError e InvalidUnicodeEscape EscapeStart Rest]))"

lemma lexUnicodeEscape_suffix:
  assumes "lexUnicodeEscape e esc cur = (b, cur', errs)"
  shows "suffix cur' cur"
proof -
  let ?digits = "dropWhile isHexDigit (drop 2 cur)"
  have s: "suffix ?digits cur"
    by (rule suffix_order.trans [OF suffix_dropWhile suffix_drop])
  then have "suffix p cur" if "?digits = c # p" for c p
    using that by (metis suffix_ConsD)
  with s show ?thesis
    using assms unfolding lexUnicodeEscape_def Let_def
    by (cases ?digits) (auto simp del: dropWhile_eq_Nil_conv split: if_splits)
qed

lemma lexUnicodeEscape_length:
  "lexUnicodeEscape e esc cur = (b, cur', errs) \<Longrightarrow> length cur' \<le> length cur"
  by (auto dest!: lexUnicodeEscape_suffix intro: suffix_length_le)

section \<open>String and character literals\<close>

definition isSimpleEscape :: "char \<Rightarrow> bool" where
  "isSimpleEscape c \<longleftrightarrow>
     c \<in> {CHR ''n'', CHR ''t'', CHR ''r'', CHR ''0'', ch_backslash, ch_dquote, ch_squote}"

text \<open>
  The backslash branch of the two scanning loops, which the code writes out in each:
  the loop is left (\<^verbatim>\<open>break\<close>) or goes on at a new pointer, with the errors appended.
\<close>

datatype escape = EscapeStop ptr "lexer_item list" | EscapeNext ptr "lexer_item list"

definition lexEscape :: "nat \<Rightarrow> ptr \<Rightarrow> ptr \<Rightarrow> escape" where
  "lexEscape e EscapeStart CurPtr =
     (if CurPtr = [] then
        EscapeStop CurPtr [lexerError e InvalidEscapeSequence EscapeStart CurPtr]
      else case lexUnicodeEscape e EscapeStart CurPtr of
        (True, Cur, errs) \<Rightarrow> EscapeNext Cur errs
      | (False, Cur, errs) \<Rightarrow>
          (case Cur of
             [] \<Rightarrow> EscapeStop Cur (errs @ [lexerError e InvalidEscapeSequence EscapeStart Cur])
           | Next # Rest \<Rightarrow>
               EscapeNext Rest
                 (errs @ (if isSimpleEscape Next then []
                          else [lexerError e InvalidEscapeSequence EscapeStart Rest]))))"

lemma lexEscape_suffix:
  "lexEscape e esc cur = EscapeStop p es \<Longrightarrow> suffix p cur"
  "lexEscape e esc cur = EscapeNext p es \<Longrightarrow> suffix p cur"
  by (auto simp: lexEscape_def split: if_splits prod.splits bool.splits list.splits
      dest!: lexUnicodeEscape_suffix dest: suffix_ConsD)

lemma lexEscape_length: "lexEscape e esc cur = EscapeNext p es \<Longrightarrow> length p \<le> length cur"
  by (auto dest!: lexEscape_suffix intro: suffix_length_le)

text \<open>
  The scanning loop of \<open>lexStringLiteral\<close>: whether the closing quote was found, the pointer
  after the literal, the errors appended.
\<close>

function lexStringLoop :: "nat \<Rightarrow> ptr \<Rightarrow> bool \<times> ptr \<times> lexer_item list" where
  "lexStringLoop e [] = (False, [], [])"
| "lexStringLoop e (C # CurPtr) =
     (if C = ch_backslash then
        (case lexEscape e (C # CurPtr) CurPtr of
           EscapeStop p errs \<Rightarrow> (False, p, errs)
         | EscapeNext p errs \<Rightarrow>
             (case lexStringLoop e p of (t, q, es) \<Rightarrow> (t, q, errs @ es)))
      else if C = ch_dquote then (True, CurPtr, [])
      else if C = ch_lf \<or> C = ch_cr then (False, CurPtr, [])
      else lexStringLoop e CurPtr)"
  by pat_completeness auto
termination
  by (relation "measure (\<lambda>(e, p). length p)") (auto dest: lexEscape_length)

definition lexStringLiteral :: "nat \<Rightarrow> ptr \<Rightarrow> ptr \<Rightarrow> bool \<times> token \<times> ptr \<times> lexer_item list" where
  "lexStringLiteral e TokStart CurPtr =
     (case lexStringLoop e CurPtr of (terminated, p, errs) \<Rightarrow>
        (terminated, Token tk_string_literal (makeTokenSpan e TokStart p), p, errs))"

text \<open>
  \<open>lexCharacterLiteral\<close> counts logical characters as well: an escape is one character and
  a UTF-8 continuation byte \<^verbatim>\<open>10xxxxxx\<close> belongs to the character before it.
\<close>

definition isContinuationByte :: "char \<Rightarrow> bool" where
  "isContinuationByte c \<longleftrightarrow> (of_nat (byte c) :: 8 word) AND 0xC0 = 0x80"

function lexCharLoop :: "nat \<Rightarrow> nat \<Rightarrow> ptr \<Rightarrow> bool \<times> nat \<times> ptr \<times> lexer_item list" where
  "lexCharLoop e n [] = (False, n, [], [])"
| "lexCharLoop e n (C # CurPtr) =
     (if C = ch_backslash then
        (case lexEscape e (C # CurPtr) CurPtr of
           EscapeStop p errs \<Rightarrow> (False, n, p, errs)
         | EscapeNext p errs \<Rightarrow>
             (case lexCharLoop e (Suc n) p of (t, m, q, es) \<Rightarrow> (t, m, q, errs @ es)))
      else if C = ch_squote then (True, n, CurPtr, [])
      else if C = ch_lf \<or> C = ch_cr then (False, n, CurPtr, [])
      else lexCharLoop e (if isContinuationByte C then n else Suc n) CurPtr)"
  by pat_completeness auto
termination
  by (relation "measure (\<lambda>(e, n, p). length p)") (auto dest: lexEscape_length)

definition lexCharacterLiteral ::
    "nat \<Rightarrow> ptr \<Rightarrow> ptr \<Rightarrow> bool \<times> nat \<times> token \<times> ptr \<times> lexer_item list" where
  "lexCharacterLiteral e TokStart CurPtr =
     (case lexCharLoop e 0 CurPtr of (terminated, n, p, errs) \<Rightarrow>
        (terminated, n, Token tk_char_literal (makeTokenSpan e TokStart p), p, errs))"

section \<open>Comments\<close>

text \<open>
  The nesting loop of a block comment: the pointer where it stops and the depth left, 0 when
  the comment is closed.
\<close>

fun lexBlockComment :: "nat \<Rightarrow> ptr \<Rightarrow> nat \<times> ptr" where
  "lexBlockComment d [] = (d, [])"
| "lexBlockComment d [C] = (if d = 0 then (d, [C]) else (d, []))"
| "lexBlockComment d (C # N # Rest) =
     (if d = 0 then (d, C # N # Rest)
      else if C = CHR ''/'' \<and> N = CHR ''*'' then lexBlockComment (Suc d) Rest
      else if C = CHR ''*'' \<and> N = CHR ''/'' then lexBlockComment (d - 1) Rest
      else lexBlockComment d (N # Rest))"

definition lexComment :: "nat \<Rightarrow> ptr \<Rightarrow> ptr \<Rightarrow> (token \<times> ptr \<times> lexer_item list) option" where
  "lexComment e TokStart CurPtr =
     (if CurPtr = [] then None
      else if hd CurPtr = CHR ''*'' then
        (case lexBlockComment 1 (tl CurPtr) of (NestingDepth, Cur) \<Rightarrow>
           Some (Token tk_comment (makeTokenSpan e TokStart Cur), Cur,
                 if NestingDepth > 0
                 then [lexerError e UnterminatedBlockComment TokStart Cur] else []))
      else if hd CurPtr = CHR ''/'' then
        let Slashes = takeWhile (\<lambda>c. c = CHR ''/'') (tl CurPtr);
            SlashCount = 2 + length Slashes;
            Cur = dropWhile (\<lambda>c. c = CHR ''/'') (tl CurPtr);
            IsFileDocComment = (SlashCount = 2 \<and> Cur \<noteq> [] \<and> hd Cur = CHR ''!'');
            Body = (if IsFileDocComment then tl Cur else Cur);
            Stop = dropWhile (\<lambda>c. c \<noteq> ch_lf \<and> c \<noteq> ch_cr) Body;
            k = (if SlashCount = 3 then tk_doc_comment
                 else if IsFileDocComment then tk_file_doc_comment
                 else tk_comment)
        in Some (Token k (makeTokenSpan e TokStart Stop), Stop, [])
      else None)"

section \<open>Identifiers, keywords and numbers\<close>

definition isIdentChar :: "char \<Rightarrow> bool" where
  "isIdentChar c \<longleftrightarrow> isalnum c \<or> c = CHR ''_''"

text \<open>The \<^verbatim>\<open>StringSwitch\<close> over the keyword spellings, in the X-macro file's order.\<close>

definition keywordKind :: "string \<Rightarrow> kind" where
  "keywordKind s =
     (case find (\<lambda>k. keyword_name k = s) keyword_list of
        Some k \<Rightarrow> Keyword k | None \<Rightarrow> tk_identifier)"

definition tokenText :: "ptr \<Rightarrow> ptr \<Rightarrow> string" where
  "tokenText TokStart CurPtr = take (length TokStart - length CurPtr) TokStart"

definition lexIdentifier :: "nat \<Rightarrow> ptr \<Rightarrow> ptr \<Rightarrow> token \<times> ptr" where
  "lexIdentifier e TokStart CurPtr =
     (let Cur = dropWhile isIdentChar CurPtr;
          Str = tokenText TokStart Cur
      in (Token (keywordKind Str) (makeTokenSpan e TokStart Cur), Cur))"

text \<open>
  The integer part of a number.  \<open>None\<close> for the pointer result stands for the early
  \<^verbatim>\<open>return false\<close> on two underscores in a row; the pointer reached then is the second
  component.
\<close>

fun lexIntegerPart :: "bool \<Rightarrow> nat \<Rightarrow> bool \<Rightarrow> ptr \<Rightarrow> bool \<times> nat \<times> ptr" where
  "lexIntegerPart IsHex HexDigits PrevWasUnderscore [] = (True, HexDigits, [])"
| "lexIntegerPart IsHex HexDigits PrevWasUnderscore (C # CurPtr) =
     (if IsHex \<and> isHexDigit C then lexIntegerPart IsHex (Suc HexDigits) False CurPtr
      else if \<not> IsHex \<and> isdigit C then lexIntegerPart IsHex HexDigits False CurPtr
      else if C = CHR ''_'' then
        if PrevWasUnderscore then (False, HexDigits, C # CurPtr)
        else lexIntegerPart IsHex HexDigits True CurPtr
      else (True, HexDigits, C # CurPtr))"

definition skipFloatSuffix :: "ptr \<Rightarrow> ptr" where
  "skipFloatSuffix CurPtr = (if CurPtr \<noteq> [] \<and> hd CurPtr = CHR ''f'' then tl CurPtr else CurPtr)"

text \<open>
  \<open>lexNumericLiteral\<close> returns its verdict, the token as it leaves it, and the pointer.  The
  token comes in as \<open>integer_literal\<close> with the span \<open>(0, 0)\<close>; the early return leaves it so.
\<close>

definition lexNumericLiteral :: "nat \<Rightarrow> ptr \<Rightarrow> ptr \<Rightarrow> bool \<times> token \<times> ptr" where
  "lexNumericLiteral e TokStart CurPtr =
     (let Result = Token tk_integer_literal (Span 0 0);
          IsHex = (hd TokStart = CHR ''0'' \<and> CurPtr \<noteq> []
                   \<and> (hd CurPtr = CHR ''x'' \<or> hd CurPtr = CHR ''X''));
          Start = (if IsHex then tl CurPtr else CurPtr)
      in case lexIntegerPart IsHex 0 False Start of (Ok, HexDigits, Cur) \<Rightarrow>
        if \<not> Ok then (False, Result, Cur)
        else if \<not> IsHex \<and> Cur \<noteq> [] \<and> hd Cur = CHR ''.'' \<and> tl Cur \<noteq> [] \<and> isdigit (hd (tl Cur)) then
          let Frac = dropWhile (\<lambda>c. isdigit c \<or> c = CHR ''_'') (tl Cur);
              Stop = skipFloatSuffix Frac
          in (True, Token tk_float_literal (makeTokenSpan e TokStart Stop), Stop)
        else if \<not> IsHex \<and> Cur \<noteq> [] \<and> hd Cur = CHR ''f'' then
          (True, Token tk_float_literal (makeTokenSpan e TokStart (tl Cur)), tl Cur)
        else
          let Tok = Token tk_integer_literal (makeTokenSpan e TokStart Cur)
          in if IsHex \<and> HexDigits = 0 then (False, Tok, Cur)
             else if length Cur < length TokStart \<and> last (tokenText TokStart Cur) = CHR ''_''
             then (False, Tok, Cur)
             else (True, Tok, Cur))"

lemma lexIntegerPart_suffix:
  "lexIntegerPart h n u cur = (ok, m, cur') \<Longrightarrow> suffix cur' cur"
  by (induction h n u cur rule: lexIntegerPart.induct)
    (auto split: if_splits intro: suffix_ConsI)

lemma skipFloatSuffix_suffix [simp]: "suffix (skipFloatSuffix p) p"
  by (cases p) (auto simp: skipFloatSuffix_def intro: suffix_ConsI)

lemma lexNumericLiteral_suffix:
  assumes "lexNumericLiteral e tok cur = (v, t, cur')"
  shows "suffix cur' cur"
proof -
  have tl: "suffix (tl p) p" for p :: ptr
    by (cases p) (auto intro: suffix_ConsI)
  obtain h start where start: "start = (if h then tl cur else cur)"
    and h: "h = (hd tok = CHR ''0'' \<and> cur \<noteq> [] \<and> (hd cur = CHR ''x'' \<or> hd cur = CHR ''X''))"
    by blast
  obtain ok n mid where mid: "lexIntegerPart h 0 False start = (ok, n, mid)"
    by (metis prod_cases3)
  have "suffix start cur"
    using start tl by auto
  with lexIntegerPart_suffix [OF mid] have m: "suffix mid cur"
    by (rule suffix_order.trans)
  have f: "suffix (skipFloatSuffix (dropWhile P (tl mid))) cur" for P
    using suffix_order.trans [OF skipFloatSuffix_suffix suffix_dropWhile, of P "tl mid"]
      suffix_order.trans [OF tl m] suffix_order.trans by blast
  have g: "suffix (tl mid) cur"
    using suffix_order.trans [OF tl m] .
  show ?thesis
    using assms mid m f g unfolding lexNumericLiteral_def Let_def h [symmetric] start [symmetric]
    by (auto split: if_splits)
qed

section \<open>Symbols and operators\<close>

definition at :: "ptr \<Rightarrow> char \<Rightarrow> bool" where
  "at CurPtr c \<longleftrightarrow> CurPtr \<noteq> [] \<and> hd CurPtr = c"

text \<open>
  The \<^verbatim>\<open>switch (C)\<close> of the main loop; \<open>CurPtr\<close> is just after \<open>C\<close>.  The result is the
  kind, \<open>unknown\<close> for a byte that starts no symbol, and the pointer.
\<close>

definition lexSymbol :: "char \<Rightarrow> ptr \<Rightarrow> kind \<times> ptr" where
  "lexSymbol C p =
     (if C = CHR ''('' then (tk_l_paren, p)
      else if C = CHR '')'' then (tk_r_paren, p)
      else if C = CHR ''{'' then (tk_l_brace, p)
      else if C = CHR ''}'' then (tk_r_brace, p)
      else if C = CHR ''['' then (tk_l_square, p)
      else if C = CHR '']'' then (tk_r_square, p)
      else if C = CHR '','' then (tk_comma, p)
      else if C = CHR '';'' then (tk_semi, p)
      else if C = CHR '':'' then
        if at p (CHR '':'') then (tk_colon_colon, tl p) else (tk_colon, p)
      else if C = CHR ''+'' then
        if at p (CHR ''+'') then (tk_plus_plus, tl p)
        else if at p (CHR ''='') then (tk_plus_eq, tl p) else (tk_plus, p)
      else if C = CHR ''-'' then
        if at p (CHR ''-'') then (tk_minus_minus, tl p)
        else if at p (CHR ''='') then (tk_minus_eq, tl p)
        else if at p (CHR ''>'') then (tk_arrow, tl p) else (tk_minus, p)
      else if C = CHR ''*'' then
        if at p (CHR ''='') then (tk_star_eq, tl p) else (tk_star, p)
      else if C = CHR ''/'' then
        if at p (CHR ''='') then (tk_slash_eq, tl p) else (tk_slash, p)
      else if C = CHR ''%'' then
        if at p (CHR ''='') then (tk_percent_eq, tl p) else (tk_percent, p)
      else if C = CHR ''&'' then
        if at p (CHR ''&'') then (tk_amp_amp, tl p)
        else if at p (CHR ''='') then (tk_amp_eq, tl p) else (tk_amp, p)
      else if C = CHR ''|'' then
        if at p (CHR ''|'') then (tk_pipe_pipe, tl p)
        else if at p (CHR ''='') then (tk_pipe_eq, tl p) else (tk_pipe, p)
      else if C = CHR ''^'' then
        if at p (CHR ''='') then (tk_caret_eq, tl p) else (tk_caret, p)
      else if C = CHR ''<'' then
        if at p (CHR ''<'') then
          if at (tl p) (CHR ''='') then (tk_less_less_eq, tl (tl p)) else (tk_less_less, tl p)
        else if at p (CHR ''='') then (tk_less_eq, tl p) else (tk_less, p)
      else if C = CHR ''>'' then
        if at p (CHR ''>'') then
          if at (tl p) (CHR ''='') then (tk_greater_greater_eq, tl (tl p))
          else (tk_greater_greater, tl p)
        else if at p (CHR ''='') then (tk_greater_eq, tl p) else (tk_greater, p)
      else if C = CHR ''='' then
        if at p (CHR ''='') then (tk_eq_eq, tl p)
        else if at p (CHR ''>'') then (tk_fat_arrow, tl p) else (tk_eq, p)
      else if C = CHR ''!'' then
        if at p (CHR ''='') then (tk_bang_eq, tl p) else (tk_bang, p)
      else if C = CHR ''.'' then (tk_dot, p)
      else if C = CHR ''?'' then (tk_question, p)
      else if C = CHR ''@'' then (tk_at, p)
      else (tk_unknown, p))"

section \<open>The main loop\<close>

text \<open>
  One iteration of the main loop after the white space is skipped: \<open>TokStart = C # CurPtr\<close>.
  The reserved-keyword test reads the buffer through the token's span, as the code does.
\<close>

definition lexToken :: "string \<Rightarrow> nat \<Rightarrow> char \<Rightarrow> ptr \<Rightarrow> lexer_item list \<times> ptr" where
  "lexToken Buffer e C CurPtr =
     (let TokStart = C # CurPtr;
          Comment = (if C = CHR ''/'' then lexComment e TokStart CurPtr else None)
      in case Comment of
        Some (Result, p, errs) \<Rightarrow> (errs @ [ItemToken Result], p)
      | None \<Rightarrow>
        if isalpha C \<or> C = CHR ''_'' then
          (case lexIdentifier e TokStart CurPtr of (Result, p) \<Rightarrow>
             let sp = TokenSpan Result in
             if isReservedKeyword (slice Buffer (unat (Start sp)) (unat (End sp)))
             then ([ItemError (LexerError ReservedKeyword sp)], p)
             else ([ItemToken Result], p))
        else if isdigit C then
          (case lexNumericLiteral e TokStart CurPtr of (Valid, Result, p) \<Rightarrow>
             if Valid then ([ItemToken Result], p)
             else ([ItemError (LexerError InvalidNumericLiteral (TokenSpan Result))], p))
        else if C = ch_dquote then
          (case lexStringLiteral e TokStart CurPtr of (Terminated, Result, p, errs) \<Rightarrow>
             if Terminated then (errs @ [ItemToken Result], p)
             else (errs @ [ItemError (LexerError UnterminatedStringLiteral (TokenSpan Result))], p))
        else if C = ch_squote then
          (case lexCharacterLiteral e TokStart CurPtr of (Terminated, CharCount, Result, p, errs) \<Rightarrow>
             if Terminated \<and> CharCount = 1 then (errs @ [ItemToken Result], p)
             else
               let k = (if \<not> Terminated then UnterminatedCharLiteral
                        else if CharCount = 0 then EmptyCharLiteral
                        else MultiCharCharLiteral)
               in (errs @ [ItemError (LexerError k (TokenSpan Result))], p))
        else
          (case lexSymbol C CurPtr of (k, p) \<Rightarrow>
             let sp = makeTokenSpan e TokStart p in
             if k \<noteq> tk_unknown then
               if isReservedSymbolKind k
               then ([ItemError (LexerError ReservedSymbol sp)], p)
               else ([ItemToken (Token k sp)], p)
             else ([ItemError (LexerError InvalidCharacter sp)], p)))"

text \<open>Every routine leaves a suffix of the window: the pointer only moves forward.\<close>

named_theorems lex_suffix \<open>the routines only move the pointer forward\<close>

lemma suffix_tl: "suffix (tl p) p"
  by (cases p) (auto intro: suffix_ConsI)

lemma suffix_ConsI': "suffix p q \<Longrightarrow> suffix p (c # q)"
  by (rule suffix_ConsI)

declare lexUnicodeEscape_suffix [lex_suffix] lexNumericLiteral_suffix [lex_suffix]

lemma lexStringLoop_suffix [lex_suffix]:
  "lexStringLoop e cur = (t, p, es) \<Longrightarrow> suffix p cur"
  by (induction e cur arbitrary: t p es rule: lexStringLoop.induct)
    (auto split: if_splits escape.splits prod.splits dest!: lexEscape_suffix
      intro: suffix_ConsI, metis suffix_ConsI suffix_order.trans)

lemma lexCharLoop_suffix [lex_suffix]:
  "lexCharLoop e n cur = (t, m, p, es) \<Longrightarrow> suffix p cur"
  by (induction e n cur arbitrary: t m p es rule: lexCharLoop.induct)
    (auto split: if_splits escape.splits prod.splits dest!: lexEscape_suffix
      intro: suffix_ConsI, metis suffix_ConsI suffix_order.trans)

lemma lexBlockComment_suffix [lex_suffix]:
  "lexBlockComment d cur = (d', p) \<Longrightarrow> suffix p cur"
  by (induction d cur arbitrary: d' p rule: lexBlockComment.induct)
    (auto split: if_splits intro: suffix_ConsI)

lemma lexComment_suffix [lex_suffix]:
  assumes "lexComment e tok cur = Some (t, p, es)"
  shows "suffix p cur"
proof (cases "hd cur = CHR ''*''")
  case True
  then show ?thesis
    using assms lexBlockComment_suffix [of 1 "tl cur"] suffix_order.trans [OF _ suffix_tl, of _ cur]
    by (auto simp: lexComment_def split: if_splits prod.splits)
next
  case False
  have "suffix (dropWhile P (tl cur)) cur" for P
    by (rule suffix_order.trans [OF suffix_dropWhile suffix_tl])
  moreover have "suffix (dropWhile P (tl (dropWhile Q (tl cur)))) cur" for P Q
    by (meson suffix_dropWhile suffix_tl suffix_order.trans)
  moreover have "suffix (dropWhile P (dropWhile Q (tl cur))) cur" for P Q
    by (meson suffix_dropWhile suffix_tl suffix_order.trans)
  ultimately show ?thesis
    using False assms by (auto simp: lexComment_def Let_def split: if_splits)
qed

lemma lexSymbol_suffix [lex_suffix]:
  assumes "lexSymbol C cur = (k, p)"
  shows "suffix p cur"
proof -
  have "suffix (tl (tl cur)) cur"
    by (rule suffix_order.trans [OF suffix_tl suffix_tl])
  with assms suffix_tl [of cur] show ?thesis
    unfolding lexSymbol_def by (auto split: if_splits)
qed

lemma lexToken_suffix:
  assumes "lexToken B e C cur = (is, p)"
  shows "suffix p cur"
  using assms
  unfolding lexToken_def lexIdentifier_def lexStringLiteral_def lexCharacterLiteral_def Let_def
  by (auto split: if_splits option.splits prod.splits dest: lex_suffix)

lemma lexToken_length: "lexToken B e C cur = (is, p) \<Longrightarrow> length p \<le> length cur"
  by (auto dest!: lexToken_suffix intro: suffix_length_le)

lemma skipWhitespace_dropWhile: "skipWhitespace p = dropWhile isWhitespace p"
  by (induction p) auto

lemma skipWhitespace_length: "length (skipWhitespace p) \<le> length p"
  by (simp add: skipWhitespace_dropWhile length_dropWhile_le)

function lexLoop :: "string \<Rightarrow> nat \<Rightarrow> ptr \<Rightarrow> lexer_item list" where
  "lexLoop Buffer e CurPtr =
     (case skipWhitespace CurPtr of
        [] \<Rightarrow> []
      | C # Cur \<Rightarrow>
          (case lexToken Buffer e C Cur of (items, Next) \<Rightarrow> items @ lexLoop Buffer e Next))"
  by pat_completeness auto
termination
proof (relation "measure (\<lambda>(B, e, p). length p)", goal_cases)
  case 1
  then show ?case by simp
next
  case (2 B e p C cur items rest)
  then have "length rest \<le> length cur" "length cur < length (skipWhitespace p)"
    by (auto intro: lexToken_length [OF sym])
  with skipWhitespace_length [of p] show ?case by simp
qed

declare lexLoop.simps [simp del]

text \<open>
  \<open>Lexer::lex(SourceBuffer, Span)\<close>, and the overload that lexes the whole buffer, whose
  span is built from \<^verbatim>\<open>size()\<close> cut to 32 bits.
\<close>

definition lexSpan :: "string \<Rightarrow> span \<Rightarrow> lexer_item list" where
  "lexSpan Buffer sp =
     (let s = unat (Start sp); t = unat (End sp) in
      if s > length Buffer \<or> t > length Buffer \<or> s > t then []
      else lexLoop Buffer t (take (t - s) (drop s Buffer))
           @ (if s = 0 \<and> t = length Buffer
              then [ItemToken (Token tk_eof (Span (of_nat (length Buffer)) (of_nat (length Buffer))))]
              else []))"

definition lex :: "string \<Rightarrow> lexer_item list" where
  "lex Buffer = lexSpan Buffer (Span 0 (of_nat (length Buffer)))"

end
