(* ===== verification/LexerProps.thy ===== *)
theory LexerProps
  imports Lexer
begin

text \<open>
  What the lexer guarantees.  The first part is a specification of the lexemes of the
  language, \<open>lexeme k s\<close>: the text \<open>s\<close> is a legal spelling of the kind \<open>k\<close>.  The second
  describes one iteration of the main loop (\<open>lexToken_shape\<close>), the third lifts it to whole
  buffers: the token spans are ordered, every byte outside them is white space, in an error or in
  a number that is cut off, the text of a token is a lexeme of its kind unless an error is
  reported inside it, and printed lexemes are read back.
\<close>

section \<open>Lexemes\<close>

fun no_double_underscore :: "string \<Rightarrow> bool" where
  "no_double_underscore (a # b # s) \<longleftrightarrow>
     \<not> (a = CHR ''_'' \<and> b = CHR ''_'') \<and> no_double_underscore (b # s)"
| "no_double_underscore s \<longleftrightarrow> True"

definition digits_of :: "(char \<Rightarrow> bool) \<Rightarrow> string \<Rightarrow> bool" where
  "digits_of P s \<longleftrightarrow> (\<exists>c\<in>set s. P c) \<and> (\<forall>c\<in>set s. P c \<or> c = CHR ''_'')
     \<and> last s \<noteq> CHR ''_'' \<and> no_double_underscore s"

definition line_free :: "string \<Rightarrow> bool" where
  "line_free s \<longleftrightarrow> ch_lf \<notin> set s \<and> ch_cr \<notin> set s"

definition integer_lexeme :: "string \<Rightarrow> bool" where
  "integer_lexeme s \<longleftrightarrow> isdigit (hd s) \<and> digits_of isdigit s
     \<or> (\<exists>x r. s = CHR ''0'' # x # r \<and> (x = CHR ''x'' \<or> x = CHR ''X'') \<and> digits_of isxdigit r)"

definition float_lexeme :: "string \<Rightarrow> bool" where
  "float_lexeme s \<longleftrightarrow> (\<exists>ds t. s = ds @ t \<and> ds \<noteq> [] \<and> isdigit (hd ds)
     \<and> (\<forall>c\<in>set ds. isdigit c \<or> c = CHR ''_'') \<and> no_double_underscore ds
     \<and> (t = ''f'' \<or> (\<exists>d fr f. t = CHR ''.'' # d # fr @ f \<and> isdigit d
          \<and> (\<forall>c\<in>set fr. isdigit c \<or> c = CHR ''_'') \<and> (f = [] \<or> f = ''f''))))"

definition doc_comment_lexeme :: "string \<Rightarrow> bool" where
  "doc_comment_lexeme s \<longleftrightarrow> line_free s
     \<and> (\<exists>r. s = ''///'' @ r \<and> (r = [] \<or> hd r \<noteq> CHR ''/''))"

definition file_doc_comment_lexeme :: "string \<Rightarrow> bool" where
  "file_doc_comment_lexeme s \<longleftrightarrow> line_free s \<and> (\<exists>r. s = ''//!'' @ r)"

text \<open>Block comments nest: the text after \<^verbatim>\<open>/*\<close> closes every comment that it opens, the last one with
  its last two bytes.\<close>

fun closes :: "nat \<Rightarrow> string \<Rightarrow> bool" where
  "closes 0 s \<longleftrightarrow> s = []"
| "closes (Suc d) (a # b # s) \<longleftrightarrow>
     (if a = CHR ''/'' \<and> b = CHR ''*'' then closes (Suc (Suc d)) s
      else if a = CHR ''*'' \<and> b = CHR ''/'' then closes d s
      else closes (Suc d) (b # s))"
| "closes (Suc d) s \<longleftrightarrow> False"

definition comment_lexeme :: "string \<Rightarrow> bool" where
  "comment_lexeme s \<longleftrightarrow> (\<exists>r. s = ''/*'' @ r \<and> closes 1 r)
     \<or> (line_free s \<and> (\<exists>r. s = ''//'' @ r)
        \<and> \<not> doc_comment_lexeme s \<and> \<not> file_doc_comment_lexeme s)"

definition reserved_spelling :: "string \<Rightarrow> bool" where
  "reserved_spelling s \<longleftrightarrow> (\<exists>r. s = reserved_word r)"

definition keyword_spelling :: "string \<Rightarrow> bool" where
  "keyword_spelling s \<longleftrightarrow> (\<exists>k. s = keyword_name k)"

definition word_lexeme :: "string \<Rightarrow> bool" where
  "word_lexeme s \<longleftrightarrow> s \<noteq> [] \<and> (isalpha (hd s) \<or> hd s = CHR ''_'') \<and> (\<forall>c\<in>set s. isIdentChar c)"

text \<open>
  What may stand between quotes \<open>q\<close>: the escapes of the language, with at least one digit in a
  Unicode escape, and any other byte but a backslash, the quote and a line break.
\<close>

definition legal_escape :: "string \<Rightarrow> bool" where
  "legal_escape p \<longleftrightarrow>
     (\<exists>c. p = [ch_backslash, c] \<and> c \<in> set (''ntr0'' @ [ch_backslash, ch_dquote, ch_squote]))
     \<or> (\<exists>hs. p = ch_backslash # ''u{'' @ hs @ ''}'' \<and> hs \<noteq> [] \<and> (\<forall>c\<in>set hs. isxdigit c))"

definition legal_piece :: "char \<Rightarrow> string \<Rightarrow> bool" where
  "legal_piece q p \<longleftrightarrow> legal_escape p \<or> (\<exists>c. p = [c] \<and> c \<notin> {ch_backslash, q, ch_lf, ch_cr})"

text \<open>A logical character: a byte \<^verbatim>\<open>10xxxxxx\<close> of UTF-8 continues the one before it.\<close>

definition continues :: "string \<Rightarrow> bool" where
  "continues p \<longleftrightarrow> (\<exists>c. p = [c] \<and> 0x80 \<le> byte c \<and> byte c < 0xC0)"

definition string_lexeme :: "string \<Rightarrow> bool" where
  "string_lexeme s \<longleftrightarrow>
     (\<exists>ps. s = ch_dquote # concat ps @ [ch_dquote] \<and> (\<forall>p\<in>set ps. legal_piece ch_dquote p))"

definition char_lexeme :: "string \<Rightarrow> bool" where
  "char_lexeme s \<longleftrightarrow>
     (\<exists>ps. s = ch_squote # concat ps @ [ch_squote] \<and> (\<forall>p\<in>set ps. legal_piece ch_squote p)
       \<and> length (filter (\<lambda>p. \<not> continues p) ps) = 1)"

text \<open>The text between quotes when escapes may be illegal: a quote or a line break only after a backslash.\<close>

fun quoted_body :: "char \<Rightarrow> string \<Rightarrow> bool" where
  "quoted_body q [] \<longleftrightarrow> True"
| "quoted_body q (c # s) \<longleftrightarrow>
     (if c = ch_backslash then (case s of [] \<Rightarrow> False | n # s' \<Rightarrow> quoted_body q s')
      else c \<noteq> q \<and> c \<noteq> ch_lf \<and> c \<noteq> ch_cr \<and> quoted_body q s)"

definition quoted :: "char \<Rightarrow> string \<Rightarrow> bool" where
  "quoted q s \<longleftrightarrow> (\<exists>r. s = q # r @ [q] \<and> quoted_body q r)"

primrec special_lexeme :: "special \<Rightarrow> string \<Rightarrow> bool" where
  "special_lexeme S_unknown s \<longleftrightarrow> False"
| "special_lexeme S_eof s \<longleftrightarrow> s = []"
| "special_lexeme S_doc_comment s \<longleftrightarrow> doc_comment_lexeme s"
| "special_lexeme S_file_doc_comment s \<longleftrightarrow> file_doc_comment_lexeme s"
| "special_lexeme S_comment s \<longleftrightarrow> comment_lexeme s"

primrec literal_lexeme :: "literal \<Rightarrow> string \<Rightarrow> bool" where
  "literal_lexeme L_identifier s \<longleftrightarrow>
     word_lexeme s \<and> \<not> keyword_spelling s \<and> \<not> reserved_spelling s"
| "literal_lexeme L_integer_literal s \<longleftrightarrow> integer_lexeme s"
| "literal_lexeme L_float_literal s \<longleftrightarrow> float_lexeme s"
| "literal_lexeme L_char_literal s \<longleftrightarrow> char_lexeme s"
| "literal_lexeme L_string_literal s \<longleftrightarrow> string_lexeme s"

primrec lexeme :: "kind \<Rightarrow> string \<Rightarrow> bool" where
  "lexeme (Special k) s \<longleftrightarrow> special_lexeme k s"
| "lexeme (Literal k) s \<longleftrightarrow> literal_lexeme k s"
| "lexeme (Delimiter k) s \<longleftrightarrow> s = delimiter_name k"
| "lexeme (Operator k) s \<longleftrightarrow> s = operator_name k"
| "lexeme (Keyword k) s \<longleftrightarrow> s = keyword_name k"
| "lexeme (Reserved k) s \<longleftrightarrow> False"
| "lexeme Arrow s \<longleftrightarrow> s = ''->''"

text \<open>
  The text of a token, illegal or not: a literal with an illegal escape is still a token between
  quotes, and a block comment that is not closed is a comment.
\<close>

definition shape :: "kind \<Rightarrow> string \<Rightarrow> bool" where
  "shape k s \<longleftrightarrow> lexeme k s \<or> k = tk_string_literal \<and> quoted ch_dquote s
     \<or> k = tk_char_literal \<and> quoted ch_squote s \<or> k = tk_comment \<and> prefix ''/*'' s"

lemma shape_lexeme [intro, simp]: "lexeme k s \<Longrightarrow> shape k s"
  by (simp add: shape_def)

lemma shape_special [simp]: "shape tk_eof s \<longleftrightarrow> s = []" "shape tk_unknown s \<longleftrightarrow> False"
  by (simp_all add: shape_def)

text \<open>A number that is cut off between two underscores.\<close>

definition broken_number :: "string \<Rightarrow> bool" where
  "broken_number s \<longleftrightarrow> s \<noteq> [] \<and> last s = CHR ''_''
     \<and> (isdigit (hd s) \<and> (\<forall>c\<in>set s. isdigit c \<or> c = CHR ''_'')
       \<or> (\<exists>x r. s = CHR ''0'' # x # r \<and> (x = CHR ''x'' \<or> x = CHR ''X'') \<and> r \<noteq> []
           \<and> (\<forall>c\<in>set r. isxdigit c \<or> c = CHR ''_'')))"

section \<open>One iteration\<close>

lemma tokenText_append [simp]: "tokenText (s @ p) p = s"
  by (simp add: tokenText_def)

lemma tokenText_Cons [simp]: "tokenText (c # s @ p) p = c # s"
  using tokenText_append [of "c # s" p] by simp

lemma tokenText_self [simp]: "tokenText p p = []"
  by (simp add: tokenText_def)

lemma set_all_keywords: "k \<in> set keyword_list"
  using nth_keyword_code [of k] by (metis length_lists(5) nth_mem)

lemma set_all_reserved: "k \<in> set reserved_list"
  using nth_reserved_code [of k] by (metis length_lists(6) nth_mem)

lemma spelling_tables:
  "keyword_spelling s \<longleftrightarrow> s \<in> set (map keyword_name keyword_list)"
  "reserved_spelling s \<longleftrightarrow> s \<in> set (map reserved_word reserved_list)"
  by (auto simp: keyword_spelling_def reserved_spelling_def set_all_keywords set_all_reserved)

lemma isReservedKeyword_iff: "isReservedKeyword s \<longleftrightarrow> reserved_spelling s"
  by (auto simp: isReservedKeyword_def reserved_spelling_def set_all_reserved)

lemma find_eq_self: "k \<in> set xs \<Longrightarrow> find (\<lambda>x. x = k) xs = Some k"
  by (induction xs) auto

lemma keywordKind_keyword [simp]: "keywordKind (keyword_name k) = Keyword k"
proof -
  have "find (\<lambda>x. keyword_name x = keyword_name k) keyword_list = Some k"
    using find_eq_self [OF set_all_keywords] by (simp add: keyword_name_inject)
  then show ?thesis by (simp add: keywordKind_def)
qed

lemma keywordKind_other: "\<not> keyword_spelling s \<Longrightarrow> keywordKind s = tk_identifier"
  by (auto simp: keywordKind_def keyword_spelling_def find_None_iff split: option.split
      dest!: find_Some_iff [THEN iffD1])

text \<open>Keywords and reserved words are words, and no word is both.\<close>

lemma word_keyword: "word_lexeme (keyword_name k)"
  by (cases k; simp add: word_lexeme_def isIdentChar_def isalnum_def isalpha_def isdigit_def byte_def)

lemma not_reserved_keyword: "\<not> reserved_spelling (keyword_name k)"
proof
  assume "reserved_spelling (keyword_name k)"
  then obtain r where "keyword_name k = reserved_word r" by (auto simp: reserved_spelling_def)
  then show False by (cases r; cases k; simp)
qed

lemma lexeme_keywordKind:
  assumes "word_lexeme s" "\<not> reserved_spelling s"
  shows "lexeme (keywordKind s) s"
proof (cases "keyword_spelling s")
  case True
  then show ?thesis by (auto simp: keyword_spelling_def)
next
  case False
  with assms show ?thesis by (simp add: keywordKind_other)
qed


text \<open>Errors reported inside a token: their spans lie in the bytes scanned.\<close>

definition err_within :: "nat \<Rightarrow> ptr \<Rightarrow> ptr \<Rightarrow> lexer_item \<Rightarrow> bool" where
  "err_within e start stop x \<longleftrightarrow>
     (\<exists>k a b. x = lexerError e k a b \<and> suffix a start \<and> suffix b a \<and> b \<noteq> a \<and> suffix stop b)"

lemma err_within_mono:
  "err_within e s p x \<Longrightarrow> suffix s s' \<Longrightarrow> suffix p' p \<Longrightarrow> err_within e s' p' x"
  unfolding err_within_def by (metis suffix_order.trans)

lemma suffix_Cons_self [simp]: "suffix s (c # s)"
  by (rule suffix_ConsI) simp

lemma err_withinI: "suffix a s \<Longrightarrow> suffix b a \<Longrightarrow> b \<noteq> a \<Longrightarrow> suffix p b \<Longrightarrow> err_within e s p (lexerError e k a b)"
  unfolding err_within_def by blast

lemma suffix_not_Cons: "suffix p cur \<Longrightarrow> p \<noteq> c # cur"
  by (auto dest: suffix_length_le)

lemma lexUnicodeEscape_errs:
  assumes "lexUnicodeEscape e (c # cur) cur = (b, p, es)"
  shows "(\<forall>x\<in>set es. err_within e (c # cur) p x) \<and> length es \<le> 1 \<and> (\<not> b \<longrightarrow> es = [] \<and> p = cur)"
proof -
  have "suffix p (c # cur)" "p \<noteq> c # cur"
    using lexUnicodeEscape_suffix [OF assms] by (simp_all add: suffix_ConsI suffix_not_Cons)
  then show ?thesis
    using assms unfolding lexUnicodeEscape_def Let_def
    by (auto split: if_splits list.splits simp del: dropWhile_eq_Nil_conv intro!: err_withinI)
qed

lemma lexEscape_errs:
  assumes "lexEscape e (c # cur) cur = EscapeStop p es \<or> lexEscape e (c # cur) cur = EscapeNext p es"
  shows "(\<forall>x\<in>set es. err_within e (c # cur) p x) \<and> length es \<le> 1"
proof -
  have p: "suffix p (c # cur)" "p \<noteq> c # cur"
    using assms lexEscape_suffix suffix_not_Cons by (metis suffix_ConsI)+
  obtain b q es' where u: "lexUnicodeEscape e (c # cur) cur = (b, q, es')"
    by (metis prod_cases3)
  show ?thesis
    using assms p lexUnicodeEscape_errs [OF u] unfolding lexEscape_def u
    by (auto split: if_splits bool.splits list.splits intro!: err_withinI)
qed

text \<open>
  What a scanning loop reports between \<open>start\<close> and \<open>stop\<close>: errors inside the bytes scanned,
  no more of them than bytes.
\<close>

definition scanned :: "nat \<Rightarrow> ptr \<Rightarrow> ptr \<Rightarrow> lexer_item list \<Rightarrow> bool" where
  "scanned e start stop es \<longleftrightarrow> suffix stop start
     \<and> (\<forall>x\<in>set es. err_within e start stop x) \<and> length es + length stop \<le> length start"

lemma scanned_Nil [simp]: "scanned e start stop [] \<longleftrightarrow> suffix stop start"
  by (auto simp: scanned_def suffix_length_le)

lemma scanned_Cons: "scanned e s p es \<Longrightarrow> scanned e (c # s) p es"
  unfolding scanned_def by (auto intro: suffix_ConsI err_within_mono)

lemma scanned_stop:
  assumes "lexEscape e (c # cur) cur = EscapeStop q es"
  shows "scanned e (c # cur) q es"
proof -
  have "q = []"
    using assms by (auto simp: lexEscape_def split: if_splits prod.splits bool.splits list.splits)
  with lexEscape_errs [of e c cur q es] assms show ?thesis
    by (simp add: scanned_def)
qed

lemma scanned_next:
  assumes "lexEscape e (c # cur) cur = EscapeNext q es" "scanned e q p es'"
  shows "scanned e (c # cur) p (es @ es')"
proof -
  have q: "suffix q cur" "length q \<le> length cur"
    using lexEscape_suffix(2) [OF assms(1)] lexEscape_length [OF assms(1)] .
  then have s: "suffix q (c # cur)" "suffix p (c # cur)"
    using assms(2) suffix_order.trans by (auto simp: scanned_def intro: suffix_ConsI)
  have e1: "err_within e (c # cur) p x" if "x \<in> set es" for x
    using lexEscape_errs [of e c cur q es] assms that
    by (auto simp: scanned_def intro: err_within_mono)
  have e2: "err_within e (c # cur) p x" if "x \<in> set es'" for x
    using assms(2) that s by (auto simp: scanned_def intro: err_within_mono)
  show ?thesis
    using e1 e2 q s assms lexEscape_errs [of e c cur q es]
    by (auto simp: scanned_def)
qed

lemma quoted_body_hex:
  "\<forall>c\<in>set u. isxdigit c \<or> c = CHR ''{'' \<or> c = CHR ''}'' \<Longrightarrow> q = ch_dquote \<or> q = ch_squote
    \<Longrightarrow> quoted_body q (u @ s) = quoted_body q s"
  by (induction u) (auto simp: isxdigit_def isdigit_def byte_def)

lemma lexUnicodeEscape_body:
  assumes "lexUnicodeEscape e esc cur = (True, p, es)"
  shows "\<exists>u. cur = CHR ''u'' # u @ p \<and> (\<forall>c\<in>set u. isxdigit c \<or> c = CHR ''{'' \<or> c = CHR ''}'')"
proof -
  from assms obtain r where cur: "cur = CHR ''u'' # CHR ''{'' # r"
    unfolding lexUnicodeEscape_def
    by (cases cur; cases "tl cur") (auto split: if_splits)
  let ?d = "dropWhile isHexDigit r" and ?t = "takeWhile isHexDigit r"
  have hex: "\<forall>c\<in>set ?t. isxdigit c"
    by (auto simp: isHexDigit_def dest: set_takeWhileD)
  consider "p = ?d" | "?d = CHR ''}'' # p"
    using assms cur
    by (auto simp: lexUnicodeEscape_def Let_def simp del: dropWhile_eq_Nil_conv
        split: list.splits if_splits)
  then show ?thesis
  proof cases
    case 1
    with cur hex show ?thesis by (intro exI [of _ "CHR ''{'' # ?t"]) auto
  next
    case 2
    then have "r = ?t @ CHR ''}'' # p" by (metis takeWhile_dropWhile_id)
    with cur hex show ?thesis by (intro exI [of _ "CHR ''{'' # ?t @ ''}''"]) auto
  qed
qed

text \<open>The bytes an escape takes, and the rest of the literal after it.\<close>

lemma lexEscape_body:
  assumes "lexEscape e esc cur = EscapeNext p es" "q = ch_dquote \<or> q = ch_squote"
    "p = s @ q # r" "quoted_body q s"
  shows "\<exists>s'. ch_backslash # cur = s' @ q # r \<and> quoted_body q s'"
proof -
  obtain n u where u: "cur = n # u @ p" "\<forall>c\<in>set u. isxdigit c \<or> c = CHR ''{'' \<or> c = CHR ''}''"
  proof (cases "fst (lexUnicodeEscape e esc cur)")
    case True
    then obtain es' where "lexUnicodeEscape e esc cur = (True, p, es')"
      using assms(1) unfolding lexEscape_def
      by (auto split: if_splits prod.splits bool.splits list.splits)
    from lexUnicodeEscape_body [OF this] that show thesis by blast
  next
    case False
    then have "cur = hd cur # [] @ p"
      using assms(1) unfolding lexEscape_def lexUnicodeEscape_def
      by (auto simp: Let_def simp del: dropWhile_eq_Nil_conv
          split: if_splits prod.splits bool.splits list.splits)
    with that [of "hd cur" "[]"] show thesis by simp
  qed
  with assms(3,4) quoted_body_hex [OF u(2) assms(2), of s] show ?thesis
    by (intro exI [of _ "ch_backslash # n # u @ s"]) simp
qed

lemma lexStringLoop_shape:
  "lexStringLoop e cur = (t, p, es) \<Longrightarrow>
     scanned e cur p es \<and> (t \<longrightarrow> (\<exists>s. cur = s @ ch_dquote # p \<and> quoted_body ch_dquote s))"
proof (induction e cur arbitrary: t p es rule: lexStringLoop.induct)
  case (1 e)
  then show ?case by simp
next
  case (2 e c cur)
  show ?case
  proof (cases "c = ch_backslash")
    case True
    show ?thesis
    proof (cases "lexEscape e (c # cur) cur")
      case (EscapeStop q es')
      with True 2(3) scanned_stop show ?thesis by auto
    next
      case (EscapeNext q es')
      obtain r es'' where r: "lexStringLoop e q = (t, r, es'')" "p = r" "es = es' @ es''"
        using 2(3) True EscapeNext by (auto split: prod.splits)
      note IH = 2(1) [OF True EscapeNext r(1)]
      show ?thesis
        using IH scanned_next [OF EscapeNext] r lexEscape_body [OF EscapeNext] True by auto
    qed
  next
    case False
    then show ?thesis
      using 2(2) [of t p es] 2(3)
      by (auto split: if_splits intro: scanned_Cons suffix_ConsI exI [of _ "[]"])
        (metis append_Cons quoted_body.simps(2))?
  qed
qed

lemma lexCharLoop_shape:
  "lexCharLoop e n cur = (t, m, p, es) \<Longrightarrow>
     scanned e cur p es \<and> (t \<longrightarrow> (\<exists>s. cur = s @ ch_squote # p \<and> quoted_body ch_squote s))"
proof (induction e n cur arbitrary: t m p es rule: lexCharLoop.induct)
  case (1 e n)
  then show ?case by simp
next
  case (2 e n c cur)
  show ?case
  proof (cases "c = ch_backslash")
    case True
    show ?thesis
    proof (cases "lexEscape e (c # cur) cur")
      case (EscapeStop q es')
      with True 2(3) scanned_stop show ?thesis by auto
    next
      case (EscapeNext q es')
      obtain r es'' where r: "lexCharLoop e (Suc n) q = (t, m, r, es'')" "p = r" "es = es' @ es''"
        using 2(3) True EscapeNext by (auto split: prod.splits)
      note IH = 2(1) [OF True EscapeNext r(1)]
      show ?thesis
        using IH scanned_next [OF EscapeNext] r lexEscape_body [OF EscapeNext] True by auto
    qed
  next
    case False
    then show ?thesis
      using 2(2) [of t m p es] 2(3)
      by (auto split: if_splits intro: scanned_Cons suffix_ConsI exI [of _ "[]"])
        (metis append_Cons quoted_body.simps(2))?
  qed
qed


text \<open>A literal is read without an error just when it is legal.\<close>

lemma isContinuationByte_iff: "isContinuationByte c \<longleftrightarrow> 0x80 \<le> byte c \<and> byte c < 0xC0"
proof -
  have "\<forall>n\<in>set [0..<256]. ((of_nat n :: 8 word) AND 0xC0 = 0x80) = (0x80 \<le> n \<and> n < 0xC0)"
    by code_simp
  moreover have "byte c \<in> set [0..<256]"
    by (simp add: byte_def)
  ultimately show ?thesis by (simp only: isContinuationByte_def)
qed

lemma legal_escape_iff:
  "legal_escape (ch_backslash # u) \<longleftrightarrow> (\<exists>c. u = [c] \<and> isSimpleEscape c)
     \<or> (\<exists>hs. u = ''u{'' @ hs @ ''}'' \<and> hs \<noteq> [] \<and> (\<forall>c\<in>set hs. isHexDigit c))"
  by (auto simp: legal_escape_def isSimpleEscape_def isHexDigit_def)

lemma not_hex_brace: "\<not> isHexDigit CHR ''}''"
  by (simp add: isHexDigit_def isxdigit_def isdigit_def byte_def)

lemma lexEscape_legal:
  assumes "lexEscape e esc cur = EscapeNext p []"
  shows "\<exists>u. cur = u @ p \<and> legal_escape (ch_backslash # u)"
proof (cases "fst (lexUnicodeEscape e esc cur)")
  case True
  then have u: "lexUnicodeEscape e esc cur = (True, p, [])"
    using assms unfolding lexEscape_def by (auto split: if_splits prod.splits bool.splits list.splits)
  then obtain r where cur: "cur = CHR ''u'' # CHR ''{'' # r"
    unfolding lexUnicodeEscape_def by (cases cur; cases "tl cur") (auto split: if_splits)
  with u have d: "dropWhile isHexDigit r = CHR ''}'' # p" "length (dropWhile isHexDigit r) < length r"
    by (auto simp: lexUnicodeEscape_def Let_def simp del: dropWhile_eq_Nil_conv split: list.splits if_splits)
  let ?hs = "takeWhile isHexDigit r"
  have r: "r = ?hs @ CHR ''}'' # p" using d(1) by (metis takeWhile_dropWhile_id)
  have "legal_escape (ch_backslash # ''u{'' @ ?hs @ ''}'')"
    unfolding legal_escape_iff using d r by (auto dest: set_takeWhileD)
  then show ?thesis using cur r by (intro exI [of _ "''u{'' @ ?hs @ ''}''"]) auto
next
  case False
  then obtain c where "cur = c # p" "isSimpleEscape c"
    using assms unfolding lexEscape_def lexUnicodeEscape_def
    by (auto simp: Let_def simp del: dropWhile_eq_Nil_conv split: if_splits prod.splits bool.splits list.splits)
  then show ?thesis by (intro exI [of _ "[c]"]) (auto simp: legal_escape_iff)
qed

lemma lexEscape_read:
  assumes "legal_escape (ch_backslash # u)"
  shows "lexEscape e esc (u @ r) = EscapeNext r []"
  using assms unfolding legal_escape_iff
proof (elim disjE exE conjE)
  fix c assume "u = [c]" "isSimpleEscape c"
  moreover from this have "c \<noteq> CHR ''u''" by (auto simp: isSimpleEscape_def)
  ultimately show ?thesis by (simp add: lexEscape_def lexUnicodeEscape_def)
next
  fix hs assume "u = ''u{'' @ hs @ ''}''" "hs \<noteq> []" "\<forall>c\<in>set hs. isHexDigit c"
  moreover from this have "dropWhile isHexDigit (hs @ CHR ''}'' # r) = CHR ''}'' # r"
    using not_hex_brace by simp
  ultimately show ?thesis by (simp add: lexEscape_def lexUnicodeEscape_def)
qed

lemma legal_piece_cases:
  assumes "legal_piece q p"
  obtains (escape) u where "p = ch_backslash # u" "legal_escape (ch_backslash # u)" "\<not> continues p"
  | (byte) c where "p = [c]" "c \<notin> {ch_backslash, q, ch_lf, ch_cr}" "continues p \<longleftrightarrow> isContinuationByte c"
  using assms unfolding legal_piece_def
proof (elim disjE exE conjE)
  assume "legal_escape p"
  moreover from this obtain u where "p = ch_backslash # u" "u \<noteq> []" by (auto simp: legal_escape_def)
  ultimately show thesis using escape by (simp add: continues_def)
next
  fix c assume "p = [c]" "c \<notin> {ch_backslash, q, ch_lf, ch_cr}"
  then show thesis using byte by (simp add: continues_def isContinuationByte_iff)
qed

lemma legal_pieceI:
  "legal_escape (ch_backslash # u) \<Longrightarrow> legal_piece q (ch_backslash # u) \<and> \<not> continues (ch_backslash # u)"
  "c \<notin> {ch_backslash, q, ch_lf, ch_cr} \<Longrightarrow> legal_piece q [c] \<and> (continues [c] \<longleftrightarrow> isContinuationByte c)"
  by (auto simp: legal_piece_def continues_def isContinuationByte_iff legal_escape_def)

lemma lexStringLoop_legal:
  "lexStringLoop e cur = (True, p, []) \<Longrightarrow>
     \<exists>ps. cur = concat ps @ ch_dquote # p \<and> (\<forall>x\<in>set ps. legal_piece ch_dquote x)"
proof (induction e cur arbitrary: p rule: lexStringLoop.induct)
  case (2 e c cur)
  have step: ?case if "c # cur = x @ q" "legal_piece ch_dquote x"
    "\<exists>ps. q = concat ps @ ch_dquote # p \<and> (\<forall>x\<in>set ps. legal_piece ch_dquote x)" for x q
  proof -
    from that(3) obtain ps where "q = concat ps @ ch_dquote # p" "\<forall>x\<in>set ps. legal_piece ch_dquote x" by blast
    with that(1,2) show ?thesis by (intro exI [of _ "x # ps"]) simp
  qed
  show ?case
  proof (cases "c = ch_backslash")
    case True
    with 2(3) obtain q es es' where q: "lexEscape e (c # cur) cur = EscapeNext q es"
      "lexStringLoop e q = (True, p, es')" "es @ es' = []"
      by (auto split: escape.splits prod.splits)
    from lexEscape_legal [of e "c # cur" cur q] q obtain u where "cur = u @ q" "legal_escape (ch_backslash # u)" by auto
    with True q 2(1) [OF True q(1)] legal_pieceI(1) show ?thesis by (intro step [of "c # u" q]) auto
  next
    case no: False
    show ?thesis
    proof (cases "c = ch_dquote")
      case True
      with no 2(3) show ?thesis by (intro exI [of _ "[]"]) simp
    next
      case False
      with no 2(2,3) legal_pieceI(2) [of c ch_dquote] show ?thesis
        by (intro step [of "[c]" cur]) (auto split: if_splits)
    qed
  qed
qed simp

lemma lexCharLoop_legal:
  "lexCharLoop e n cur = (True, m, p, []) \<Longrightarrow>
     \<exists>ps. cur = concat ps @ ch_squote # p \<and> (\<forall>x\<in>set ps. legal_piece ch_squote x)
       \<and> m = n + length (filter (\<lambda>p. \<not> continues p) ps)"
proof (induction e n cur arbitrary: m p rule: lexCharLoop.induct)
  case (2 e n c cur)
  have step: ?case if "c # cur = x @ q" "legal_piece ch_squote x"
    "\<exists>ps. q = concat ps @ ch_squote # p \<and> (\<forall>x\<in>set ps. legal_piece ch_squote x)
       \<and> m = (if continues x then n else Suc n) + length (filter (\<lambda>p. \<not> continues p) ps)" for x q
  proof -
    from that(3) obtain ps where "q = concat ps @ ch_squote # p" "\<forall>x\<in>set ps. legal_piece ch_squote x"
      "m = (if continues x then n else Suc n) + length (filter (\<lambda>p. \<not> continues p) ps)" by blast
    with that(1,2) show ?thesis by (intro exI [of _ "x # ps"]) simp
  qed
  show ?case
  proof (cases "c = ch_backslash")
    case True
    with 2(3) obtain q es es' where q: "lexEscape e (c # cur) cur = EscapeNext q es"
      "lexCharLoop e (Suc n) q = (True, m, p, es')" "es @ es' = []"
      by (auto split: escape.splits prod.splits)
    from lexEscape_legal [of e "c # cur" cur q] q obtain u where "cur = u @ q" "legal_escape (ch_backslash # u)" by auto
    with True q 2(1) [OF True q(1)] legal_pieceI(1) show ?thesis by (intro step [of "c # u" q]) auto
  next
    case no: False
    show ?thesis
    proof (cases "c = ch_squote")
      case True
      with no 2(3) show ?thesis by (intro exI [of _ "[]"]) simp
    next
      case False
      with no 2(2) [of m p] 2(3) legal_pieceI(2) [of c ch_squote] show ?thesis
        by (intro step [of "[c]" cur]) (auto split: if_splits)
    qed
  qed
qed simp

lemma lexStringLoop_read:
  "\<forall>x\<in>set ps. legal_piece ch_dquote x \<Longrightarrow> lexStringLoop e (concat ps @ ch_dquote # r) = (True, r, [])"
proof (induction ps)
  case (Cons x ps)
  then have "legal_piece ch_dquote x" by simp
  then show ?case
    by (cases rule: legal_piece_cases) (use Cons lexEscape_read in auto)
qed simp

lemma lexCharLoop_read:
  "\<forall>x\<in>set ps. legal_piece ch_squote x \<Longrightarrow>
     lexCharLoop e n (concat ps @ ch_squote # r) = (True, n + length (filter (\<lambda>p. \<not> continues p) ps), r, [])"
proof (induction ps arbitrary: n)
  case (Cons x ps)
  then have "legal_piece ch_squote x" by simp
  then show ?case
    by (cases rule: legal_piece_cases) (use Cons lexEscape_read in auto)
qed simp

text \<open>Numbers.\<close>

lemma no_double_underscore_Cons [simp]:
  "c \<noteq> CHR ''_'' \<Longrightarrow> no_double_underscore (c # s) = no_double_underscore s"
  by (cases s) auto

lemma digit_not_underscore: "isdigit c \<Longrightarrow> c \<noteq> CHR ''_''" "isxdigit c \<Longrightarrow> c \<noteq> CHR ''_''"
  by (auto simp: isdigit_def isxdigit_def byte_def)

lemma lexIntegerPart_shape:
  "lexIntegerPart h n u cur = (True, m, p) \<Longrightarrow>
     \<exists>ds. cur = ds @ p \<and> (\<forall>c\<in>set ds. (if h then isxdigit c else isdigit c) \<or> c = CHR ''_'')
       \<and> no_double_underscore (if u then CHR ''_'' # ds else ds)
       \<and> (h \<longrightarrow> n < m \<longrightarrow> (\<exists>c\<in>set ds. isxdigit c)) \<and> n \<le> m"
proof (induction h n u cur rule: lexIntegerPart.induct)
  case (1 h n u)
  then show ?case by simp
next
  case (2 h n u c cur)
  let ?digit = "if h then isxdigit c else isdigit c"
  let ?n = "if h then Suc n else n"
  have step: "\<exists>ds. c # cur = ds @ p \<and> (\<forall>c\<in>set ds. (if h then isxdigit c else isdigit c) \<or> c = CHR ''_'')
       \<and> no_double_underscore (if u then CHR ''_'' # ds else ds)
       \<and> (h \<longrightarrow> n < m \<longrightarrow> (\<exists>c\<in>set ds. isxdigit c)) \<and> n \<le> m"
    if "cur = ds @ p" "\<forall>c\<in>set ds. (if h then isxdigit c else isdigit c) \<or> c = CHR ''_''"
      "no_double_underscore (if u then CHR ''_'' # c # ds else c # ds)"
      "?digit \<or> c = CHR ''_''" "\<not> ?digit \<longrightarrow> h \<longrightarrow> n < m \<longrightarrow> (\<exists>c\<in>set ds. isxdigit c)" "n \<le> m" for ds
    using that by (intro exI [of _ "c # ds"]) (auto split: if_splits)
  show ?case
  proof (cases ?digit)
    case True
    with 2(4) have "lexIntegerPart h ?n False cur = (True, m, p)"
      by (auto simp: isHexDigit_def split: if_splits)
    then obtain ds where "cur = ds @ p" "\<forall>c\<in>set ds. (if h then isxdigit c else isdigit c) \<or> c = CHR ''_''"
      "no_double_underscore ds" "n \<le> m"
      using 2(1,2) True by (cases h) (auto simp: isHexDigit_def)
    with True digit_not_underscore [of c] show ?thesis
      by (intro step [of ds]) (auto split: if_splits)
  next
    case False
    show ?thesis
    proof (cases "c = CHR ''_'' \<and> \<not> u")
      case True
      with False 2(3) 2(4) obtain ds where "cur = ds @ p"
        "\<forall>c\<in>set ds. (if h then isxdigit c else isdigit c) \<or> c = CHR ''_''"
        "no_double_underscore (c # ds)" "h \<longrightarrow> n < m \<longrightarrow> (\<exists>c\<in>set ds. isxdigit c)" "n \<le> m"
        by (auto simp: isHexDigit_def split: if_splits)
      with True show ?thesis by (intro step [of ds]) auto
    next
      case no: False
      with False 2(4) have "c # cur = p" "n = m" by (auto simp: isHexDigit_def split: if_splits)
      then show ?thesis by (intro exI [of _ "[]"]) auto
    qed
  qed
qed

lemma lexIntegerPart_Cons:
  assumes "D = (if h then isxdigit else isdigit)"
  shows "lexIntegerPart h n u (c # cur) =
    (if D c then lexIntegerPart h (if h then Suc n else n) False cur
     else if c = CHR ''_'' then if u then (False, n, c # cur) else lexIntegerPart h n True cur
     else (True, n, c # cur))"
  using assms by (cases h) (simp_all add: isHexDigit_def)

lemma lexIntegerPart_broken:
  assumes D: "D = (if h then isxdigit else isdigit)"
  shows "lexIntegerPart h n u cur = (False, m, p) \<Longrightarrow>
     \<exists>ds. cur = ds @ p \<and> (\<forall>c\<in>set ds. D c \<or> c = CHR ''_'')
       \<and> (if ds = [] then u else last ds = CHR ''_'') \<and> p \<noteq> [] \<and> hd p = CHR ''_''"
proof (induction cur arbitrary: n u)
  case (Cons c cur)
  have step: ?case if "D c \<or> c = CHR ''_''" "v \<longrightarrow> c = CHR ''_''" "lexIntegerPart h k v cur = (False, m, p)" for k v
  proof -
    from Cons.IH [OF that(3)] obtain ds where "cur = ds @ p" "\<forall>c\<in>set ds. D c \<or> c = CHR ''_''"
      "if ds = [] then v else last ds = CHR ''_''" "p \<noteq> []" "hd p = CHR ''_''" by blast
    with that(1,2) show ?thesis by (intro exI [of _ "c # ds"]) (simp split: if_splits)
  qed
  note run = Cons.prems [unfolded lexIntegerPart_Cons [OF D]]
  consider (digit) "D c" | (under) "\<not> D c" "c = CHR ''_''" "\<not> u" | (stop) "\<not> D c" "c = CHR ''_'' \<longrightarrow> u" by blast
  then show ?case
  proof cases
    case digit
    with run show ?thesis by (intro step [of False]) simp_all
  next
    case under
    with run show ?thesis by (intro step [of True]) simp_all
  next
    case stop
    with run have "c = CHR ''_''" "u" "c # cur = p" by (simp_all split: if_splits)
    then show ?thesis by (intro exI [of _ "[]"]) auto
  qed
qed simp

lemma skipFloatSuffix_shape: "p = skipFloatSuffix p \<or> p = CHR ''f'' # skipFloatSuffix p"
  by (cases p) (auto simp: skipFloatSuffix_def)

lemma float_lexeme_hd: "float_lexeme s \<Longrightarrow> s \<noteq> [] \<and> isdigit (hd s)"
  unfolding float_lexeme_def by (elim exE conjE) (simp add: hd_append)

lemma float_lexemeI:
  assumes "isdigit c" "\<forall>c\<in>set ds. isdigit c \<or> c = CHR ''_''" "no_double_underscore ds"
  shows "float_lexeme ((c # ds) @ ''f'')"
    and "\<lbrakk>isdigit d; \<forall>c\<in>set fr. isdigit c \<or> c = CHR ''_''; f = [] \<or> f = ''f''\<rbrakk>
      \<Longrightarrow> float_lexeme ((c # ds) @ CHR ''.'' # d # fr @ f)"
proof -
  have nd: "no_double_underscore (c # ds)"
    using assms(3) digit_not_underscore(1) [OF assms(1)] by simp
  show "float_lexeme ((c # ds) @ ''f'')"
    unfolding float_lexeme_def using assms nd
    by (intro exI [of _ "c # ds"] exI [of _ "''f''"]) simp
  assume "isdigit d" "\<forall>c\<in>set fr. isdigit c \<or> c = CHR ''_''" "f = [] \<or> f = ''f''"
  then show "float_lexeme ((c # ds) @ CHR ''.'' # d # fr @ f)"
    unfolding float_lexeme_def using assms nd
    by - (rule exI [of _ "c # ds"], rule exI [of _ "CHR ''.'' # d # fr @ f"],
      simp del: append_Cons, blast)
qed

lemma lexNumericLiteral_shape:
  assumes "isdigit C" "lexNumericLiteral e (C # cur) cur = (v, t, p)"
  shows "if v then TokenSpan t = makeTokenSpan e (C # cur) p
           \<and> lexeme (TokenKind t) (tokenText (C # cur) p)
         else TokenSpan t = makeTokenSpan e (C # cur) p
           \<or> TokenSpan t = Span 0 0 \<and> broken_number (tokenText (C # cur) p) \<and> p \<noteq> [] \<and> hd p = CHR ''_''"
proof -
  let ?tok = "C # cur"
  define h where "h \<longleftrightarrow> C = CHR ''0'' \<and> cur \<noteq> [] \<and> (hd cur = CHR ''x'' \<or> hd cur = CHR ''X'')"
  define start where "start = (if h then tl cur else cur)"
  obtain ok n mid where mid: "lexIntegerPart h 0 False start = (ok, n, mid)"
    by (metis prod_cases3)
  note body = assms(2) [unfolded lexNumericLiteral_def Let_def list.sel h_def [symmetric]
      start_def [symmetric] mid prod.case]
  show ?thesis
  proof (cases ok)
    case False
    with lexIntegerPart_broken [of "if h then isxdigit else isdigit" h 0 False start n mid] mid
    obtain ds where ds: "start = ds @ mid" "\<forall>c\<in>set ds. (if h then isxdigit c else isdigit c) \<or> c = CHR ''_''"
      "ds \<noteq> [] \<and> last ds = CHR ''_''" "mid \<noteq> []" "hd mid = CHR ''_''" by (force split: if_splits)
    have "?tok = (if h then CHR ''0'' # hd cur # ds else C # ds) @ mid"
      using ds(1) by (cases cur) (auto simp: start_def h_def)
    then have tx: "tokenText ?tok mid = (if h then CHR ''0'' # hd cur # ds else C # ds)"
      by (metis tokenText_append)
    have "broken_number (tokenText ?tok mid)"
      using ds(2,3) assms(1) unfolding tx broken_number_def by (auto simp: h_def)
    with False body ds(4,5) show ?thesis by auto
  next
    case True
    with lexIntegerPart_shape [of h 0 False start n mid] mid
    obtain ds where ds: "start = ds @ mid"
      "\<forall>c\<in>set ds. (if h then isxdigit c else isdigit c) \<or> c = CHR ''_''"
      "no_double_underscore ds" "h \<longrightarrow> 0 < n \<longrightarrow> (\<exists>c\<in>set ds. isxdigit c)"
      by auto
    have dec: "?tok = (C # ds) @ mid" if "\<not> h" using that ds start_def by simp
    have hex: "?tok = (CHR ''0'' # hd cur # ds) @ mid" if h
      using that ds(1) start_def h_def by (cases cur) auto
    consider (frac) d r where "\<not> h" "mid = CHR ''.'' # d # r" "isdigit d"
      | (suffix) r where "\<not> h" "mid = CHR ''f'' # r"
      | (int) "\<not> (\<not> h \<and> mid \<noteq> [] \<and> hd mid = CHR ''.'' \<and> tl mid \<noteq> [] \<and> isdigit (hd (tl mid)))"
        "\<not> (\<not> h \<and> mid \<noteq> [] \<and> hd mid = CHR ''f'')"
      by (metis list.collapse)
    then show ?thesis
    proof cases
      case frac
      define fr where "fr = takeWhile (\<lambda>c. isdigit c \<or> c = CHR ''_'') r"
      define q where "q = dropWhile (\<lambda>c. isdigit c \<or> c = CHR ''_'') r"
      have t: "t = Token tk_float_literal (makeTokenSpan e ?tok (skipFloatSuffix q))"
        "v" "p = skipFloatSuffix q"
        using body True frac by (auto simp: q_def)
      obtain f where f: "q = f @ p" "f = [] \<or> f = ''f''"
        using skipFloatSuffix_shape [of q] t(3) by (metis append_Cons append_Nil)
      have "?tok = ((C # ds) @ CHR ''.'' # d # fr @ f) @ p"
        using dec frac f(1) takeWhile_dropWhile_id [of "\<lambda>c. isdigit c \<or> c = CHR ''_''" r]
        by (simp add: fr_def q_def)
      then have tx: "tokenText ?tok p = (C # ds) @ CHR ''.'' # d # fr @ f"
        by (metis tokenText_append)
      have "\<forall>c\<in>set fr. isdigit c \<or> c = CHR ''_''"
        by (auto simp: fr_def dest: set_takeWhileD)
      then have "float_lexeme ((C # ds) @ CHR ''.'' # d # fr @ f)"
        using float_lexemeI(2) [OF assms(1) _ ds(3) frac(3) _ f(2), of fr] ds(2) frac(1) by simp
      with t tx show ?thesis by simp
    next
      case suffix
      have t: "t = Token tk_float_literal (makeTokenSpan e ?tok r)" "v" "p = r"
        using body True suffix by auto
      have "?tok = ((C # ds) @ ''f'') @ p"
        using dec suffix t(3) by simp
      then have tx: "tokenText ?tok p = (C # ds) @ ''f''"
        by (metis tokenText_append)
      have "float_lexeme ((C # ds) @ ''f'')"
        using float_lexemeI(1) [OF assms(1) _ ds(3)] ds(2) suffix(1) by simp
      with t tx show ?thesis by simp
    next
      case int
      have t: "t = Token tk_integer_literal (makeTokenSpan e ?tok p)" "p = mid"
        "v \<longrightarrow> \<not> (h \<and> n = 0) \<and> \<not> (length mid < length ?tok \<and> last (tokenText ?tok mid) = CHR ''_'')"
        using body True int by (auto split: if_splits)
      show ?thesis
      proof (cases h)
        case True
        note tx = arg_cong [OF hex [OF True], of "\<lambda>x. tokenText x mid", unfolded tokenText_append]
        have "v \<longrightarrow> digits_of isxdigit ds"
        proof
          assume v
          with t True ds(4) have "\<exists>c\<in>set ds. isxdigit c" by auto
          moreover from this have "ds \<noteq> []" by auto
          moreover have "length mid < length ?tok" using hex [OF True] by (metis length_append
                length_Cons less_add_same_cancel2 zero_less_Suc)
          ultimately show "digits_of isxdigit ds"
            using t(3) \<open>v\<close> tx ds True by (auto simp: digits_of_def)
        qed
        with t tx True show ?thesis by (auto simp: integer_lexeme_def h_def)
      next
        case False
        note tx = arg_cong [OF dec [OF False], of "\<lambda>x. tokenText x mid", unfolded tokenText_append]
        have "v \<longrightarrow> digits_of isdigit (C # ds)"
          using t(3) tx ds False assms(1) dec [OF False] digit_not_underscore
          by (auto simp: digits_of_def split: if_splits)
        with t tx assms(1) show ?thesis by (auto simp: integer_lexeme_def)
      qed
    qed
  qed
qed


text \<open>Comments.\<close>

lemma line_free_simps [simp]:
  "line_free []"
  "line_free (c # s) \<longleftrightarrow> c \<noteq> ch_lf \<and> c \<noteq> ch_cr \<and> line_free s"
  "line_free (s @ t) \<longleftrightarrow> line_free s \<and> line_free t"
  by (auto simp: line_free_def)

lemma line_free_takeWhile [simp]:
  "line_free (takeWhile (\<lambda>c. c \<noteq> ch_lf \<and> c \<noteq> ch_cr) s)"
  by (auto simp: line_free_def dest: set_takeWhileD)

lemma lexBlockComment_closes:
  "lexBlockComment (Suc d) s = (0, p) \<Longrightarrow> \<exists>r. s = r @ p \<and> closes (Suc d) r"
proof (induction "Suc d" s arbitrary: d p rule: lexBlockComment.induct)
  case (3 C N Rest)
  have step: ?case if "lexBlockComment d' q = (0, p)" "C # N # Rest = u @ q"
    "\<And>r. closes d' r \<Longrightarrow> closes (Suc d) (u @ r)"
    "\<And>d''. d' = Suc d'' \<Longrightarrow> \<exists>r. q = r @ p \<and> closes (Suc d'') r" for d' q u
  proof -
    have "\<exists>r. q = r @ p \<and> closes d' r"
      using that(1,4) by (cases d'; cases q; cases "tl q") auto
    with that(2,3) show ?thesis by (metis append_assoc)
  qed
  consider (opens) "C = CHR ''/''" "N = CHR ''*''" | (closes) "C = CHR ''*''" "N = CHR ''/''"
    | (other) "\<not> (C = CHR ''/'' \<and> N = CHR ''*'')" "\<not> (C = CHR ''*'' \<and> N = CHR ''/'')" by blast
  then show ?case
  proof cases
    case opens
    show ?thesis by (rule step [of "Suc (Suc d)" Rest "[C, N]"]) (use opens 3 in auto)
  next
    case closes
    show ?thesis by (rule step [of d Rest "[C, N]"]) (use closes 3 in auto)
  next
    case other
    from other 3(4) have n: "lexBlockComment (Suc d) (N # Rest) = (0, p)" by auto
    from 3(3) [OF _ other n] obtain r where r: "N # Rest = r @ p" "closes (Suc d) r" by auto
    with other show ?thesis by (intro exI [of _ "C # r"]) (cases r, auto)
  qed
qed auto

lemma lexBlockComment_0 [simp]: "lexBlockComment 0 s = (0, s)"
  by (cases s; cases "tl s") auto

lemma lexBlockComment_read: "closes d r \<Longrightarrow> lexBlockComment d (r @ p) = (0, p)"
  by (induction d r rule: closes.induct) (auto split: if_splits)

lemma lexBlockComment_legal:
  "lexBlockComment 1 s = (d, p) \<Longrightarrow> s = r @ p \<Longrightarrow> closes 1 r \<longleftrightarrow> d = 0"
  using lexBlockComment_closes [of 0 s p] lexBlockComment_read [of 1 r p] by auto

lemma comment_lexemeI:
  "line_free s \<Longrightarrow> s = [] \<or> hd s \<noteq> CHR ''!'' \<and> hd s \<noteq> CHR ''/'' \<Longrightarrow> comment_lexeme (''//'' @ s)"
  "line_free s \<Longrightarrow> comment_lexeme (''////'' @ s)"
  "comment_lexeme (''/*'' @ s) \<longleftrightarrow> closes 1 s"
  by (cases s; simp add: comment_lexeme_def doc_comment_lexeme_def file_doc_comment_lexeme_def)+

lemma doc_lexemeI:
  "line_free s \<Longrightarrow> s = [] \<or> hd s \<noteq> CHR ''/'' \<Longrightarrow> doc_comment_lexeme (''///'' @ s)"
  "line_free s \<Longrightarrow> file_doc_comment_lexeme (''//!'' @ s)"
  by (simp_all add: doc_comment_lexeme_def file_doc_comment_lexeme_def)

lemma lexComment_shape:
  assumes "lexComment e (CHR ''/'' # cur) cur = Some (t, p, es)"
  shows "TokenSpan t = makeTokenSpan e (CHR ''/'' # cur) p
    \<and> shape (TokenKind t) (tokenText (CHR ''/'' # cur) p)
    \<and> (lexeme (TokenKind t) (tokenText (CHR ''/'' # cur) p) \<longleftrightarrow> es = [])
    \<and> (es = [] \<or> es = [lexerError e UnterminatedBlockComment (CHR ''/'' # cur) p])
    \<and> length p + 1 \<le> length cur"
proof -
  from assms obtain c r where cur: "cur = c # r" "c = CHR ''*'' \<or> c = CHR ''/''"
    by (cases cur) (auto simp: lexComment_def Let_def split: if_splits)
  show ?thesis
  proof (cases "c = CHR ''*''")
    case True
    obtain d q where q: "lexBlockComment 1 r = (d, q)" by (metis prod.exhaust)
    then obtain s where s: "r = s @ q" using lexBlockComment_suffix [OF q] by (auto simp: suffix_def)
    have "tokenText (CHR ''/'' # cur) q = ''/*'' @ s"
      using tokenText_append [of "''/*'' @ s" q] cur True s by simp
    moreover have "closes 1 s \<longleftrightarrow> d = 0" using lexBlockComment_legal [OF q s] .
    ultimately show ?thesis
      using assms cur True q s comment_lexemeI(3) [of s]
      by (auto simp: lexComment_def shape_def split: if_splits)
  next
    case False
    with cur have cur': "cur = CHR ''/'' # r" by simp
    define sl where "sl = takeWhile (\<lambda>c. c = CHR ''/'') r"
    define cu where "cu = dropWhile (\<lambda>c. c = CHR ''/'') r"
    define isf where "isf \<longleftrightarrow> 2 + length sl = 2 \<and> cu \<noteq> [] \<and> hd cu = CHR ''!''"
    define body where "body = (if isf then tl cu else cu)"
    define line where "line = takeWhile (\<lambda>c. c \<noteq> ch_lf \<and> c \<noteq> ch_cr) body"
    have *: "p = dropWhile (\<lambda>c. c \<noteq> ch_lf \<and> c \<noteq> ch_cr) body" "es = []"
      "t = Token (if 2 + length sl = 3 then tk_doc_comment
                  else if isf then tk_file_doc_comment else tk_comment)
            (makeTokenSpan e (CHR ''/'' # cur) p)"
      using assms unfolding lexComment_def Let_def body_def isf_def cu_def sl_def cur' list.sel
      by (auto split del: if_split)
    have r: "r = sl @ cu" by (simp add: sl_def cu_def)
    have body': "body = line @ p" using * by (simp add: line_def)
    have cu: "cu = (if isf then [CHR ''!''] else []) @ body"
      by (cases cu) (auto simp: body_def isf_def)
    have tx: "tokenText (CHR ''/'' # cur) p
        = ''//'' @ sl @ (if isf then [CHR ''!''] else []) @ line" (is "_ = ?s")
      using tokenText_append [of ?s p] cur False r cu body' by simp
    have len: "length p + 1 \<le> length cur"
      using r cu body' cur' by simp
    have sl: "\<forall>c\<in>set sl. c = CHR ''/''"
      by (auto simp: sl_def dest: set_takeWhileD)
    have line: "line_free line" by (simp add: line_def)
    have sl_line: "line_free sl" using sl by (auto simp: line_free_def)
    have hd_cu: "cu = [] \<or> hd cu \<noteq> CHR ''/''"
      using hd_dropWhile [of "\<lambda>c. c = CHR ''/''" r] by (auto simp: cu_def)
    have hd_line: "line = [] \<or> body \<noteq> [] \<and> hd line = hd body"
      using body' by (cases line) auto
    show ?thesis
    proof (cases sl)
      case Nil
      show ?thesis
      proof (cases isf)
        case True
        then show ?thesis
          using Nil *(2,3) tx len doc_lexemeI(2) [OF line] by simp
      next
        case no: False
        have "cu = [] \<or> (hd cu \<noteq> CHR ''!'' \<and> hd cu \<noteq> CHR ''/'')"
          using no hd_cu Nil by (auto simp: isf_def)
        then have "line = [] \<or> (hd line \<noteq> CHR ''!'' \<and> hd line \<noteq> CHR ''/'')"
          using hd_line no by (auto simp: body_def)
        then have "comment_lexeme (''//'' @ line)"
          using line by (rule comment_lexemeI(1) [rotated])
        then show ?thesis using Nil no *(2,3) tx len by simp
      qed
    next
      case (Cons a sl')
      then have nf: "\<not> isf" and a: "a = CHR ''/''" using sl by (auto simp: isf_def)
      show ?thesis
      proof (cases sl')
        case Nil
        have "line = [] \<or> hd line \<noteq> CHR ''/''"
          using hd_line hd_cu nf by (auto simp: body_def)
        then have "doc_comment_lexeme (''///'' @ line)"
          using line by (rule doc_lexemeI(1) [rotated])
        then show ?thesis using Nil Cons a nf *(2,3) tx len by simp
      next
        case (Cons b sl'')
        then have "b = CHR ''/''" using sl \<open>sl = a # sl'\<close> by auto
        then have "comment_lexeme (''//'' @ sl @ line)"
          using comment_lexemeI(2) [of "sl'' @ line"] sl_line line \<open>sl = a # sl'\<close> Cons a by simp
        then show ?thesis using Cons \<open>sl = a # sl'\<close> nf *(2,3) tx len by auto
      qed
    qed
  qed
qed

text \<open>Symbols.\<close>

lemma at_iff: "at p c \<longleftrightarrow> (\<exists>q. p = c # q)"
  by (cases p) (auto simp: at_def)

lemma lexSymbol_shape:
  assumes "lexSymbol C cur = (k, p)"
  shows "if k = tk_unknown then p = cur
    else lexeme k (tokenText (C # cur) p) \<and> \<not> isIdentChar C"
proof -
  have tx: "tokenText (c # q) q = [c]" "tokenText (c # d # q) q = [c, d]"
    "tokenText (c # d # x # q) q = [c, d, x]" for c d x and q :: ptr
    by (simp_all add: tokenText_def)
  show ?thesis
    using assms unfolding lexSymbol_def at_iff
    by (auto split: if_splits simp: tx isIdentChar_def isalnum_def isalpha_def isdigit_def byte_def)
qed


text \<open>
  One iteration of the main loop appends the errors found inside a token and then one item
  that stands for the whole of it: a token whose text has the shape of its kind, and is a lexeme
  just when there are no errors in it, or an error, whose span is that of the token except that
  two underscores in a row report \<open>(0, 0)\<close>.
\<close>

definition whole_item :: "nat \<Rightarrow> ptr \<Rightarrow> ptr \<Rightarrow> lexer_item list \<Rightarrow> lexer_item \<Rightarrow> bool" where
  "whole_item e start stop es it \<longleftrightarrow> (case it of
     ItemToken t \<Rightarrow> TokenSpan t = makeTokenSpan e start stop
       \<and> shape (TokenKind t) (tokenText start stop)
       \<and> (lexeme (TokenKind t) (tokenText start stop) \<longleftrightarrow> es = [])
   | ItemError er \<Rightarrow> ErrorSpan er = makeTokenSpan e start stop
       \<or> er = LexerError InvalidNumericLiteral (Span 0 0)
         \<and> broken_number (tokenText start stop) \<and> stop \<noteq> [] \<and> hd stop = CHR ''_'')"

lemma lexIdentifier_shape:
  assumes "isalpha C \<or> C = CHR ''_''" "lexIdentifier e (C # cur) cur = (t, p)"
  shows "\<exists>s. C # cur = s @ p \<and> word_lexeme s \<and> (p = [] \<or> \<not> isIdentChar (hd p))
    \<and> t = Token (keywordKind s) (makeTokenSpan e (C # cur) p)"
proof -
  let ?s = "C # takeWhile isIdentChar cur"
  have p: "p = dropWhile isIdentChar cur" and t:
    "t = Token (keywordKind (tokenText (C # cur) p)) (makeTokenSpan e (C # cur) p)"
    using assms(2) by (auto simp: lexIdentifier_def Let_def)
  have s: "C # cur = ?s @ p" by (simp add: p)
  then have tx: "tokenText (C # cur) p = ?s" by (metis tokenText_append)
  have "word_lexeme ?s"
    using assms(1) by (auto simp: word_lexeme_def isIdentChar_def isalnum_def dest: set_takeWhileD)
  moreover have "p = [] \<or> \<not> isIdentChar (hd p)"
    using hd_dropWhile [of isIdentChar cur] p by auto
  ultimately show ?thesis using s t [unfolded tx] by (intro exI [of _ ?s]) simp
qed

text \<open>Reading the buffer through a span gives the bytes between the two pointers.\<close>

lemma slice_span:
  assumes "suffix start (take (e - s) (drop s B))" "suffix stop start" "s \<le> e" "e \<le> length B"
    "length B < 4294967296"
  shows "slice B (e - length start) (e - length stop) = tokenText start stop"
    and "unat (Start (makeTokenSpan e start stop)) = e - length start"
    and "unat (End (makeTokenSpan e start stop)) = e - length stop"
proof -
  let ?w = "take (e - s) (drop s B)"
  from assms obtain u v where w: "?w = u @ start" and start: "start = v @ stop"
    by (auto simp: suffix_def)
  have "length ?w = e - s" using assms by simp
  with w have l: "length u + length start = e - s" by simp
  with assms have st: "e - length start = s + length u" by linarith
  have "drop (e - length start) B = drop (length u) (drop s B)"
    by (simp add: st add.commute)
  also have "drop s B = ?w @ drop (e - s) (drop s B)"
    by (metis append_take_drop_id)
  finally have d: "drop (e - length start) B = start @ drop (e - s) (drop s B)"
    using w by simp
  have "e - length stop - (e - length start) = length v"
    using l start assms by simp
  with d start show "slice B (e - length start) (e - length stop) = tokenText start stop"
    by (simp add: slice_def)
  show "unat (Start (makeTokenSpan e start stop)) = e - length start"
    "unat (End (makeTokenSpan e start stop)) = e - length stop"
    using assms by (simp_all add: makeTokenSpan_def)
qed

definition window :: "string \<Rightarrow> nat \<Rightarrow> ptr \<Rightarrow> bool" where
  "window B e p \<longleftrightarrow> e \<le> length B \<and> length B < 4294967296
     \<and> (\<exists>s\<le>e. suffix p (take (e - s) (drop s B)))"

lemma window_suffix: "window B e p \<Longrightarrow> suffix q p \<Longrightarrow> window B e q"
  unfolding window_def by (meson suffix_order.trans)

lemma window_slice:
  assumes "window B e p" "suffix q p"
  shows "slice B (unat (Start (makeTokenSpan e p q))) (unat (End (makeTokenSpan e p q)))
    = tokenText p q"
  using assms slice_span unfolding window_def by metis

lemma window_unat:
  assumes "window B e p" "suffix q p"
  shows "unat (Start (makeTokenSpan e p q)) = e - length p"
    and "unat (End (makeTokenSpan e p q)) = e - length q"
    and "length p \<le> e"
proof -
  from assms obtain s where s: "e \<le> length B" "length B < 4294967296" "s \<le> e"
    "suffix p (take (e - s) (drop s B))" unfolding window_def by auto
  then show "unat (Start (makeTokenSpan e p q)) = e - length p"
    "unat (End (makeTokenSpan e p q)) = e - length q"
    using slice_span assms(2) by metis+
  from suffix_length_le [OF s(4)] s(1) show "length p \<le> e" by simp
qed

lemma lexToken_shape:
  assumes tok: "lexToken B e C cur = (is, p)" and w: "window B e (C # cur)"
  shows "\<exists>es it. is = es @ [it] \<and> scanned e (C # cur) p es \<and> length es + length p \<le> length cur
    \<and> whole_item e (C # cur) p es it"
proof -
  have suf: "suffix p cur" using tok by (rule lexToken_suffix)
  consider (comment) t es where "C = CHR ''/''" "lexComment e (C # cur) cur = Some (t, p, es)"
      "is = es @ [ItemToken t]"
    | (word) t where "isalpha C \<or> C = CHR ''_''" "lexIdentifier e (C # cur) cur = (t, p)"
      "is = (if isReservedKeyword (slice B (unat (Start (TokenSpan t))) (unat (End (TokenSpan t))))
             then [ItemError (LexerError ReservedKeyword (TokenSpan t))] else [ItemToken t])"
    | (number) v t where "isdigit C" "lexNumericLiteral e (C # cur) cur = (v, t, p)"
      "is = (if v then [ItemToken t] else [ItemError (LexerError InvalidNumericLiteral (TokenSpan t))])"
    | (string) v es where "C = ch_dquote" "lexStringLoop e cur = (v, p, es)"
      "is = es @ [if v then ItemToken (Token tk_string_literal (makeTokenSpan e (C # cur) p))
        else lexerError e UnterminatedStringLiteral (C # cur) p]"
    | (char) v n es k where "C = ch_squote" "lexCharLoop e 0 cur = (v, n, p, es)"
      "is = es @ [if v \<and> n = 1 then ItemToken (Token tk_char_literal (makeTokenSpan e (C # cur) p))
        else lexerError e k (C # cur) p]"
    | (symbol) k where "lexSymbol C cur = (k, p)"
      "is = [if k \<noteq> tk_unknown then ItemToken (Token k (makeTokenSpan e (C # cur) p))
        else lexerError e InvalidCharacter (C # cur) p]"
    using tok unfolding lexToken_def Let_def isReservedSymbolKind_def lexStringLiteral_def
      lexCharacterLiteral_def lexerError_def
    by (auto split: if_splits option.splits prod.splits)
  then show ?thesis
  proof cases
    case comment
    with lexComment_shape [of e cur t p es] suf suffix_not_Cons [OF suf] show ?thesis
      by (auto simp: whole_item_def scanned_def intro!: err_withinI intro: suffix_ConsI)
  next
    case word
    from lexIdentifier_shape [OF word(1,2)] obtain s where s: "C # cur = s @ p" "word_lexeme s"
      "t = Token (keywordKind s) (makeTokenSpan e (C # cur) p)" by blast
    then have tx: "tokenText (C # cur) p = s" by (metis tokenText_append)
    have "slice B (unat (Start (TokenSpan t))) (unat (End (TokenSpan t))) = s"
      using window_slice [OF w suffix_ConsI [OF suf]] tx s(3) by simp
    with word(3) s tx suf lexeme_keywordKind [OF s(2)] show ?thesis
      by (auto simp: whole_item_def shape_def isReservedKeyword_iff suffix_length_le suffix_def)
  next
    case number
    from lexNumericLiteral_shape [OF number(1,2)] number(3) suf show ?thesis
      by (cases t) (auto simp: whole_item_def shape_def suffix_length_le intro: suffix_ConsI split: if_splits)
  next
    case string
    note sh = lexStringLoop_shape [OF string(2)]
    have "quoted ch_dquote (tokenText (C # cur) p)
        \<and> (string_lexeme (tokenText (C # cur) p) \<longleftrightarrow> es = [])" if v
    proof -
      from that sh obtain s where s: "cur = s @ ch_dquote # p" "quoted_body ch_dquote s" by auto
      then have tx: "tokenText (C # cur) p = ch_dquote # s @ [ch_dquote]"
        using tokenText_append [of "ch_dquote # s @ [ch_dquote]" p] string(1) by simp
      have "string_lexeme (ch_dquote # s @ [ch_dquote]) \<longleftrightarrow> es = []"
      proof
        assume "string_lexeme (ch_dquote # s @ [ch_dquote])"
        then obtain ps where "s = concat ps" "\<forall>x\<in>set ps. legal_piece ch_dquote x" by (auto simp: string_lexeme_def)
        with lexStringLoop_read [of ps e p] string(2) s(1) show "es = []" by simp
      next
        assume "es = []"
        with lexStringLoop_legal [of e cur p] string(2) s(1) that
        show "string_lexeme (ch_dquote # s @ [ch_dquote])" by (auto simp: string_lexeme_def)
      qed
      with s(2) tx show ?thesis by (auto simp: quoted_def)
    qed
    with sh string(3) show ?thesis
      by (auto simp: whole_item_def shape_def lexerError_def scanned_Cons) (auto simp: scanned_def)
  next
    case char
    note sh = lexCharLoop_shape [OF char(2)]
    have "quoted ch_squote (tokenText (C # cur) p)
        \<and> (char_lexeme (tokenText (C # cur) p) \<longleftrightarrow> es = [])" if v "n = 1"
    proof -
      from that sh obtain s where s: "cur = s @ ch_squote # p" "quoted_body ch_squote s" by auto
      then have tx: "tokenText (C # cur) p = ch_squote # s @ [ch_squote]"
        using tokenText_append [of "ch_squote # s @ [ch_squote]" p] char(1) by simp
      have "char_lexeme (ch_squote # s @ [ch_squote]) \<longleftrightarrow> es = []"
      proof
        assume "char_lexeme (ch_squote # s @ [ch_squote])"
        then obtain ps where "s = concat ps" "\<forall>x\<in>set ps. legal_piece ch_squote x" by (auto simp: char_lexeme_def)
        with lexCharLoop_read [of ps e 0 p] char(2) s(1) show "es = []" by simp
      next
        assume "es = []"
        with lexCharLoop_legal [of e 0 cur n p] char(2) s(1) that
        show "char_lexeme (ch_squote # s @ [ch_squote])" by (auto simp: char_lexeme_def)
      qed
      with s(2) tx show ?thesis by (auto simp: quoted_def)
    qed
    with sh char(3) show ?thesis
      by (auto simp: whole_item_def shape_def lexerError_def scanned_Cons) (auto simp: scanned_def)
  next
    case symbol
    with lexSymbol_shape [OF symbol(1)] suf show ?thesis
      by (auto simp: whole_item_def shape_def lexerError_def suffix_length_le intro: suffix_ConsI)
  qed
qed


section \<open>Whole windows\<close>

text \<open>The induction over the main loop that the theorems below share.\<close>

lemma lexLoop_induct [consumes 1, case_names blank step]:
  assumes "window B e p"
    and blank: "\<And>p. window B e p \<Longrightarrow> \<forall>c\<in>set p. isWhitespace c \<Longrightarrow> lexLoop B e p = [] \<Longrightarrow> P p"
    and step: "\<And>ws C cur es it q. \<lbrakk>window B e (ws @ C # cur); \<forall>c\<in>set ws. isWhitespace c;
      \<not> isWhitespace C; lexToken B e C cur = (es @ [it], q); window B e (C # cur); suffix q cur;
      scanned e (C # cur) q es; length es + length q \<le> length cur; whole_item e (C # cur) q es it;
      window B e q; lexLoop B e (ws @ C # cur) = es @ it # lexLoop B e q; P q\<rbrakk>
      \<Longrightarrow> P (ws @ C # cur)"
  shows "P p"
  using assms(1)
proof (induction "length p" arbitrary: p rule: less_induct)
  case less
  define ws where "ws = takeWhile isWhitespace p"
  have p: "p = ws @ skipWhitespace p" and ws: "\<forall>c\<in>set ws. isWhitespace c"
    by (auto simp: ws_def skipWhitespace_dropWhile dest: set_takeWhileD)
  show ?case
  proof (cases "skipWhitespace p")
    case Nil
    with p ws have "\<forall>c\<in>set p. isWhitespace c" by auto
    with Nil blank [OF less.prems] show ?thesis by (simp add: lexLoop.simps)
  next
    case (Cons C cur)
    then have nw: "\<not> isWhitespace C"
      using hd_dropWhile [of isWhitespace p] by (metis list.distinct(1) list.sel(1) skipWhitespace_dropWhile)
    have w: "window B e (C # cur)"
      using window_suffix [OF less.prems] p Cons by (metis suffixI)
    obtain "is" q where tok: "lexToken B e C cur = (is, q)" by (metis prod.exhaust)
    from lexToken_shape [OF tok w] obtain es it where shape:
      "is = es @ [it]" "scanned e (C # cur) q es" "length es + length q \<le> length cur"
      "whole_item e (C # cur) q es it" by blast
    have q: "suffix q cur" "window B e q"
      using lexToken_suffix [OF tok] window_suffix [OF w suffix_ConsI] by blast+
    have "length q < length p"
      using p Cons shape(3) by (metis length_Cons length_append add_leD2 le_imp_less_Suc trans_less_add2)
    then have IH: "P q" using less q(2) by blast
    have "lexLoop B e (ws @ C # cur) = es @ it # lexLoop B e q"
      unfolding p [unfolded Cons, symmetric] by (subst lexLoop.simps) (simp add: Cons tok shape(1))
    from step [OF _ ws nw _ w q(1) shape(2-4) q(2) this IH] less.prems p Cons tok shape(1)
    show ?thesis by simp
  qed
qed

lemma window_lexSpan:
  assumes "length B < 4294967296" "unat (Start sp) \<le> unat (End sp)" "unat (End sp) \<le> length B"
  shows "window B (unat (End sp)) (take (unat (End sp) - unat (Start sp)) (drop (unat (Start sp)) B))"
  unfolding window_def using assms by auto

lemma lexSpan_eq:
  "lexSpan B sp =
    (if unat (Start sp) \<le> unat (End sp) \<and> unat (End sp) \<le> length B
     then lexLoop B (unat (End sp))
            (take (unat (End sp) - unat (Start sp)) (drop (unat (Start sp)) B))
          @ (if unat (Start sp) = 0 \<and> unat (End sp) = length B
             then [ItemToken (Token tk_eof (Span (of_nat (length B)) (of_nat (length B))))] else [])
     else [])"
  by (auto simp: lexSpan_def Let_def)

lemma lexSpan_invalid:
  "\<not> (unat (Start sp) \<le> unat (End sp) \<and> unat (End sp) \<le> length B) \<Longrightarrow> lexSpan B sp = []"
  unfolding lexSpan_eq by (rule if_not_P)

definition tokens_of :: "lexer_item list \<Rightarrow> token list" where
  "tokens_of is = concat (map (\<lambda>x. case x of ItemToken t \<Rightarrow> [t] | ItemError _ \<Rightarrow> []) is)"

lemma tokens_of_simps [simp]:
  "tokens_of [] = []"
  "tokens_of (ItemToken t # is) = t # tokens_of is"
  "tokens_of (ItemError er # is) = tokens_of is"
  "tokens_of (is @ js) = tokens_of is @ tokens_of js"
  by (simp_all add: tokens_of_def)

lemma set_tokens_of: "t \<in> set (tokens_of is) \<longleftrightarrow> ItemToken t \<in> set is"
  by (auto simp: tokens_of_def split: lexer_item.splits)

lemma tokens_of_scanned [simp]: "scanned e p q es \<Longrightarrow> tokens_of es = []"
  by (induction es) (auto simp: scanned_def err_within_def lexerError_def suffix_length_le)

text \<open>The number of items.\<close>

lemma length_lexLoop: "window B e p \<Longrightarrow> length (lexLoop B e p) \<le> length p"
  by (induction rule: lexLoop_induct) (auto simp: suffix_length_le)

text \<open>Order of the token spans.\<close>

definition span_le :: "token \<Rightarrow> token \<Rightarrow> bool" where
  "span_le t u \<longleftrightarrow> unat (End (TokenSpan t)) \<le> unat (Start (TokenSpan u))"

lemma lexLoop_ordered:
  "window B e p \<Longrightarrow> sorted_wrt span_le (tokens_of (lexLoop B e p))
     \<and> (\<forall>t\<in>set (tokens_of (lexLoop B e p)). e - length p \<le> unat (Start (TokenSpan t))
         \<and> unat (Start (TokenSpan t)) < unat (End (TokenSpan t)) \<and> unat (End (TokenSpan t)) \<le> e)"
proof (induction rule: lexLoop_induct)
  case (blank p)
  then show ?case by simp
next
  case (step ws C cur es it q)
  have suf: "suffix q (C # cur)" using step(6) by (rule suffix_ConsI)
  note u = window_unat [OF step(5) suf]
  have q: "length q < length (C # cur)" using step(8) by simp
  show ?case
  proof (cases it)
    case (ItemToken t)
    then have sp: "TokenSpan t = makeTokenSpan e (C # cur) q"
      using step(9) by (simp add: whole_item_def)
    have "\<forall>x\<in>set (tokens_of (lexLoop B e q)). span_le t x"
      using step(12) sp u(2) by (auto simp: span_le_def)
    with ItemToken step(7,11,12) sp u q show ?thesis by auto
  next
    case (ItemError er)
    with step(7,11,12) u q show ?thesis by force
  qed
qed

text \<open>Every byte that is not white space is in the span of an item.\<close>

definition in_span :: "nat \<Rightarrow> span \<Rightarrow> bool" where
  "in_span i sp \<longleftrightarrow> unat (Start sp) \<le> i \<and> i < unat (End sp)"

lemma nth_window: "window B e p \<Longrightarrow> i < length p \<Longrightarrow> B ! (e - length p + i) = p ! i"
proof -
  assume "window B e p" and i: "i < length p"
  then obtain s u where s: "e \<le> length B" "s \<le> e" "take (e - s) (drop s B) = u @ p"
    unfolding window_def suffix_def by auto
  then have "length (u @ p) = e - s" by (metis length_drop length_take min.absorb2 diff_le_mono)
  then have l: "s + length u + i = e - length p + i" "length u + i < e - s" using s i by auto
  have "(u @ p) ! (length u + i) = B ! (s + length u + i)"
    using l(2) s by (simp add: s(3) [symmetric] add.assoc)
  with l show ?thesis by (simp add: nth_append)
qed

text \<open>Offset \<open>i\<close> is in a number that is cut off, in a window that starts where \<open>p\<close> does.\<close>

definition cut_off :: "string \<Rightarrow> nat \<Rightarrow> ptr \<Rightarrow> nat \<Rightarrow> bool" where
  "cut_off B e p i \<longleftrightarrow> (\<exists>a b. e - length p \<le> a \<and> a \<le> i \<and> i < b \<and> b < e
     \<and> broken_number (slice B a b) \<and> B ! b = CHR ''_''
     \<and> ItemError (LexerError InvalidNumericLiteral (Span 0 0)) \<in> set (lexLoop B e p))"

lemma lexLoop_covers:
  "window B e p \<Longrightarrow> \<forall>i < length p. \<not> isWhitespace (p ! i) \<longrightarrow>
     (\<exists>x\<in>set (lexLoop B e p). in_span (e - length p + i) (item_span x)) \<or> cut_off B e p (e - length p + i)"
proof (induction rule: lexLoop_induct)
  case (blank p)
  then show ?case by (auto dest: nth_mem)
next
  case (step ws C cur es it q)
  let ?p = "ws @ C # cur"
  have suf: "suffix q (C # cur)" using step(6) by (rule suffix_ConsI)
  note u = window_unat [OF step(5) suf]
  have q: "length q < length (C # cur)" using step(8) by simp
  have e: "length ?p \<le> e" using window_unat(3) [OF step(1) suffix_order.refl] by simp
  from suf obtain v where v: "C # cur = v @ q" by (auto simp: suffix_def)
  have lv: "length (C # cur) = length v + length q" using v by (metis length_append)
  show ?case
  proof (intro allI impI)
    fix i assume i: "i < length ?p" and nw: "\<not> isWhitespace (?p ! i)"
    then have ws: "length ws \<le> i" using step(2) by (metis nth_append nth_mem not_le)
    show "(\<exists>x\<in>set (lexLoop B e ?p). in_span (e - length ?p + i) (item_span x)) \<or> cut_off B e ?p (e - length ?p + i)"
    proof (cases "i < length ws + length v")
      case True
      show ?thesis
      proof (cases "item_span it = makeTokenSpan e (C # cur) q")
        case True
        with u \<open>i < length ws + length v\<close> ws e lv have "in_span (e - length ?p + i) (item_span it)"
          by (simp add: in_span_def) arith
        then show ?thesis using step(11) by auto
      next
        case False
        with step(9) have broken: "it = ItemError (LexerError InvalidNumericLiteral (Span 0 0))"
          "broken_number (tokenText (C # cur) q)" "q \<noteq> []" "hd q = CHR ''_''"
          by (auto simp: whole_item_def split: lexer_item.splits)
        have "slice B (e - length (C # cur)) (e - length q) = tokenText (C # cur) q"
          using window_slice [OF step(5) suf] u by simp
        moreover have "B ! (e - length q) = CHR ''_''"
          using nth_window [OF step(10), of 0] broken(3,4) by (cases q) simp_all
        moreover have "e - length q < e" using broken(3) q e by (cases q) simp_all
        ultimately have "cut_off B e ?p (e - length ?p + i)"
          using broken step(11) True ws e lv unfolding cut_off_def
          by (intro exI [of _ "e - length (C # cur)"] exI [of _ "e - length q"]) auto
        then show ?thesis ..
      qed
    next
      case False
      define j where "j = i - length ws - length v"
      have j: "j < length q" "?p ! i = q ! j" "e - length ?p + i = e - length q + j"
        using False i v e by (auto simp: j_def nth_append)
      have "cut_off B e ?p k" if "cut_off B e q k" for k
      proof -
        have "e - length ?p \<le> e - length q" using q by simp
        with that step(11) show ?thesis unfolding cut_off_def using order_trans by fastforce
      qed
      with step(11,12) nw j show ?thesis by auto
    qed
  qed
qed

text \<open>The text of a token, and the errors inside it.\<close>

definition inside :: "span \<Rightarrow> span \<Rightarrow> bool" where
  "inside S T \<longleftrightarrow> unat (Start T) \<le> unat (Start S) \<and> unat (Start S) < unat (End S) \<and> unat (End S) \<le> unat (End T)"

lemma err_within_span:
  assumes "window B e p" "err_within e p q x"
  obtains er where "x = ItemError er" "e - length p \<le> unat (Start (ErrorSpan er))"
    "unat (Start (ErrorSpan er)) < unat (End (ErrorSpan er))" "unat (End (ErrorSpan er)) \<le> e - length q"
proof -
  obtain k a b where x: "x = lexerError e k a b" "suffix a p" "suffix b a" "b \<noteq> a" "suffix q b"
    using assms(2) by (auto simp: err_within_def)
  note u = window_unat [OF window_suffix [OF assms(1) x(2)] x(3)]
  have "length b < length a" using x(3,4) by (metis suffix_length_less suffix_order.less_le)
  with x u that suffix_length_le [OF x(2)] suffix_length_le [OF x(5)] show thesis
    by (simp add: lexerError_def)
qed

lemma lexLoop_error_spans:
  "window B e p \<Longrightarrow> \<forall>er. ItemError er \<in> set (lexLoop B e p) \<and> unat (Start (ErrorSpan er)) < unat (End (ErrorSpan er))
     \<longrightarrow> e - length p \<le> unat (Start (ErrorSpan er))"
proof (induction rule: lexLoop_induct)
  case (blank p)
  then show ?case by simp
next
  case (step ws C cur es it q)
  have suf: "suffix q (C # cur)" using step(6) by (rule suffix_ConsI)
  note u = window_unat [OF step(5) suf]
  show ?case
  proof (intro allI impI, elim conjE)
    fix er assume er: "ItemError er \<in> set (lexLoop B e (ws @ C # cur))"
      and ne: "unat (Start (ErrorSpan er)) < unat (End (ErrorSpan er))"
    then consider (own) "err_within e (C # cur) q (ItemError er)" | (whole) "it = ItemError er"
      | (later) "ItemError er \<in> set (lexLoop B e q)"
      using step(7,11) by (auto simp: scanned_def)
    then show "e - length (ws @ C # cur) \<le> unat (Start (ErrorSpan er))"
    proof cases
      case own
      then show ?thesis by (rule err_within_span [OF step(5)]) auto
    next
      case whole
      with step(9) ne u(1) show ?thesis by (auto simp: whole_item_def)
    next
      case later
      with step(8,12) ne have "e - length q \<le> unat (Start (ErrorSpan er))" by blast
      with step(8) show ?thesis by simp
    qed
  qed
qed

lemma lexLoop_text:
  "window B e p \<Longrightarrow> \<forall>t\<in>set (tokens_of (lexLoop B e p)).
     shape (TokenKind t) (slice B (unat (Start (TokenSpan t))) (unat (End (TokenSpan t))))
     \<and> (lexeme (TokenKind t) (slice B (unat (Start (TokenSpan t))) (unat (End (TokenSpan t))))
        \<longleftrightarrow> \<not> (\<exists>er. ItemError er \<in> set (lexLoop B e p) \<and> inside (ErrorSpan er) (TokenSpan t)))"
proof (induction rule: lexLoop_induct)
  case (blank p)
  then show ?case by simp
next
  case (step ws C cur es it q)
  have suf: "suffix q (C # cur)" using step(6) by (rule suffix_ConsI)
  note u = window_unat [OF step(5) suf]
  have tx: "slice B (e - length (C # cur)) (e - length q) = tokenText (C # cur) q"
    using window_slice [OF step(5) suf] u by simp
  have later: "e - length q \<le> unat (Start (ErrorSpan er))"
    if "ItemError er \<in> set (lexLoop B e q)" "unat (Start (ErrorSpan er)) < unat (End (ErrorSpan er))" for er
    using lexLoop_error_spans [OF step(10)] that by blast
  have errs: "\<exists>er. x = ItemError er \<and> e - length (C # cur) \<le> unat (Start (ErrorSpan er))
      \<and> unat (Start (ErrorSpan er)) < unat (End (ErrorSpan er)) \<and> unat (End (ErrorSpan er)) \<le> e - length q"
    if "x \<in> set es" for x
    using that step(7) err_within_span [OF step(5)] unfolding scanned_def by metis
  show ?case
  proof
    fix t assume "t \<in> set (tokens_of (lexLoop B e (ws @ C # cur)))"
    then consider (own) "it = ItemToken t" | (rest) "t \<in> set (tokens_of (lexLoop B e q))"
      using step(7,11) by (cases it) auto
    then show "shape (TokenKind t) (slice B (unat (Start (TokenSpan t))) (unat (End (TokenSpan t))))
     \<and> (lexeme (TokenKind t) (slice B (unat (Start (TokenSpan t))) (unat (End (TokenSpan t))))
        \<longleftrightarrow> \<not> (\<exists>er. ItemError er \<in> set (lexLoop B e (ws @ C # cur)) \<and> inside (ErrorSpan er) (TokenSpan t)))"
    proof cases
      case own
      then have it: "it = ItemToken t" .
      with step(9) have t: "unat (Start (TokenSpan t)) = e - length (C # cur)" "unat (End (TokenSpan t)) = e - length q"
        "shape (TokenKind t) (tokenText (C # cur) q)" "lexeme (TokenKind t) (tokenText (C # cur) q) \<longleftrightarrow> es = []"
        using u by (simp_all add: whole_item_def)
      have "(\<exists>er. ItemError er \<in> set (lexLoop B e (ws @ C # cur)) \<and> inside (ErrorSpan er) (TokenSpan t)) \<longleftrightarrow> es \<noteq> []"
      proof
        assume "es \<noteq> []"
        then obtain x where x: "x \<in> set es" by (cases es) auto
        from errs [OF x] x t(1,2) step(11)
        show "\<exists>er. ItemError er \<in> set (lexLoop B e (ws @ C # cur)) \<and> inside (ErrorSpan er) (TokenSpan t)"
          by (auto simp: inside_def)
      qed (use later t(1,2) it step(11) in \<open>fastforce simp: inside_def\<close>)
      with t tx show ?thesis by simp
    next
      case rest
      have t: "e - length q \<le> unat (Start (TokenSpan t))"
        using lexLoop_ordered [OF step(10)] rest by blast
      have "\<not> inside (ErrorSpan er) (TokenSpan t)" if "ItemError er \<in> set es \<or> ItemError er = it" for er
        using that
      proof
        assume "ItemError er = it"
        with step(9) have "ErrorSpan er = makeTokenSpan e (C # cur) q \<or> ErrorSpan er = Span 0 0"
          by (auto simp: whole_item_def)
        with t u show ?thesis by (auto simp: inside_def)
      qed (use errs t in \<open>fastforce simp: inside_def\<close>)
      with step(11,12) rest show ?thesis by auto
    qed
  qed
qed


section \<open>Reading back what was printed\<close>

text \<open>
  Lexemes that stand for themselves on a line of their own: all of them but the empty one.
\<close>

definition plain :: "kind \<Rightarrow> string \<Rightarrow> bool" where
  "plain k s \<longleftrightarrow> lexeme k s \<and> k \<noteq> tk_eof"

lemma line_not_ident: "\<not> isIdentChar ch_lf" "\<not> isdigit ch_lf" "\<not> isxdigit ch_lf" "isWhitespace ch_lf"
  by (simp_all add: isIdentChar_def isalnum_def isalpha_def isdigit_def isxdigit_def byte_def
      isWhitespace_def)

lemma dropWhile_line: "\<forall>c\<in>set s. P c \<Longrightarrow> \<not> P ch_lf \<Longrightarrow> dropWhile P (s @ ch_lf # r) = ch_lf # r"
  by (induction s) auto

lemma takeWhile_line: "\<forall>c\<in>set s. P c \<Longrightarrow> \<not> P ch_lf \<Longrightarrow> takeWhile P (s @ ch_lf # r) = s"
  by (induction s) auto

lemma word_head:
  "isalpha C \<or> C = CHR ''_'' \<Longrightarrow>
     C \<noteq> CHR ''/'' \<and> \<not> isdigit C \<and> C \<noteq> ch_dquote \<and> C \<noteq> ch_squote \<and> \<not> isWhitespace C"
  by (auto simp: isalpha_def isdigit_def byte_def isWhitespace_def)

lemma digit_head:
  "isdigit C \<Longrightarrow> C \<noteq> CHR ''/'' \<and> \<not> isalpha C \<and> C \<noteq> CHR ''_'' \<and> \<not> isWhitespace C"
  by (auto simp: isalpha_def isdigit_def byte_def isWhitespace_def)

lemma lexToken_word:
  assumes "word_lexeme (C # s)" "\<not> reserved_spelling (C # s)" "window B e (C # s @ ch_lf # r)"
  shows "lexToken B e C (s @ ch_lf # r)
    = ([ItemToken (Token (keywordKind (C # s)) (makeTokenSpan e (C # s @ ch_lf # r) (ch_lf # r)))],
       ch_lf # r)"
proof -
  have C: "isalpha C \<or> C = CHR ''_''" and s: "\<forall>c\<in>set s. isIdentChar c"
    using assms(1) by (auto simp: word_lexeme_def)
  have tx: "tokenText (C # s @ ch_lf # r) (ch_lf # r) = C # s"
    using tokenText_append [of "C # s" "ch_lf # r"] by simp
  have suf: "suffix (ch_lf # r) (C # s @ ch_lf # r)"
    using suffixI [of _ "C # s"] by simp
  have "lexIdentifier e (C # s @ ch_lf # r) (s @ ch_lf # r)
    = (Token (keywordKind (C # s)) (makeTokenSpan e (C # s @ ch_lf # r) (ch_lf # r)), ch_lf # r)"
    using s tx by (simp add: lexIdentifier_def dropWhile_line line_not_ident Let_def)
  with C word_head [OF C] assms(2) window_slice [OF assms(3) suf] tx show ?thesis
    by (simp add: lexToken_def isReservedKeyword_iff)
qed

lemma lexIntegerPart_line:
  assumes "\<forall>c\<in>set ds. (if h then isxdigit c else isdigit c) \<or> c = CHR ''_''"
    "no_double_underscore (if u then CHR ''_'' # ds else ds)"
    "p = [] \<or> \<not> (if h then isxdigit (hd p) else isdigit (hd p)) \<and> hd p \<noteq> CHR ''_''"
  shows "lexIntegerPart h n u (ds @ p)
    = (True, n + (if h then length (filter isxdigit ds) else 0), p)"
  using assms(1,2)
proof (induction ds arbitrary: n u)
  case Nil
  with assms(3) show ?case by (cases p) (auto simp: isHexDigit_def)
next
  case (Cons d ds)
  show ?case
  proof (cases "d = CHR ''_''")
    case True
    with Cons.prems have "\<not> u" "no_double_underscore (CHR ''_'' # ds)" by (auto split: if_splits)
    moreover have "\<not> isxdigit d" "\<not> isdigit d"
      using True by (simp_all add: isxdigit_def isdigit_def byte_def)
    ultimately show ?thesis
      using True Cons.IH [of True n] Cons.prems(1) by (simp add: isHexDigit_def)
  next
    case False
    with Cons.prems have "no_double_underscore ds" by (auto split: if_splits)
    with False Cons.prems(1) show ?thesis
      using Cons.IH [of False "if h then Suc n else n"] by (auto simp: isHexDigit_def)
  qed
qed

lemma filter_ex: "\<exists>c\<in>set ds. P c \<Longrightarrow> length (filter P ds) \<noteq> 0"
  by (auto simp: filter_empty_conv)

lemma lexNumericLiteral_dec:
  assumes "\<not> (C = CHR ''0'' \<and> cur \<noteq> [] \<and> (hd cur = CHR ''x'' \<or> hd cur = CHR ''X''))"
  shows "lexNumericLiteral e (C # tok) cur =
    (case lexIntegerPart False 0 False cur of (Ok, HexDigits, Cur) \<Rightarrow>
       if \<not> Ok then (False, Token tk_integer_literal (Span 0 0), Cur)
       else if Cur \<noteq> [] \<and> hd Cur = CHR ''.'' \<and> tl Cur \<noteq> [] \<and> isdigit (hd (tl Cur)) then
         let Stop = skipFloatSuffix (dropWhile (\<lambda>c. isdigit c \<or> c = CHR ''_'') (tl Cur))
         in (True, Token tk_float_literal (makeTokenSpan e (C # tok) Stop), Stop)
       else if Cur \<noteq> [] \<and> hd Cur = CHR ''f'' then
         (True, Token tk_float_literal (makeTokenSpan e (C # tok) (tl Cur)), tl Cur)
       else (\<not> (length Cur < length (C # tok) \<and> last (tokenText (C # tok) Cur) = CHR ''_''),
         Token tk_integer_literal (makeTokenSpan e (C # tok) Cur), Cur))"
  unfolding lexNumericLiteral_def Let_def list.sel
  by (simp only: assms simp_thms if_False) (auto split: prod.splits)

lemma lexToken_integer:
  assumes "integer_lexeme (C # s)"
  shows "lexToken B e C (s @ ch_lf # r)
    = ([ItemToken (Token tk_integer_literal (makeTokenSpan e (C # s @ ch_lf # r) (ch_lf # r)))],
       ch_lf # r)"
proof -
  have tx: "tokenText (C # s @ ch_lf # r) (ch_lf # r) = C # s"
    using tokenText_append [of "C # s" "ch_lf # r"] by simp
  have C: "isdigit C"
    using assms by (auto simp: integer_lexeme_def isdigit_def byte_def)
  have num: "lexNumericLiteral e (C # s @ ch_lf # r) (s @ ch_lf # r)
    = (True, Token tk_integer_literal (makeTokenSpan e (C # s @ ch_lf # r) (ch_lf # r)), ch_lf # r)"
  proof (cases "C = CHR ''0'' \<and> s \<noteq> [] \<and> (hd s = CHR ''x'' \<or> hd s = CHR ''X'')")
    case True
    then have "\<not> digits_of isdigit (C # s)"
      by (cases s) (auto simp: digits_of_def isdigit_def byte_def)
    with assms obtain x ds where s: "s = x # ds" "digits_of isxdigit ds"
      by (auto simp: integer_lexeme_def)
    then have "lexIntegerPart True 0 False (ds @ ch_lf # r)
      = (True, length (filter isxdigit ds), ch_lf # r)"
      by (subst lexIntegerPart_line) (auto simp: digits_of_def line_not_ident)
    moreover have "length (filter isxdigit ds) \<noteq> 0" "ds \<noteq> []" "last ds \<noteq> CHR ''_''"
      using s(2) by (auto simp: digits_of_def filter_empty_conv)
    ultimately show ?thesis
      using True s(1) tx by (simp add: lexNumericLiteral_def Let_def)
  next
    case False
    then have d: "digits_of isdigit (C # s)"
      using assms by (auto simp: integer_lexeme_def)
    have h: "\<not> (C = CHR ''0'' \<and> (hd (s @ ch_lf # r) = CHR ''x'' \<or> hd (s @ ch_lf # r) = CHR ''X''))"
      using False by (cases s) auto
    have "no_double_underscore s"
      using d digit_not_underscore(1) [OF C] by (simp add: digits_of_def)
    then have "lexIntegerPart False 0 False (s @ ch_lf # r) = (True, 0, ch_lf # r)"
      using d by (subst lexIntegerPart_line) (auto simp: digits_of_def line_not_ident)
    with d tx show ?thesis
      by (subst lexNumericLiteral_dec) (use h in \<open>auto simp: digits_of_def\<close>)
  qed
  with C digit_head [OF C] show ?thesis
    by (simp add: lexToken_def)
qed

lemma lexToken_float:
  assumes "float_lexeme (C # s)"
  shows "lexToken B e C (s @ ch_lf # r)
    = ([ItemToken (Token tk_float_literal (makeTokenSpan e (C # s @ ch_lf # r) (ch_lf # r)))],
       ch_lf # r)"
proof -
  obtain ds0 t where ds0: "C # s = ds0 @ t" "ds0 \<noteq> []" "isdigit (hd ds0)"
    "\<forall>c\<in>set ds0. isdigit c \<or> c = CHR ''_''" "no_double_underscore ds0"
    and t: "t = ''f'' \<or> (\<exists>d fr f. t = CHR ''.'' # d # fr @ f \<and> isdigit d
          \<and> (\<forall>c\<in>set fr. isdigit c \<or> c = CHR ''_'') \<and> (f = [] \<or> f = ''f''))"
    using assms unfolding float_lexeme_def by (elim exE conjE) (rule that; assumption)
  from ds0 obtain ds where s: "s = ds @ t" and C: "isdigit C"
    and ds: "\<forall>c\<in>set ds. isdigit c \<or> c = CHR ''_''" "no_double_underscore (C # ds)"
    by (cases ds0) auto
  have nd: "no_double_underscore ds" using ds(2) digit_not_underscore(1) [OF C] by simp
  have hd_t: "t \<noteq> []" "hd t = CHR ''f'' \<or> hd t = CHR ''.''" using t by auto
  have h: "\<not> (hd (s @ ch_lf # r) = CHR ''x'' \<or> hd (s @ ch_lf # r) = CHR ''X'')"
    using ds(1) hd_t s by (cases ds; cases t) (auto simp: isdigit_def byte_def)
  have part: "lexIntegerPart False 0 False (s @ ch_lf # r) = (True, 0, t @ ch_lf # r)"
    using ds(1) nd hd_t unfolding s append_assoc
    by (subst lexIntegerPart_line) (auto simp: isdigit_def byte_def)
  have num: "lexNumericLiteral e (C # s @ ch_lf # r) (s @ ch_lf # r)
    = (True, Token tk_float_literal (makeTokenSpan e (C # s @ ch_lf # r) (ch_lf # r)), ch_lf # r)"
  proof -
    consider (int) "t = ''f''"
      | (frac) d fr f where "t = CHR ''.'' # d # fr @ f" "isdigit d"
          "\<forall>c\<in>set fr. isdigit c \<or> c = CHR ''_''" "f = [] \<or> f = ''f''"
      using t by blast
    then show ?thesis
  proof cases
    case int
    then show ?thesis using part by (subst lexNumericLiteral_dec) (use h in auto)
  next
    case f: frac
    have "dropWhile (\<lambda>c. isdigit c \<or> c = CHR ''_'') (fr @ f @ ch_lf # r) = f @ ch_lf # r"
      using f(3,4) by (subst dropWhile_append2) (auto simp: line_not_ident isdigit_def byte_def)
    with f part show ?thesis
      by (subst lexNumericLiteral_dec) (use h in \<open>auto simp: Let_def skipFloatSuffix_def\<close>)
  qed
  qed
  with C digit_head [OF C] show ?thesis
    by (simp add: lexToken_def)
qed


lemma lexComment_line:
  assumes "line_free s" "s = ''//'' @ u"
  shows "\<exists>k. lexComment e (s @ ch_lf # r) (CHR ''/'' # u @ ch_lf # r)
      = Some (Token k (makeTokenSpan e (s @ ch_lf # r) (ch_lf # r)), ch_lf # r, [])
    \<and> lexeme k s \<and> k \<in> {tk_comment, tk_doc_comment, tk_file_doc_comment}"
proof -
  let ?cur = "CHR ''/'' # u @ ch_lf # r"
  define sl where "sl = takeWhile (\<lambda>c. c = CHR ''/'') (u @ ch_lf # r)"
  define cu where "cu = dropWhile (\<lambda>c. c = CHR ''/'') (u @ ch_lf # r)"
  define isf where "isf \<longleftrightarrow> 2 + length sl = 2 \<and> cu \<noteq> [] \<and> hd cu = CHR ''!''"
  have "\<exists>v. cu = v @ ch_lf # r \<and> line_free v"
    using assms unfolding cu_def
    by (intro exI [of _ "dropWhile (\<lambda>c. c = CHR ''/'') u"])
      (auto simp: dropWhile_append line_free_def dest: set_dropWhileD)
  then obtain v where v: "cu = v @ ch_lf # r" "line_free v" by blast
  have stop: "dropWhile (\<lambda>c. c \<noteq> ch_lf \<and> c \<noteq> ch_cr) (if isf then tl cu else cu) = ch_lf # r"
  proof (cases v)
    case Nil
    then show ?thesis using v by (auto simp: isf_def)
  next
    case (Cons c w)
    with v show ?thesis
      by (auto simp: line_free_def intro!: dropWhile_line split: if_splits)
  qed
  obtain k where k: "lexComment e (CHR ''/'' # ?cur) ?cur
      = Some (Token k (makeTokenSpan e (CHR ''/'' # ?cur) (ch_lf # r)), ch_lf # r, [])"
    "k \<in> {tk_comment, tk_doc_comment, tk_file_doc_comment}"
    unfolding lexComment_def Let_def list.sel sl_def [symmetric] cu_def [symmetric]
      isf_def [symmetric] stop by simp
  have "tokenText (CHR ''/'' # ?cur) (ch_lf # r) = s"
    using assms(2) tokenText_append [of s "ch_lf # r"] by simp
  with lexComment_shape [OF k(1)] k assms(2) show ?thesis by auto
qed

lemma lexComment_block:
  assumes "closes 1 u"
  shows "lexComment e (''/*'' @ u @ r) (CHR ''*'' # u @ r)
    = Some (Token tk_comment (makeTokenSpan e (''/*'' @ u @ r) r), r, [])"
  using lexBlockComment_read [OF assms, of r] by (simp add: lexComment_def)

lemma lexSymbol_line:
  "lexSymbol (hd (operator_name x)) (tl (operator_name x) @ ch_lf # r) = (Operator x, ch_lf # r)"
  "lexSymbol (hd (delimiter_name y)) (tl (delimiter_name y) @ ch_lf # r) = (Delimiter y, ch_lf # r)"
  by (cases x; simp add: lexSymbol_def at_def) (cases y; simp add: lexSymbol_def at_def)

lemma symbol_head:
  "\<not> isIdentChar (hd (operator_name x)) \<and> hd (operator_name x) \<noteq> ch_dquote
     \<and> hd (operator_name x) \<noteq> ch_squote \<and> operator_name x \<noteq> [] \<and> \<not> isWhitespace (hd (operator_name x))"
  "\<not> isIdentChar (hd (delimiter_name y)) \<and> hd (delimiter_name y) \<noteq> ch_dquote
     \<and> hd (delimiter_name y) \<noteq> ch_squote \<and> delimiter_name y \<noteq> [] \<and> \<not> isWhitespace (hd (delimiter_name y))"
  by (cases x; simp add: isIdentChar_def isalnum_def isalpha_def isdigit_def byte_def isWhitespace_def)
    (cases y; simp add: isIdentChar_def isalnum_def isalpha_def isdigit_def byte_def isWhitespace_def)

lemma symbol_not_comment:
  "hd (operator_name x) = CHR ''/'' \<Longrightarrow> lexComment e t (tl (operator_name x) @ ch_lf # r) = None"
  by (cases x; simp add: lexComment_def)

lemma lexToken_symbol:
  assumes "lexSymbol C cur = (k, p)" "k \<noteq> tk_unknown" "\<not> isIdentChar C" "C \<noteq> ch_dquote"
    "C \<noteq> ch_squote" "C = CHR ''/'' \<longrightarrow> lexComment e (C # cur) cur = None"
  shows "lexToken B e C cur = ([ItemToken (Token k (makeTokenSpan e (C # cur) p))], p)"
  using assms by (auto simp: lexToken_def Let_def isIdentChar_def isalnum_def isReservedSymbolKind_def)

lemma lexToken_plain:
  assumes "plain k (C # s)" "window B e (C # s @ ch_lf # r)"
  shows "lexToken B e C (s @ ch_lf # r)
      = ([ItemToken (Token k (makeTokenSpan e (C # s @ ch_lf # r) (ch_lf # r)))], ch_lf # r)
    \<and> \<not> isWhitespace C"
proof (cases k)
  case (Special x)
  show ?thesis
  proof (cases "\<exists>u. C # s = ''/*'' @ u \<and> closes 1 u")
    case True
    moreover have "k = tk_comment"
      using assms(1) Special True
      by (cases x) (auto simp: plain_def comment_lexeme_def doc_comment_lexeme_def
          file_doc_comment_lexeme_def)
    ultimately show ?thesis
      using lexComment_block [of _ e "ch_lf # r"] by (auto simp: lexToken_def isWhitespace_def)
  next
    case False
  have c: "line_free (C # s) \<and> (\<exists>u. C # s = ''//'' @ u)"
    using assms(1) Special False
    by (cases x) (auto simp: plain_def comment_lexeme_def doc_comment_lexeme_def
        file_doc_comment_lexeme_def)
  then obtain u where u: "C # s = ''//'' @ u" by blast
  from lexComment_line [OF conjunct1 [OF c] u, of e r] obtain k' where k':
    "lexComment e (C # s @ ch_lf # r) (s @ ch_lf # r)
      = Some (Token k' (makeTokenSpan e (C # s @ ch_lf # r) (ch_lf # r)), ch_lf # r, [])"
    "lexeme k' (C # s)" "k' \<in> {tk_comment, tk_doc_comment, tk_file_doc_comment}"
    using u by auto
  have "k = k'"
    using assms(1) Special k'(2,3) u
    by (cases x) (auto simp: plain_def comment_lexeme_def doc_comment_lexeme_def
        file_doc_comment_lexeme_def)
  with k' u show ?thesis by (auto simp: lexToken_def isWhitespace_def)
  qed
next
  case (Literal x)
  show ?thesis
  proof (cases x)
    case L_identifier
    with assms Literal have "word_lexeme (C # s)" "\<not> keyword_spelling (C # s)"
      "\<not> reserved_spelling (C # s)" by (auto simp: plain_def)
    with lexToken_word [OF _ _ assms(2)] keywordKind_other Literal L_identifier word_head
    show ?thesis by (auto simp: word_lexeme_def)
  next
    case L_integer_literal
    with assms Literal have i: "integer_lexeme (C # s)" by (auto simp: plain_def)
    then have "isdigit C" by (auto simp: integer_lexeme_def isdigit_def byte_def)
    with lexToken_integer [OF i] Literal L_integer_literal digit_head show ?thesis by auto
  next
    case L_float_literal
    with assms Literal have i: "float_lexeme (C # s)" by (auto simp: plain_def)
    then have "isdigit C" using float_lexeme_hd by fastforce
    with lexToken_float [OF i] Literal L_float_literal digit_head show ?thesis by auto
  next
    case L_char_literal
    with assms Literal obtain ps where ps: "C # s = ch_squote # concat ps @ [ch_squote]"
      "\<forall>x\<in>set ps. legal_piece ch_squote x" "length (filter (\<lambda>p. \<not> continues p) ps) = 1"
      by (auto simp: plain_def char_lexeme_def)
    with Literal L_char_literal lexCharLoop_read [OF ps(2), of e 0 "ch_lf # r"] show ?thesis
      by (auto simp: lexToken_def lexCharacterLiteral_def isalpha_def isdigit_def byte_def isWhitespace_def)
  next
    case L_string_literal
    with assms Literal obtain ps where ps: "C # s = ch_dquote # concat ps @ [ch_dquote]"
      "\<forall>x\<in>set ps. legal_piece ch_dquote x" by (auto simp: plain_def string_lexeme_def)
    with Literal L_string_literal lexStringLoop_read [OF ps(2), of e "ch_lf # r"] show ?thesis
      by (auto simp: lexToken_def lexStringLiteral_def isalpha_def isdigit_def byte_def isWhitespace_def)
  qed
next
  case (Delimiter x)
  with assms(1) have "C = hd (delimiter_name x)" "s = tl (delimiter_name x)"
    by (auto simp: plain_def) (metis list.sel)+
  with lexToken_symbol [OF lexSymbol_line(2) [of x r]] symbol_head(2) [of x] Delimiter show ?thesis
    by (cases x) simp_all
next
  case (Operator x)
  with assms(1) have "C = hd (operator_name x)" "s = tl (operator_name x)"
    by (auto simp: plain_def) (metis list.sel)+
  with lexToken_symbol [OF lexSymbol_line(1) [of x r]] symbol_head(1) [of x]
    symbol_not_comment [of x] Operator show ?thesis by simp
next
  case (Keyword x)
  with assms(1) have n: "C # s = keyword_name x" by (simp add: plain_def)
  with word_keyword [of x] have w: "word_lexeme (C # s)" by simp
  then have C: "isalpha C \<or> C = CHR ''_''" by (simp add: word_lexeme_def)
  have nr: "\<not> reserved_spelling (C # s)" using n not_reserved_keyword [of x] by simp
  have "keywordKind (C # s) = k" using n Keyword by simp
  with lexToken_word [OF w nr assms(2)] word_head [OF C] show ?thesis by simp
next
  case (Reserved x)
  with assms(1) show ?thesis by (simp add: plain_def)
next
  case Arrow
  with assms(1) have "C = CHR ''-''" "s = ''>''" by (simp_all add: plain_def)
  with Arrow show ?thesis
    by (simp add: lexToken_def lexSymbol_def at_def isalpha_def isdigit_def byte_def
        isReservedSymbolKind_def isWhitespace_def)
qed


text \<open>
  Printing a list of lexemes, one to a line, and the tokens that stand for them from offset
  \<open>n\<close> on.
\<close>

fun print_lines :: "(kind \<times> string) list \<Rightarrow> string" where
  "print_lines [] = []"
| "print_lines ((k, s) # ls) = s @ ch_lf # print_lines ls"

fun place :: "nat \<Rightarrow> (kind \<times> string) list \<Rightarrow> token list" where
  "place n [] = []"
| "place n ((k, s) # ls) =
     Token k (Span (of_nat n) (of_nat (n + length s))) # place (n + length s + 1) ls"

lemma plain_nonempty:
  assumes "plain k s"
  shows "s \<noteq> []"
proof (cases k)
  case (Special x)
  with assms show ?thesis
    by (cases x) (auto simp: plain_def comment_lexeme_def doc_comment_lexeme_def
        file_doc_comment_lexeme_def)
next
  case (Literal x)
  with assms float_lexeme_hd [of s] show ?thesis
    by (cases x) (auto simp: plain_def word_lexeme_def integer_lexeme_def digits_of_def char_lexeme_def string_lexeme_def)
next
  case (Keyword x)
  with assms word_keyword [of x] show ?thesis by (auto simp: plain_def word_lexeme_def)
next
  case (Operator x)
  with assms symbol_head(1) [of x] show ?thesis by (auto simp: plain_def)
next
  case (Delimiter x)
  with assms symbol_head(2) [of x] show ?thesis by (auto simp: plain_def)
qed (use assms in \<open>auto simp: plain_def\<close>)

lemma lexLoop_print:
  "\<lbrakk>\<forall>(k, s)\<in>set ls. plain k s; window B e (ws @ print_lines ls); \<forall>c\<in>set ws. isWhitespace c\<rbrakk>
     \<Longrightarrow> lexLoop B e (ws @ print_lines ls)
       = map ItemToken (place (e - length (print_lines ls)) ls)"
proof (induction ls arbitrary: ws rule: print_lines.induct)
  case 1
  then have "skipWhitespace ws = []" by (simp add: skipWhitespace_dropWhile)
  then show ?case by (simp add: lexLoop.simps)
next
  case (2 k s ls)
  then have pl: "plain k s" by simp
  then obtain C s' where s: "s = C # s'" using plain_nonempty by (cases s) auto
  let ?p = "C # s' @ ch_lf # print_lines ls" and ?q = "ch_lf # print_lines ls"
  have w: "window B e ?p" using window_suffix [OF 2(3)] s by (simp add: suffix_def)
  have q: "suffix ?q ?p" using suffixI [of ?p "C # s'" ?q] by simp
  from lexToken_plain [OF _ w] pl s have tok:
    "lexToken B e C (s' @ ?q) = ([ItemToken (Token k (makeTokenSpan e ?p ?q))], ?q)"
    and C: "\<not> isWhitespace C" by auto
  have skip: "skipWhitespace (ws @ ?p) = ?p"
    using 2(4) C by (simp add: skipWhitespace_dropWhile dropWhile_append2)
  have wq: "window B e ([ch_lf] @ print_lines ls)" using window_suffix [OF w q] by simp
  have rest: "lexLoop B e ?q = map ItemToken (place (e - length (print_lines ls)) ls)"
    using 2(1) [OF _ wq] 2(2) by (simp add: line_not_ident)
  have len: "length ?p \<le> e" using window_unat(3) [OF w q] .
  have off: "e - length ?p + length s = e - length ?q"
    "e - length ?p + length s + 1 = e - length (print_lines ls)"
    using len s by simp_all
  have sp: "makeTokenSpan e ?p ?q
    = Span (of_nat (e - length ?p)) (of_nat (e - length ?p + length s))"
    unfolding off(1) by (simp add: makeTokenSpan_def)
  have "lexLoop B e (ws @ ?p)
    = ItemToken (Token k (makeTokenSpan e ?p ?q)) # lexLoop B e ?q"
    by (subst lexLoop.simps) (simp only: skip list.case tok prod.case append_Cons append_Nil)
  also have "\<dots> = map ItemToken (place (e - length ?p) ((k, s) # ls))"
    unfolding rest sp place.simps off(2) by simp
  finally show ?case using s by simp
qed

lemma token_text:
  assumes "length B < 4294967296" "t \<in> set (tokens_of (lexSpan B sp))"
    "s = slice B (unat (Start (TokenSpan t))) (unat (End (TokenSpan t)))"
  shows "shape (TokenKind t) s
    \<and> (lexeme (TokenKind t) s \<longleftrightarrow> \<not> (\<exists>er. ItemError er \<in> set (lexSpan B sp) \<and> inside (ErrorSpan er) (TokenSpan t)))"
proof -
  from assms(2) have sp: "unat (Start sp) \<le> unat (End sp)" "unat (End sp) \<le> length B"
    by (auto simp: lexSpan_eq split: if_splits)
  let ?p = "take (unat (End sp) - unat (Start sp)) (drop (unat (Start sp)) B)"
  have er: "ItemError er \<in> set (lexSpan B sp) \<longleftrightarrow> ItemError er \<in> set (lexLoop B (unat (End sp)) ?p)" for er
    using sp by (auto simp: lexSpan_eq)
  show ?thesis
  proof (cases "t \<in> set (tokens_of (lexLoop B (unat (End sp)) ?p))")
    case True
    with lexLoop_text [OF window_lexSpan [OF assms(1) sp]] assms(3) show ?thesis by (simp add: er)
  next
    case False
    with assms sp have "t = Token tk_eof (Span (of_nat (length B)) (of_nat (length B)))" "s = []"
      by (auto simp: lexSpan_eq slice_def split: if_splits)
    then show ?thesis by (simp add: inside_def)
  qed
qed

lemma lex_tokens_ordered_le:
  assumes "length B < 4294967296" "t \<in> set (tokens_of (lexSpan B sp))"
  shows "unat (Start (TokenSpan t)) \<le> unat (End (TokenSpan t))"
proof -
  from assms(2) have s: "unat (Start sp) \<le> unat (End sp)" "unat (End sp) \<le> length B"
    by (auto simp: lexSpan_eq split: if_splits)
  with lexLoop_ordered [OF window_lexSpan [OF assms(1) s]] assms show ?thesis
    by (auto simp: lexSpan_eq split: if_splits)
qed

lemma lexLoop_not_eof:
  assumes "window B e p" "t \<in> set (tokens_of (lexLoop B e p))"
  shows "TokenKind t \<noteq> tk_eof"
proof
  assume "TokenKind t = tk_eof"
  with lexLoop_text [OF assms(1)] assms(2)
  have "slice B (unat (Start (TokenSpan t))) (unat (End (TokenSpan t))) = []" by fastforce
  moreover have "e \<le> length B" using assms(1) by (auto simp: window_def)
  ultimately show False using lexLoop_ordered [OF assms(1)] assms(2) by (force simp: slice_def)
qed

section \<open>The properties of the lexer\<close>

text \<open>C23: the tokens of any window come in source order, do not overlap, lie inside the window,
  and are nonempty except for the end-of-file token.\<close>

theorem lex_tokens_ordered:
  assumes "length B < 4294967296"
  shows "sorted_wrt span_le (tokens_of (lexSpan B sp))
    \<and> (\<forall>t\<in>set (tokens_of (lexSpan B sp)).
         unat (Start sp) \<le> unat (Start (TokenSpan t)) \<and> unat (End (TokenSpan t)) \<le> unat (End sp)
         \<and> (if TokenKind t = tk_eof then Start (TokenSpan t) = End (TokenSpan t)
            else unat (Start (TokenSpan t)) < unat (End (TokenSpan t))))"
proof (cases "unat (Start sp) \<le> unat (End sp) \<and> unat (End sp) \<le> length B")
  case True
  let ?p = "take (unat (End sp) - unat (Start sp)) (drop (unat (Start sp)) B)"
  have w: "window B (unat (End sp)) ?p" using window_lexSpan assms True by blast
  from lexLoop_not_eof [OF w] lexLoop_ordered [OF w] True assms show ?thesis
    by (auto simp: lexSpan_eq sorted_wrt_append span_le_def split: if_splits)
next
  case False
  show ?thesis unfolding lexSpan_invalid [OF False] by simp
qed

theorem lex_tokens_ordered_witness:
  "map TokenSpan (tokens_of (lexSpan ''fn f'' (Span 0 4))) = [Span 0 2, Span 3 4, Span 4 4]
    \<and> sorted_wrt span_le (tokens_of (lexSpan ''fn f'' (Span 0 4)))"
proof
  show "map TokenSpan (tokens_of (lexSpan ''fn f'' (Span 0 4))) = [Span 0 2, Span 3 4, Span 4 4]"
    by code_simp
  show "sorted_wrt span_le (tokens_of (lexSpan ''fn f'' (Span 0 4)))"
    using lex_tokens_ordered [of "''fn f''" "Span 0 4"] by simp
qed

text \<open>C6: nothing is lost.  Every byte of the window that is not white space lies in the span of
  some item, token or error, or in a number that is cut off between two underscores in a row and
  reported as an invalid number at \<open>(0, 0)\<close>.\<close>

theorem lex_lossless:
  assumes "length B < 4294967296" "unat (Start sp) \<le> i" "i < unat (End sp)"
    "unat (End sp) \<le> length B" "\<not> isWhitespace (B ! i)"
  shows "(\<exists>x\<in>set (lexSpan B sp). in_span i (item_span x))
    \<or> (\<exists>a b. unat (Start sp) \<le> a \<and> a \<le> i \<and> i < b \<and> b < unat (End sp)
        \<and> broken_number (slice B a b) \<and> B ! b = CHR ''_''
        \<and> ItemError (LexerError InvalidNumericLiteral (Span 0 0)) \<in> set (lexSpan B sp))"
proof -
  let ?p = "take (unat (End sp) - unat (Start sp)) (drop (unat (Start sp)) B)"
  have w: "window B (unat (End sp)) ?p" using window_lexSpan assms by simp
  have i: "i - unat (Start sp) < length ?p" "unat (End sp) - length ?p + (i - unat (Start sp)) = i"
    "?p ! (i - unat (Start sp)) = B ! i" "unat (End sp) - length ?p = unat (Start sp)"
    using assms by simp_all
  have items: "set (lexLoop B (unat (End sp)) ?p) \<subseteq> set (lexSpan B sp)"
    using assms by (simp add: lexSpan_eq)
  from lexLoop_covers [OF w, rule_format, OF i(1)] assms(5)
  have "(\<exists>x\<in>set (lexLoop B (unat (End sp)) ?p). in_span i (item_span x))
    \<or> cut_off B (unat (End sp)) ?p i" unfolding i(2,3) by blast
  then show ?thesis
    using items unfolding cut_off_def i(4) by blast
qed

theorem lex_lossless_witness:
  "(\<exists>x\<in>set (lexSpan ''a #'' (Span 0 3)). in_span 2 (item_span x))
    \<and> (\<exists>a b. a \<le> 0 \<and> 0 < b \<and> b < 4 \<and> broken_number (slice ''1__2'' a b) \<and> ''1__2'' ! b = CHR ''_'')"
proof
  have "ItemError (LexerError InvalidNumericLiteral (Span 0 0)) \<notin> set (lexSpan ''a #'' (Span 0 3))"
    by code_simp
  with lex_lossless [of "''a #''" "Span 0 3" 2]
  show "\<exists>x\<in>set (lexSpan ''a #'' (Span 0 3)). in_span 2 (item_span x)" by (simp add: isWhitespace_def)
  have "\<not> (\<exists>x\<in>set (lexSpan ''1__2'' (Span 0 4)). in_span 0 (item_span x))"
    unfolding in_span_def by code_simp
  with lex_lossless [of "''1__2''" "Span 0 4" 0]
  show "\<exists>a b. a \<le> 0 \<and> 0 < b \<and> b < 4 \<and> broken_number (slice ''1__2'' a b) \<and> ''1__2'' ! b = CHR ''_''"
    by (auto simp: isWhitespace_def)
qed

text \<open>C12: classification is right.  The source text under every token, end of file included, is a
  legal lexeme of the token's kind exactly when the lexer has reported no error inside the token;
  it has the shape of its kind in any case.  Identifiers are words that are neither keywords nor
  reserved, keywords and symbols have their spelling, numbers have digits and single underscores
  in between, strings and characters have legal escapes, a character literal holds one logical
  character, block comments are closed, and no token has the kind \<open>unknown\<close> or a reserved kind.\<close>

theorem lex_token_text:
  assumes "length B < 4294967296" "t \<in> set (tokens_of (lexSpan B sp))"
    "s = slice B (unat (Start (TokenSpan t))) (unat (End (TokenSpan t)))"
  shows "shape (TokenKind t) s
    \<and> (lexeme (TokenKind t) s \<longleftrightarrow> \<not> (\<exists>er. ItemError er \<in> set (lexSpan B sp) \<and> inside (ErrorSpan er) (TokenSpan t)))"
  by (rule token_text [OF assms])

theorem lex_token_text_witness:
  "lexeme tk_char_literal [ch_squote, ch_backslash, CHR ''n'', ch_squote]
    \<and> \<not> lexeme tk_char_literal [ch_squote, ch_backslash, CHR ''q'', ch_squote]"
proof
  let ?B = "[ch_squote, ch_backslash, CHR ''n'', ch_squote]"
  have l: "lexSpan ?B (Span 0 4) = [ItemToken (Token tk_char_literal (Span 0 4)), ItemToken (Token tk_eof (Span 4 4))]"
    by code_simp
  from lex_token_text [of ?B "Token tk_char_literal (Span 0 4)" "Span 0 4", OF _ _ refl]
  show "lexeme tk_char_literal ?B" by (simp add: l slice_def)
next
  let ?B = "[ch_squote, ch_backslash, CHR ''q'', ch_squote]"
  have l: "lexSpan ?B (Span 0 4) = [ItemError (LexerError InvalidEscapeSequence (Span 1 3)),
      ItemToken (Token tk_char_literal (Span 0 4)), ItemToken (Token tk_eof (Span 4 4))]"
    by code_simp
  from lex_token_text [of ?B "Token tk_char_literal (Span 0 4)" "Span 0 4", OF _ _ refl]
  show "\<not> lexeme tk_char_literal ?B" by (simp add: l slice_def inside_def)
qed

lemma lex_printed:
  assumes "\<forall>(k, s)\<in>set ls. plain k s" "length (print_lines ls) < 4294967296"
  shows "lex (print_lines ls) =
    map ItemToken (place 0 ls)
    @ [ItemToken (Token tk_eof (Span (of_nat (length (print_lines ls))) (of_nat (length (print_lines ls)))))]"
proof -
  let ?B = "print_lines ls"
  have w: "window ?B (length ?B) ([] @ ?B)" using assms(2) by (auto simp: window_def)
  have n: "unat (of_nat (length ?B) :: u32) = length ?B" using assms(2) by simp
  have l: "lexLoop ?B (length ?B) ?B = map ItemToken (place 0 ls)"
    using lexLoop_print [OF assms(1) w] by simp
  show ?thesis
    unfolding lex_def lexSpan_eq span.sel n by (simp add: l)
qed

text \<open>C11: round trip.  Lexing a list of lexemes printed one to a line gives one token of the right
  kind and span for each, in order, then end of file, and no error.\<close>

theorem lex_print_lines:
  assumes "\<forall>(k, s)\<in>set ls. plain k s" "length (print_lines ls) < 4294967296"
  shows "lex (print_lines ls) =
    map ItemToken (place 0 ls)
    @ [ItemToken (Token tk_eof (Span (of_nat (length (print_lines ls))) (of_nat (length (print_lines ls)))))]"
  by (rule lex_printed [OF assms])

theorem lex_print_lines_witness:
  "lex (print_lines [(kw_ret, ''ret''), (tk_less_less_eq, ''<<=''), (tk_integer_literal, ''1_0'')])
    = [ItemToken (Token kw_ret (Span 0 3)), ItemToken (Token tk_less_less_eq (Span 4 7)),
       ItemToken (Token tk_integer_literal (Span 8 11)), ItemToken (Token tk_eof (Span 12 12))]"
proof -
  let ?ls = "[(kw_ret, ''ret''), (tk_less_less_eq, ''<<=''), (tk_integer_literal, ''1_0'')]"
  have "isdigit (CHR ''1'')" "isdigit (CHR ''0'')"
    by code_simp+
  then have "plain tk_integer_literal ''1_0''"
    by (simp add: plain_def integer_lexeme_def digits_of_def)
  moreover have "plain kw_ret ''ret''" "plain tk_less_less_eq ''<<=''"
    by (simp_all add: plain_def)
  ultimately have "\<forall>(k, s)\<in>set ?ls. plain k s" by simp
  from lex_print_lines [OF this] show ?thesis by simp
qed

text \<open>C35: the lexer reports at most one item for each byte of the window, plus end of file.\<close>

theorem lex_length:
  assumes "length B < 4294967296"
  shows "length (lexSpan B sp) \<le> Suc (unat (End sp) - unat (Start sp))"
proof (cases "unat (Start sp) \<le> unat (End sp) \<and> unat (End sp) \<le> length B")
  case True
  then have w: "unat (Start sp) \<le> unat (End sp)" "unat (End sp) \<le> length B" by simp_all
  from length_lexLoop [OF window_lexSpan [OF assms w]] w have
    "length (lexLoop B (unat (End sp)) (take (unat (End sp) - unat (Start sp)) (drop (unat (Start sp)) B)))
      \<le> unat (End sp) - unat (Start sp)"
    by simp
  with True show ?thesis by (auto simp: lexSpan_eq)
next
  case False
  show ?thesis unfolding lexSpan_invalid [OF False] by simp
qed

theorem lex_length_witness: "length (lexSpan ''\"'' (Span 0 1)) \<le> 2"
  using lex_length [of "''\"''" "Span 0 1"] by simp

end
