(* ===== verification/SourceManager.thy ===== *)
theory SourceManager
  imports Prelude
begin

text \<open>
  Source buffers and the source manager (\<^verbatim>\<open>include/eter/Base/SourceBuffer.h\<close>,
  \<^verbatim>\<open>include/eter/Base/SourceManager.h\<close>, \<^verbatim>\<open>lib/Base/SourceManager.cpp\<close>): the line
  index, and the resolution of an offset to a line and column with its cache.  \<open>scan\<close> is the
  reference the resolution is compared with: a walk over the bytes.
\<close>

section \<open>State\<close>

record source_buffer =
  Filename :: string
  Contents :: string

datatype source_location = SourceLocation (Line: u32) (Column: u32)

record source_manager =
  Buffer :: source_buffer
  LineStarts :: "u32 list"
  Cache :: "u32 \<rightharpoonup> source_location"

definition makeFromString :: "string \<Rightarrow> string \<Rightarrow> source_buffer" where
  "makeFromString Content Name = \<lparr> Filename = Name, Contents = Content \<rparr>"

definition getBuffer :: "source_manager \<Rightarrow> string" where
  "getBuffer M = Contents (Buffer M)"

definition getFilename :: "source_manager \<Rightarrow> string" where
  "getFilename M = Filename (Buffer M)"

definition sliceSpan :: "source_manager \<Rightarrow> span \<Rightarrow> string" where
  "sliceSpan M sp = slice (getBuffer M) (unat (Start sp)) (unat (End sp))"

section \<open>The line index\<close>

fun lineStartsFrom :: "u32 \<Rightarrow> string \<Rightarrow> u32 list" where
  "lineStartsFrom I [] = []"
| "lineStartsFrom I (c # Data) =
     (if c = ch_lf then (I + 1) # lineStartsFrom (I + 1) Data else lineStartsFrom (I + 1) Data)"

definition buildLineIndex :: "string \<Rightarrow> u32 list" where
  "buildLineIndex Data = 0 # lineStartsFrom 0 Data"

definition newSourceManager :: "source_buffer \<Rightarrow> source_manager" where
  "newSourceManager B =
     \<lparr> Buffer = B, LineStarts = buildLineIndex (Contents B), Cache = Map.empty \<rparr>"

section \<open>Locations\<close>

text \<open>
  \<open>upper_bound\<close> is the algorithm of the standard library on a sorted range: the number of
  elements not greater than the value.  \<open>locate\<close> is the part of \<open>getLocation\<close> after a cache
  miss.
\<close>

definition upper_bound :: "u32 list \<Rightarrow> u32 \<Rightarrow> nat" where
  "upper_bound xs v = length (takeWhile (\<lambda>x. x \<le> v) xs)"

definition locate :: "u32 list \<Rightarrow> u32 \<Rightarrow> source_location" where
  "locate starts Offset =
     (let L = of_nat (upper_bound starts Offset) - 1
      in SourceLocation (L + 1) (Offset - starts ! unat L + 1))"

definition getLocation :: "u32 \<Rightarrow> source_manager \<Rightarrow> source_location \<times> source_manager" where
  "getLocation Offset M =
     (case Cache M Offset of
        Some Loc \<Rightarrow> (Loc, M)
      | None \<Rightarrow>
          let Loc = locate (LineStarts M) Offset
          in (Loc, M \<lparr> Cache := (Cache M)(Offset \<mapsto> Loc) \<rparr>))"

section \<open>Reference: walking over the bytes\<close>

fun scan :: "nat \<Rightarrow> nat \<Rightarrow> string \<Rightarrow> nat \<Rightarrow> nat \<times> nat" where
  "scan l c s 0 = (l, c)"
| "scan l c [] (Suc k) = (l, c + Suc k)"
| "scan l c (x # s) (Suc k) = (if x = ch_lf then scan (Suc l) 1 s k else scan l (Suc c) s k)"

lemma lineStartsFrom_greater:
  "unat I + length s < 4294967296 \<Longrightarrow> x \<in> set (lineStartsFrom I s) \<Longrightarrow> I < x"
proof (induction I s rule: lineStartsFrom.induct)
  case (1 I)
  then show ?case by simp
next
  case (2 I c s)
  have "unat (I + 1) = Suc (unat I)"
    using 2(3) by (intro unat_Suc32 [of _ "unat I + 1"]) auto
  then have "I < I + 1" "unat (I + 1) + length s < 4294967296"
    using 2(3) by (simp_all add: word_less_nat_alt)
  with 2 show ?case by (auto split: if_splits)
qed

lemma length_lineStartsFrom: "length (lineStartsFrom I s) \<le> length s"
  by (induction I s rule: lineStartsFrom.induct) auto

lemma scan_index:
  assumes "unat I + length s < 4294967296" "base \<le> I" "I \<le> offs"
  shows "let starts = base # lineStartsFrom I s; n = upper_bound starts offs in
    0 < n \<and> n \<le> length starts
    \<and> starts ! (n - 1) \<le> offs
    \<and> scan l (unat I - unat base + 1) s (unat offs - unat I)
      = (l + n - 1, unat offs - unat (starts ! (n - 1)) + 1)"
  using assms
proof (induction s arbitrary: I base l)
  case Nil
  then have "base \<le> offs" by simp
  moreover from Nil have "unat base \<le> unat I" "unat I \<le> unat offs"
    by (simp_all add: word_le_nat_alt)
  ultimately show ?case
    by (cases "unat offs - unat I") (auto simp: upper_bound_def)
next
  case (Cons x s)
  have b: "base \<le> offs" using Cons.prems by simp
  have le: "unat base \<le> unat I" "unat I \<le> unat offs"
    using Cons.prems by (simp_all add: word_le_nat_alt)
  show ?case
  proof (cases "I = offs")
    case True
    have "takeWhile (\<lambda>y. y \<le> offs) (lineStartsFrom I (x # s)) = []"
      using lineStartsFrom_greater [OF Cons.prems(1)] True
      by (metis hd_in_set not_le takeWhile_eq_Nil_iff)
    with b True show ?thesis by (simp add: upper_bound_def)
  next
    case False
    then have lt: "unat I < unat offs" using le by (simp add: word_unat_eq_iff)
    have suc: "unat (I + 1) = Suc (unat I)"
      using Cons.prems(1) by (intro unat_Suc32 [of _ "unat I + 1"]) auto
    have I1: "I + 1 \<le> offs" using lt suc by (simp add: word_le_nat_alt)
    have k: "unat offs - unat I = Suc (unat offs - unat (I + 1))" using lt suc by simp
    have room: "unat (I + 1) + length s < 4294967296" using Cons.prems(1) suc by simp
    show ?thesis
    proof (cases "x = ch_lf")
      case True
      from Cons.IH [OF room order_refl I1, of "Suc l"] True b k suc show ?thesis
        by (auto simp: upper_bound_def Let_def nth_Cons split: nat.split)
    next
      case no: False
      have "base \<le> I + 1" using le suc by (simp add: word_le_nat_alt)
      from Cons.IH [OF room this I1, of l] no b k suc le show ?thesis
        by (auto simp: upper_bound_def Let_def Suc_diff_le)
    qed
  qed
qed

lemma locate_scan:
  assumes "Suc (length s) < 4294967296"
  shows "scan 1 1 s (unat offs) =
    (unat (Line (locate (buildLineIndex s) offs)),
     unat (offs - buildLineIndex s ! unat (Line (locate (buildLineIndex s) offs) - 1)) + 1)
    \<and> buildLineIndex s ! unat (Line (locate (buildLineIndex s) offs) - 1) \<le> offs"
proof -
  let ?st = "0 # lineStartsFrom 0 s"
  define n where "n = upper_bound ?st offs"
  from scan_index [of 0 s 0 offs 1] assms have n: "0 < n" "n \<le> length ?st" "?st ! (n - 1) \<le> offs"
    "scan 1 1 s (unat offs) = (n, unat offs - unat (?st ! (n - 1)) + 1)"
    by (auto simp: Let_def n_def)
  have len: "n < 4294967296" using n(2) length_lineStartsFrom [of 0 s] assms by simp
  then have "(of_nat n - 1 :: u32) = of_nat (n - 1)" using n(1) by (simp add: of_nat_diff)
  moreover have "unat (of_nat (n - 1) :: u32) = n - 1" using len by simp
  moreover have "Line (locate (buildLineIndex s) offs) = of_nat n"
    by (simp add: locate_def Let_def buildLineIndex_def n_def)
  ultimately show ?thesis
    using n len unat_sub [OF n(3)] by (simp add: buildLineIndex_def)
qed

section \<open>The cache\<close>

text \<open>A manager of a buffer: its index is that of the buffer and its cache holds results.\<close>

definition manager_wf :: "source_manager \<Rightarrow> bool" where
  "manager_wf M \<longleftrightarrow> LineStarts M = buildLineIndex (getBuffer M)
     \<and> (\<forall>offs Loc. Cache M offs = Some Loc \<longrightarrow> Loc = locate (LineStarts M) offs)"

lemma manager_wf_new: "manager_wf (newSourceManager B)"
  by (simp add: manager_wf_def newSourceManager_def getBuffer_def)

lemma getLocation_wf:
  assumes "manager_wf M" "getLocation offs M = (Loc, M')"
  shows "manager_wf M' \<and> Loc = locate (LineStarts M) offs \<and> LineStarts M' = LineStarts M
    \<and> Buffer M' = Buffer M"
  using assms by (auto simp: getLocation_def manager_wf_def getBuffer_def Let_def
      split: option.splits if_splits)

fun locations :: "u32 list \<Rightarrow> source_manager \<Rightarrow> source_location list \<times> source_manager" where
  "locations [] M = ([], M)"
| "locations (offs # os) M =
     (case getLocation offs M of (Loc, M') \<Rightarrow>
        (case locations os M' of (Ls, M'') \<Rightarrow> (Loc # Ls, M'')))"

lemma locations_wf:
  "manager_wf M \<Longrightarrow> locations os M = (Ls, M') \<Longrightarrow>
     manager_wf M' \<and> Ls = map (locate (LineStarts M)) os \<and> LineStarts M' = LineStarts M
     \<and> Buffer M' = Buffer M"
proof (induction os arbitrary: M Ls)
  case Nil
  then show ?case by simp
next
  case (Cons offs os)
  obtain Loc M1 where g: "getLocation offs M = (Loc, M1)" by (metis prod.exhaust)
  obtain Ls1 where r: "locations os M1 = (Ls1, M')" "Ls = Loc # Ls1"
    using Cons.prems(2) g by (auto split: prod.splits)
  from getLocation_wf [OF Cons.prems(1) g] Cons.IH [OF _ r(1)] r(2) show ?case by simp
qed

lemma location_scan:
  assumes "manager_wf M" "Suc (length (getBuffer M)) < 4294967296" "offs \<noteq> 4294967295"
    "getLocation offs M = (Loc, M')"
  shows "scan 1 1 (getBuffer M) (unat offs) = (unat (Line Loc), unat (Column Loc))"
proof -
  have L: "LineStarts M = buildLineIndex (getBuffer M)" "Loc = locate (buildLineIndex (getBuffer M)) offs"
    using getLocation_wf [OF assms(1,4)] assms(1) by (simp_all add: manager_wf_def)
  let ?s = "buildLineIndex (getBuffer M) ! unat (Line Loc - 1)"
  have col: "Column Loc = offs - ?s + 1" and s: "?s \<le> offs"
    using L locate_scan [OF assms(2), of offs] by (simp_all add: locate_def Let_def)
  have "unat (offs - ?s) < 4294967295"
  proof -
    have "unat offs < 4294967295"
      using assms(3) unsigned_less [of offs, where 'a = nat] by (cases "unat offs = 4294967295")
        (auto simp: word_unat_eq_iff)
    then show ?thesis using unat_sub [OF s] by simp
  qed
  then have "unat (Column Loc) = unat (offs - ?s) + 1"
    using col by (simp add: unat_Suc32)
  with locate_scan [OF assms(2), of offs] L show ?thesis by simp
qed

section \<open>Properties\<close>

text \<open>C31: the line is one more than the number of line feeds before the offset and the column one
  more than the distance to the last of them: \<open>getLocation\<close> agrees with a walk over the bytes,
  at every offset, past the end of the buffer included, and whatever was looked up before.\<close>

theorem getLocation_scan:
  assumes "manager_wf M" "Suc (length (getBuffer M)) < 4294967296" "offs \<noteq> 4294967295"
    "getLocation offs M = (Loc, M')"
  shows "scan 1 1 (getBuffer M) (unat offs) = (unat (Line Loc), unat (Column Loc))"
  by (rule location_scan [OF assms])

theorem getLocation_scan_witness:
  "scan 1 1 [CHR ''a'', ch_lf, CHR ''b'', CHR ''c''] 3 = (2, 2)
   \<and> fst (getLocation 3 (newSourceManager (makeFromString [CHR ''a'', ch_lf, CHR ''b'', CHR ''c''] ''f'')))
     = SourceLocation 2 2"
proof -
  let ?M = "newSourceManager (makeFromString [CHR ''a'', ch_lf, CHR ''b'', CHR ''c''] ''f'')"
  have b: "getBuffer ?M = [CHR ''a'', ch_lf, CHR ''b'', CHR ''c'']"
    by (simp add: getBuffer_def newSourceManager_def makeFromString_def)
  have g: "fst (getLocation 3 ?M) = SourceLocation 2 2"
    by code_simp
  then obtain M' where "getLocation 3 ?M = (SourceLocation 2 2, M')"
    by (metis prod.collapse)
  from getLocation_scan [OF manager_wf_new _ _ this] b g show ?thesis by simp
qed

text \<open>C32: the cache is transparent.  In any sequence of lookups every answer is the one a fresh
  manager of the same buffer gives, and the buffer and the index do not change.\<close>

theorem getLocation_cache_transparent:
  assumes "locations os (newSourceManager B) = (Ls, M')"
  shows "Ls = map (\<lambda>offs. fst (getLocation offs (newSourceManager B))) os
    \<and> Buffer M' = B \<and> LineStarts M' = buildLineIndex (Contents B)"
proof -
  have "fst (getLocation offs (newSourceManager B)) = locate (buildLineIndex (Contents B)) offs" for offs
    by (simp add: getLocation_def newSourceManager_def Let_def)
  with locations_wf [OF manager_wf_new assms] show ?thesis
    by (simp add: newSourceManager_def)
qed

theorem getLocation_cache_transparent_witness:
  "fst (locations [2, 2] (newSourceManager (makeFromString [ch_lf, ch_lf, CHR ''x''] ''f'')))
    = [SourceLocation 3 1, SourceLocation 3 1]"
proof -
  let ?M = "newSourceManager (makeFromString [ch_lf, ch_lf, CHR ''x''] ''f'')"
  obtain Ls M' where r: "locations [2, 2] ?M = (Ls, M')" by (metis prod.exhaust)
  have "fst (getLocation 2 ?M) = SourceLocation 3 1" by code_simp
  with getLocation_cache_transparent [OF r] r show ?thesis by simp
qed

end
