(* ===== verification/TokenStream.thy ===== *)
theory TokenStream
  imports LexerProps
begin

text \<open>
  The parser's view of the token list (\<^verbatim>\<open>include/eter/Parser/TokenStream.h\<close>,
  \<^verbatim>\<open>lib/Parser/TokenStream.cpp\<close>).  The cursor is a 32-bit integer and \<open>peek\<close> adds to
  it modulo \<open>2 ^ 32\<close>.  \<open>rest\<close> is the abstract view, the list of tokens not yet consumed,
  which the operations are shown to refine.
\<close>

record token_stream =
  Tokens :: "token list"
  LexErrors :: "lexer_error list"
  Source :: string
  Cursor :: u32

section \<open>Operations\<close>

text \<open>The loop of the constructor.\<close>

fun collectItems :: "lexer_item list \<Rightarrow> token list \<times> lexer_error list" where
  "collectItems [] = ([], [])"
| "collectItems (ItemToken T # Items) =
     (case collectItems Items of (ts, es) \<Rightarrow>
        if TokenKind T = tk_comment then (ts, es) else (T # ts, es))"
| "collectItems (ItemError Err # Items) =
     (case collectItems Items of (ts, es) \<Rightarrow>
        (Token tk_unknown (ErrorSpan Err) # ts, Err # es))"

definition newTokenStream :: "lexer_item list \<Rightarrow> string \<Rightarrow> token_stream" where
  "newTokenStream Items Src =
     (case collectItems Items of (ts, es) \<Rightarrow>
        \<lparr> Tokens = ts, LexErrors = es, Source = Src, Cursor = 0 \<rparr>)"

text \<open>The end-of-file token made up when the cursor is past the last token.\<close>

definition eofToken :: "token_stream \<Rightarrow> token" where
  "eofToken TS =
     (let EndOff = (if Tokens TS = [] then 0 else End (TokenSpan (last (Tokens TS))))
      in Token tk_eof (Span EndOff EndOff))"

definition peek :: "u32 \<Rightarrow> token_stream \<Rightarrow> kind" where
  "peek Offset TS =
     (let Idx = Cursor TS + Offset in
      if unat Idx \<ge> length (Tokens TS) then tk_eof else TokenKind (Tokens TS ! unat Idx))"

definition peekToken :: "u32 \<Rightarrow> token_stream \<Rightarrow> token" where
  "peekToken Offset TS =
     (let Idx = Cursor TS + Offset in
      if unat Idx \<ge> length (Tokens TS) then eofToken TS else Tokens TS ! unat Idx)"

definition previous :: "token_stream \<Rightarrow> token" where
  "previous TS =
     (if Cursor TS = 0 then
        Token tk_eof (if Tokens TS = [] then Span 0 0 else TokenSpan (hd (Tokens TS)))
      else Tokens TS ! unat (Cursor TS - 1))"

definition check :: "kind \<Rightarrow> token_stream \<Rightarrow> bool" where
  "check K TS \<longleftrightarrow> peek 0 TS = K"

definition atEof :: "token_stream \<Rightarrow> bool" where
  "atEof TS = check tk_eof TS"

definition advance :: "token_stream \<Rightarrow> token \<times> token_stream" where
  "advance TS =
     (if unat (Cursor TS) < length (Tokens TS)
      then (Tokens TS ! unat (Cursor TS), TS \<lparr> Cursor := Cursor TS + 1 \<rparr>)
      else (eofToken TS, TS))"

definition consume :: "kind \<Rightarrow> token_stream \<Rightarrow> bool \<times> token_stream" where
  "consume K TS = (if \<not> check K TS then (False, TS) else (True, snd (advance TS)))"

definition textOf :: "token_stream \<Rightarrow> span \<Rightarrow> string" where
  "textOf TS S = substr (Source TS) (unat (Start S)) (unat (End S - Start S))"

section \<open>The abstract view\<close>

definition stream_wf :: "token_stream \<Rightarrow> bool" where
  "stream_wf TS \<longleftrightarrow> length (Tokens TS) < 4294967296 \<and> unat (Cursor TS) \<le> length (Tokens TS)"

definition rest :: "token_stream \<Rightarrow> token list" where
  "rest TS = drop (unat (Cursor TS)) (Tokens TS)"

definition remaining :: "token_stream \<Rightarrow> nat" where
  "remaining TS = length (Tokens TS) - unat (Cursor TS)"

lemma length_rest [simp]: "length (rest TS) = remaining TS"
  by (simp add: rest_def remaining_def)

lemma stream_wf_new:
  "length Items < 4294967296 \<Longrightarrow> stream_wf (newTokenStream Items Src)"
proof -
  have "length (fst (collectItems Items)) \<le> length Items"
    by (induction Items rule: collectItems.induct) (auto split: prod.splits)
  then show "length Items < 4294967296 \<Longrightarrow> ?thesis"
    by (auto simp: newTokenStream_def stream_wf_def split: prod.splits)
qed

lemma cursor_add:
  assumes "stream_wf TS" "unat k + length (Tokens TS) < 4294967296"
  shows "unat (Cursor TS + k) = unat (Cursor TS) + unat k"
proof -
  have "unat (Cursor TS) + unat k < 2 ^ LENGTH(32)"
    using assms by (simp add: stream_wf_def)
  then show ?thesis by (rule unat_add_lem [THEN iffD1])
qed

lemma rest_cases:
  obtains (empty) "length (Tokens TS) \<le> unat (Cursor TS)" "rest TS = []"
  | (more) "unat (Cursor TS) < length (Tokens TS)"
    "rest TS = Tokens TS ! unat (Cursor TS) # drop (Suc (unat (Cursor TS))) (Tokens TS)"
  by (metis Cons_nth_drop_Suc drop_all not_le rest_def)

lemma peek_0: "peek 0 TS = (case rest TS of [] \<Rightarrow> tk_eof | t # _ \<Rightarrow> TokenKind t)"
  by (cases rule: rest_cases [of TS]) (simp_all add: peek_def)

lemma peekToken_0: "peekToken 0 TS = (case rest TS of [] \<Rightarrow> eofToken TS | t # _ \<Rightarrow> t)"
  by (cases rule: rest_cases [of TS]) (simp_all add: peekToken_def)

lemma TokenKind_peekToken: "TokenKind (peekToken 0 TS) = peek 0 TS"
  by (simp add: peek_0 peekToken_0 eofToken_def Let_def split: list.split)

lemma advance_wf: "stream_wf TS \<Longrightarrow> stream_wf (snd (advance TS))"
  by (auto simp: advance_def stream_wf_def unat_Suc32)

lemma advance_rest: "stream_wf TS \<Longrightarrow> rest (snd (advance TS)) = tl (rest TS)"
  by (auto simp: advance_def rest_def stream_wf_def unat_Suc32 tl_drop drop_Suc)

lemma advance_remaining: "stream_wf TS \<Longrightarrow> remaining (snd (advance TS)) = remaining TS - 1"
  using arg_cong [OF advance_rest, of TS length] by simp

lemma advance_fst: "fst (advance TS) = peekToken 0 TS"
  by (simp add: advance_def peekToken_def)

lemma advance_same [simp]:
  "Tokens (snd (advance TS)) = Tokens TS" "LexErrors (snd (advance TS)) = LexErrors TS"
  "Source (snd (advance TS)) = Source TS"
  by (simp_all add: advance_def)


text \<open>
  What the parser asks of its source of tokens: a state that stands for a list of tokens, a look
  at its head and a step that takes the head off.
\<close>

locale token_source =
  fixes valid :: "'s \<Rightarrow> bool"
    and rest_of :: "'s \<Rightarrow> token list"
    and look :: "'s \<Rightarrow> kind"
    and take_one :: "'s \<Rightarrow> token \<times> 's"
  assumes take_valid: "valid s \<Longrightarrow> valid (snd (take_one s))"
    and take_rest: "valid s \<Longrightarrow> rest_of (snd (take_one s)) = tl (rest_of s)"
    and take_fst: "rest_of s \<noteq> [] \<Longrightarrow> fst (take_one s) = hd (rest_of s)"
    and look_rest: "look s = (case rest_of s of [] \<Rightarrow> tk_eof | t # _ \<Rightarrow> TokenKind t)"
begin

fun take_many :: "nat \<Rightarrow> 's \<Rightarrow> token list \<times> 's" where
  "take_many 0 s = ([], s)"
| "take_many (Suc n) s =
     (case take_one s of (t, s') \<Rightarrow> (case take_many n s' of (ts, s'') \<Rightarrow> (t # ts, s'')))"

lemma take_many_rest:
  "valid s \<Longrightarrow> take_many n s = (ts, s') \<Longrightarrow>
     valid s' \<and> rest_of s' = drop n (rest_of s) \<and>
     (n \<le> length (rest_of s) \<longrightarrow> ts = take n (rest_of s))"
proof (induction n arbitrary: s ts)
  case 0
  then show ?case by simp
next
  case (Suc n)
  obtain t s1 ts1 where t: "take_one s = (t, s1)" "take_many n s1 = (ts1, s')" "ts = t # ts1"
    using Suc.prems(2) by (auto split: prod.splits)
  have s1: "valid s1" "rest_of s1 = tl (rest_of s)"
    using take_valid [OF Suc.prems(1)] take_rest [OF Suc.prems(1)] t(1) by simp_all
  from Suc.IH [OF s1(1) t(2)] s1(2) t(3) take_fst [of s] t(1) show ?case
    by (cases "rest_of s") auto
qed

lemma look_step: "rest_of s \<noteq> [] \<Longrightarrow> look s = TokenKind (fst (take_one s))"
  by (cases "rest_of s") (simp_all add: look_rest take_fst)

end

interpretation toks: token_source stream_wf rest "peek 0" advance
proof
  show "fst (advance s) = hd (rest s)" if "rest s \<noteq> []" for s
    using that by (cases "rest s") (simp_all add: advance_fst peekToken_0)
qed (simp_all add: advance_wf advance_rest peek_0)

section \<open>Streams of lexed sources\<close>

lemma collectItems_tokens:
  "collectItems Items = (ts, es) \<Longrightarrow>
     (\<forall>t\<in>set ts. TokenKind t \<noteq> tk_unknown \<longrightarrow> ItemToken t \<in> set Items \<and> TokenKind t \<noteq> tk_comment)
     \<and> (\<forall>t. ItemToken t \<in> set Items \<longrightarrow> TokenKind t \<noteq> tk_comment \<longrightarrow> t \<in> set ts)
     \<and> (\<forall>er. ItemError er \<in> set Items \<longleftrightarrow> er \<in> set es)
     \<and> (es = [] \<or> (\<exists>t\<in>set ts. TokenKind t = tk_unknown)) \<and> length ts \<le> length Items"
proof (induction Items arbitrary: ts es rule: collectItems.induct)
  case 1
  then show ?case by simp
next
  case (2 T Items)
  obtain us fs where r: "collectItems Items = (us, fs)" by (metis prod.exhaust)
  with 2(2) have "ts = (if TokenKind T = tk_comment then us else T # us)" "es = fs"
    by (auto split: if_splits)
  with 2(1) [OF r] show ?case by auto
next
  case (3 Err Items)
  obtain us fs where r: "collectItems Items = (us, fs)" by (metis prod.exhaust)
  with 3(2) have "ts = Token tk_unknown (ErrorSpan Err) # us" "es = Err # fs" by auto
  with 3(1) [OF r] show ?case by auto
qed

lemma collectItems_unknown:
  "collectItems Items = (ts, es) \<Longrightarrow> t \<in> set ts \<Longrightarrow>
     ItemToken t \<in> set Items \<or> (\<exists>er\<in>set es. t = Token tk_unknown (ErrorSpan er))"
  by (induction Items arbitrary: ts es rule: collectItems.induct)
    (auto split: prod.splits if_splits)

lemma collectItems_snoc_eof:
  "TokenKind T \<noteq> tk_comment \<Longrightarrow>
     fst (collectItems (Items @ [ItemToken T])) = fst (collectItems Items) @ [T]"
  by (induction Items rule: collectItems.induct) (auto split: prod.splits)

lemma lex_snoc_eof:
  "length B < 4294967296 \<Longrightarrow>
     lex B = lexLoop B (length B) B
       @ [ItemToken (Token tk_eof (Span (of_nat (length B)) (of_nat (length B))))]"
  by (simp add: lex_def lexSpan_eq)

section \<open>Properties\<close>

text \<open>C25: the stream is a list.  Advancing \<open>n\<close> times from a fresh stream returns the first \<open>n\<close>
  tokens collected from the lexer's items, comments dropped and errors turned into \<open>unknown\<close>
  tokens in place, and leaves the others; what \<open>peek\<close> says next is the kind of the next one,
  or end of file when there is none.\<close>

theorem advance_refines_list:
  assumes "length Items < 4294967296" "collectItems Items = (all, es)" "n \<le> length all"
    "toks.take_many n (newTokenStream Items Src) = (ts, TS)"
  shows "ts = take n all \<and> rest TS = drop n all
    \<and> peek 0 TS = (if n < length all then TokenKind (all ! n) else tk_eof)"
proof -
  have r: "rest (newTokenStream Items Src) = all"
    using assms(2) by (simp add: rest_def newTokenStream_def)
  from toks.take_many_rest [OF stream_wf_new [OF assms(1)] assms(4)] assms(3) r
  have t: "ts = take n all" "rest TS = drop n all" by simp_all
  show ?thesis
  proof (cases "n < length all")
    case True
    with t show ?thesis by (simp add: peek_0 Cons_nth_drop_Suc [symmetric])
  next
    case False
    with t show ?thesis by (simp add: peek_0)
  qed
qed

theorem advance_refines_list_witness:
  "fst (toks.take_many 1 (newTokenStream [ItemToken (Token tk_comment (Span 0 2)), ItemToken (Token kw_if (Span 3 5))] ''//if''))
    = [Token kw_if (Span 3 5)]"
proof -
  let ?Items = "[ItemToken (Token tk_comment (Span 0 2)), ItemToken (Token kw_if (Span 3 5))]"
  obtain ts TS where r: "toks.take_many 1 (newTokenStream ?Items ''//if'') = (ts, TS)"
    by (metis prod.exhaust)
  have "collectItems ?Items = ([Token kw_if (Span 3 5)], [])" by simp
  from advance_refines_list [OF _ this _ r] r show ?thesis by simp
qed

text \<open>C24: the stream the parser reads.  In the stream built from the lexer's output for a source
  text, every token but the \<open>unknown\<close> ones is not a comment, and its text, as \<open>textOf\<close> reads
  it, has the shape of its kind and is a legal lexeme exactly when no lexer error lies inside it;
  the lexer errors are kept, and none is kept exactly when there is
  no \<open>unknown\<close> token; and the last token is the end of file at the end of the source.\<close>

theorem stream_of_source:
  assumes "length B < 4294967296"
  shows "let TS = newTokenStream (lex B) B in
    (\<forall>t\<in>set (Tokens TS). TokenKind t \<noteq> tk_unknown \<longrightarrow>
       TokenKind t \<noteq> tk_comment \<and> shape (TokenKind t) (textOf TS (TokenSpan t))
       \<and> (lexeme (TokenKind t) (textOf TS (TokenSpan t))
          \<longleftrightarrow> \<not> (\<exists>er\<in>set (LexErrors TS). inside (ErrorSpan er) (TokenSpan t))))
    \<and> (LexErrors TS = [] \<longleftrightarrow> (\<forall>t\<in>set (Tokens TS). TokenKind t \<noteq> tk_unknown))
    \<and> set (LexErrors TS) = {er. ItemError er \<in> set (lex B)}
    \<and> Tokens TS \<noteq> [] \<and> last (Tokens TS) = Token tk_eof (Span (of_nat (length B)) (of_nat (length B)))"
proof -
  obtain ts es where c: "collectItems (lex B) = (ts, es)" by (metis prod.exhaust)
  let ?TS = "newTokenStream (lex B) B"
  have TS: "Tokens ?TS = ts" "LexErrors ?TS = es" "Source ?TS = B"
    by (simp_all add: newTokenStream_def c)
  note col = collectItems_tokens [OF c]
  have tok: "t \<in> set (tokens_of (lexSpan B (Span 0 (of_nat (length B)))))"
    if "t \<in> set ts" "TokenKind t \<noteq> tk_unknown" for t
    using col that by (auto simp: set_tokens_of lex_def)
  have er: "er \<in> set es \<longleftrightarrow> ItemError er \<in> set (lexSpan B (Span 0 (of_nat (length B))))" for er
    using col by (simp add: lex_def)
  have tx: "shape (TokenKind t) (textOf ?TS (TokenSpan t))
      \<and> (lexeme (TokenKind t) (textOf ?TS (TokenSpan t)) \<longleftrightarrow> \<not> (\<exists>er\<in>set es. inside (ErrorSpan er) (TokenSpan t)))"
    if t: "t \<in> set ts" "TokenKind t \<noteq> tk_unknown" for t
  proof -
    from lex_tokens_ordered_le [OF assms tok [OF t]]
    have "Start (TokenSpan t) \<le> End (TokenSpan t)" by (simp add: word_le_nat_alt)
    then have "textOf ?TS (TokenSpan t)
      = slice B (unat (Start (TokenSpan t))) (unat (End (TokenSpan t)))"
      by (simp add: textOf_def TS substr_def slice_def unat_sub)
    from token_text [OF assms tok [OF t] this] show ?thesis by (simp add: Bex_def er)
  qed
  have unk: "TokenKind t \<noteq> tk_unknown" if "es = []" "t \<in> set ts" for t
    using that c collectItems_unknown [OF c] token_text [OF assms _ refl] col
    by (metis shape_special(2) set_tokens_of lex_def empty_iff list.set(1))
  have "fst (collectItems (lex B))
      = fst (collectItems (lexLoop B (length B) B))
        @ [Token tk_eof (Span (of_nat (length B)) (of_nat (length B)))]"
    unfolding lex_snoc_eof [OF assms] by (rule collectItems_snoc_eof) simp
  then have last: "ts = fst (collectItems (lexLoop B (length B) B))
        @ [Token tk_eof (Span (of_nat (length B)) (of_nat (length B)))]"
    using c by simp
  show ?thesis
    using tx unk col last by (auto simp: Let_def TS)
qed

theorem stream_of_source_witness:
  "last (Tokens (newTokenStream (lex ''fn'') ''fn'')) = Token tk_eof (Span 2 2)"
  using stream_of_source [of "''fn''"] by (simp add: Let_def)

end
