(* ===== verification/NodeKinds.thy ===== *)
theory NodeKinds
  imports Prelude
begin

text \<open>
  Node kinds of the syntax tree (\<^verbatim>\<open>include/eter/Parser/NodeKinds.def\<close>).  As for the
  tokens, the enumeration is modelled section by section, with an abbreviation \<open>nk_X\<close> for
  each enumerator \<^verbatim>\<open>NodeKind::X\<close>.
\<close>

section \<open>Kinds\<close>

datatype (plugins only: code) general_node =
    G_Error | G_SourceFile | G_ArgList | G_DocComment | G_FileDocComment

datatype (plugins only: code) decl_node =
    D_FnDecl | D_StructDecl | D_EnumDecl | D_UnionDecl | D_ModDecl | D_ModDeclFile |
    D_UseDecl | D_ConstDecl | D_TraitDecl | D_ImplDecl | D_StructField | D_EnumVariantUnit |
    D_EnumVariantTuple | D_EnumVariantStruct | D_Param | D_ParamList

datatype (plugins only: code) generic_node =
    N_GenericParam | N_GenericParamList | N_GenericArgList

datatype (plugins only: code) stmt_node =
    S_LetStmt | S_ExprStmt | S_RetStmt | S_ForStmt | S_WhileStmt | S_BreakStmt |
    S_ContinueStmt | S_UnsafeBlock

datatype (plugins only: code) expr_node =
    E_BlockExpr | E_IfExpr | E_MatchExpr | E_MatchArm | E_BinaryExpr | E_UnaryExpr |
    E_CastExpr | E_ProjAssignExpr | E_CallExpr | E_IndexExpr | E_TensorIndexExpr |
    E_FieldExpr | E_TupleIndexExpr | E_StructLitExpr | E_ArrayLitExpr | E_ArrayRepeatExpr |
    E_TensorLitExpr | E_TupleExpr | E_FieldInit | E_IdentExpr | E_PathExpr | E_LitExpr |
    E_PropagateExpr

datatype (plugins only: code) type_node =
    T_NamedType | T_ArrayType | T_TensorType | T_TupleType | T_AttrType

datatype (plugins only: code) pat_node =
    P_WildcardPat | P_LiteralPat | P_IdentPat | P_StructPat | P_TuplePat | P_FieldPat

datatype node_kind =
    General general_node | Decl decl_node | Generic generic_node | Stmt stmt_node |
    Expr expr_node | Typ type_node | Pat pat_node

abbreviation nk_Error :: node_kind where "nk_Error \<equiv> General G_Error"
abbreviation nk_SourceFile :: node_kind where "nk_SourceFile \<equiv> General G_SourceFile"
abbreviation nk_ArgList :: node_kind where "nk_ArgList \<equiv> General G_ArgList"
abbreviation nk_DocComment :: node_kind where "nk_DocComment \<equiv> General G_DocComment"
abbreviation nk_FileDocComment :: node_kind where "nk_FileDocComment \<equiv> General G_FileDocComment"
abbreviation nk_FnDecl :: node_kind where "nk_FnDecl \<equiv> Decl D_FnDecl"
abbreviation nk_StructDecl :: node_kind where "nk_StructDecl \<equiv> Decl D_StructDecl"
abbreviation nk_EnumDecl :: node_kind where "nk_EnumDecl \<equiv> Decl D_EnumDecl"
abbreviation nk_UnionDecl :: node_kind where "nk_UnionDecl \<equiv> Decl D_UnionDecl"
abbreviation nk_ModDecl :: node_kind where "nk_ModDecl \<equiv> Decl D_ModDecl"
abbreviation nk_ModDeclFile :: node_kind where "nk_ModDeclFile \<equiv> Decl D_ModDeclFile"
abbreviation nk_UseDecl :: node_kind where "nk_UseDecl \<equiv> Decl D_UseDecl"
abbreviation nk_ConstDecl :: node_kind where "nk_ConstDecl \<equiv> Decl D_ConstDecl"
abbreviation nk_TraitDecl :: node_kind where "nk_TraitDecl \<equiv> Decl D_TraitDecl"
abbreviation nk_ImplDecl :: node_kind where "nk_ImplDecl \<equiv> Decl D_ImplDecl"
abbreviation nk_StructField :: node_kind where "nk_StructField \<equiv> Decl D_StructField"
abbreviation nk_EnumVariantUnit :: node_kind where "nk_EnumVariantUnit \<equiv> Decl D_EnumVariantUnit"
abbreviation nk_EnumVariantTuple :: node_kind where "nk_EnumVariantTuple \<equiv> Decl D_EnumVariantTuple"
abbreviation nk_EnumVariantStruct :: node_kind where "nk_EnumVariantStruct \<equiv> Decl D_EnumVariantStruct"
abbreviation nk_Param :: node_kind where "nk_Param \<equiv> Decl D_Param"
abbreviation nk_ParamList :: node_kind where "nk_ParamList \<equiv> Decl D_ParamList"
abbreviation nk_GenericParam :: node_kind where "nk_GenericParam \<equiv> Generic N_GenericParam"
abbreviation nk_GenericParamList :: node_kind where "nk_GenericParamList \<equiv> Generic N_GenericParamList"
abbreviation nk_GenericArgList :: node_kind where "nk_GenericArgList \<equiv> Generic N_GenericArgList"
abbreviation nk_LetStmt :: node_kind where "nk_LetStmt \<equiv> Stmt S_LetStmt"
abbreviation nk_ExprStmt :: node_kind where "nk_ExprStmt \<equiv> Stmt S_ExprStmt"
abbreviation nk_RetStmt :: node_kind where "nk_RetStmt \<equiv> Stmt S_RetStmt"
abbreviation nk_ForStmt :: node_kind where "nk_ForStmt \<equiv> Stmt S_ForStmt"
abbreviation nk_WhileStmt :: node_kind where "nk_WhileStmt \<equiv> Stmt S_WhileStmt"
abbreviation nk_BreakStmt :: node_kind where "nk_BreakStmt \<equiv> Stmt S_BreakStmt"
abbreviation nk_ContinueStmt :: node_kind where "nk_ContinueStmt \<equiv> Stmt S_ContinueStmt"
abbreviation nk_UnsafeBlock :: node_kind where "nk_UnsafeBlock \<equiv> Stmt S_UnsafeBlock"
abbreviation nk_BlockExpr :: node_kind where "nk_BlockExpr \<equiv> Expr E_BlockExpr"
abbreviation nk_IfExpr :: node_kind where "nk_IfExpr \<equiv> Expr E_IfExpr"
abbreviation nk_MatchExpr :: node_kind where "nk_MatchExpr \<equiv> Expr E_MatchExpr"
abbreviation nk_MatchArm :: node_kind where "nk_MatchArm \<equiv> Expr E_MatchArm"
abbreviation nk_BinaryExpr :: node_kind where "nk_BinaryExpr \<equiv> Expr E_BinaryExpr"
abbreviation nk_UnaryExpr :: node_kind where "nk_UnaryExpr \<equiv> Expr E_UnaryExpr"
abbreviation nk_CastExpr :: node_kind where "nk_CastExpr \<equiv> Expr E_CastExpr"
abbreviation nk_ProjAssignExpr :: node_kind where "nk_ProjAssignExpr \<equiv> Expr E_ProjAssignExpr"
abbreviation nk_CallExpr :: node_kind where "nk_CallExpr \<equiv> Expr E_CallExpr"
abbreviation nk_IndexExpr :: node_kind where "nk_IndexExpr \<equiv> Expr E_IndexExpr"
abbreviation nk_TensorIndexExpr :: node_kind where "nk_TensorIndexExpr \<equiv> Expr E_TensorIndexExpr"
abbreviation nk_FieldExpr :: node_kind where "nk_FieldExpr \<equiv> Expr E_FieldExpr"
abbreviation nk_TupleIndexExpr :: node_kind where "nk_TupleIndexExpr \<equiv> Expr E_TupleIndexExpr"
abbreviation nk_StructLitExpr :: node_kind where "nk_StructLitExpr \<equiv> Expr E_StructLitExpr"
abbreviation nk_ArrayLitExpr :: node_kind where "nk_ArrayLitExpr \<equiv> Expr E_ArrayLitExpr"
abbreviation nk_ArrayRepeatExpr :: node_kind where "nk_ArrayRepeatExpr \<equiv> Expr E_ArrayRepeatExpr"
abbreviation nk_TensorLitExpr :: node_kind where "nk_TensorLitExpr \<equiv> Expr E_TensorLitExpr"
abbreviation nk_TupleExpr :: node_kind where "nk_TupleExpr \<equiv> Expr E_TupleExpr"
abbreviation nk_FieldInit :: node_kind where "nk_FieldInit \<equiv> Expr E_FieldInit"
abbreviation nk_IdentExpr :: node_kind where "nk_IdentExpr \<equiv> Expr E_IdentExpr"
abbreviation nk_PathExpr :: node_kind where "nk_PathExpr \<equiv> Expr E_PathExpr"
abbreviation nk_LitExpr :: node_kind where "nk_LitExpr \<equiv> Expr E_LitExpr"
abbreviation nk_PropagateExpr :: node_kind where "nk_PropagateExpr \<equiv> Expr E_PropagateExpr"
abbreviation nk_NamedType :: node_kind where "nk_NamedType \<equiv> Typ T_NamedType"
abbreviation nk_ArrayType :: node_kind where "nk_ArrayType \<equiv> Typ T_ArrayType"
abbreviation nk_TensorType :: node_kind where "nk_TensorType \<equiv> Typ T_TensorType"
abbreviation nk_TupleType :: node_kind where "nk_TupleType \<equiv> Typ T_TupleType"
abbreviation nk_AttrType :: node_kind where "nk_AttrType \<equiv> Typ T_AttrType"
abbreviation nk_WildcardPat :: node_kind where "nk_WildcardPat \<equiv> Pat P_WildcardPat"
abbreviation nk_LiteralPat :: node_kind where "nk_LiteralPat \<equiv> Pat P_LiteralPat"
abbreviation nk_IdentPat :: node_kind where "nk_IdentPat \<equiv> Pat P_IdentPat"
abbreviation nk_StructPat :: node_kind where "nk_StructPat \<equiv> Pat P_StructPat"
abbreviation nk_TuplePat :: node_kind where "nk_TuplePat \<equiv> Pat P_TuplePat"
abbreviation nk_FieldPat :: node_kind where "nk_FieldPat \<equiv> Pat P_FieldPat"

section \<open>Names and numbers\<close>

primrec general_node_name :: "general_node \<Rightarrow> string" where
  "general_node_name G_Error = ''Error''"
| "general_node_name G_SourceFile = ''SourceFile''"
| "general_node_name G_ArgList = ''ArgList''"
| "general_node_name G_DocComment = ''DocComment''"
| "general_node_name G_FileDocComment = ''FileDocComment''"

primrec decl_node_name :: "decl_node \<Rightarrow> string" where
  "decl_node_name D_FnDecl = ''FnDecl''"
| "decl_node_name D_StructDecl = ''StructDecl''"
| "decl_node_name D_EnumDecl = ''EnumDecl''"
| "decl_node_name D_UnionDecl = ''UnionDecl''"
| "decl_node_name D_ModDecl = ''ModDecl''"
| "decl_node_name D_ModDeclFile = ''ModDeclFile''"
| "decl_node_name D_UseDecl = ''UseDecl''"
| "decl_node_name D_ConstDecl = ''ConstDecl''"
| "decl_node_name D_TraitDecl = ''TraitDecl''"
| "decl_node_name D_ImplDecl = ''ImplDecl''"
| "decl_node_name D_StructField = ''StructField''"
| "decl_node_name D_EnumVariantUnit = ''EnumVariantUnit''"
| "decl_node_name D_EnumVariantTuple = ''EnumVariantTuple''"
| "decl_node_name D_EnumVariantStruct = ''EnumVariantStruct''"
| "decl_node_name D_Param = ''Param''"
| "decl_node_name D_ParamList = ''ParamList''"

primrec generic_node_name :: "generic_node \<Rightarrow> string" where
  "generic_node_name N_GenericParam = ''GenericParam''"
| "generic_node_name N_GenericParamList = ''GenericParamList''"
| "generic_node_name N_GenericArgList = ''GenericArgList''"

primrec stmt_node_name :: "stmt_node \<Rightarrow> string" where
  "stmt_node_name S_LetStmt = ''LetStmt''"
| "stmt_node_name S_ExprStmt = ''ExprStmt''"
| "stmt_node_name S_RetStmt = ''RetStmt''"
| "stmt_node_name S_ForStmt = ''ForStmt''"
| "stmt_node_name S_WhileStmt = ''WhileStmt''"
| "stmt_node_name S_BreakStmt = ''BreakStmt''"
| "stmt_node_name S_ContinueStmt = ''ContinueStmt''"
| "stmt_node_name S_UnsafeBlock = ''UnsafeBlock''"

primrec expr_node_name :: "expr_node \<Rightarrow> string" where
  "expr_node_name E_BlockExpr = ''BlockExpr''"
| "expr_node_name E_IfExpr = ''IfExpr''"
| "expr_node_name E_MatchExpr = ''MatchExpr''"
| "expr_node_name E_MatchArm = ''MatchArm''"
| "expr_node_name E_BinaryExpr = ''BinaryExpr''"
| "expr_node_name E_UnaryExpr = ''UnaryExpr''"
| "expr_node_name E_CastExpr = ''CastExpr''"
| "expr_node_name E_ProjAssignExpr = ''ProjAssignExpr''"
| "expr_node_name E_CallExpr = ''CallExpr''"
| "expr_node_name E_IndexExpr = ''IndexExpr''"
| "expr_node_name E_TensorIndexExpr = ''TensorIndexExpr''"
| "expr_node_name E_FieldExpr = ''FieldExpr''"
| "expr_node_name E_TupleIndexExpr = ''TupleIndexExpr''"
| "expr_node_name E_StructLitExpr = ''StructLitExpr''"
| "expr_node_name E_ArrayLitExpr = ''ArrayLitExpr''"
| "expr_node_name E_ArrayRepeatExpr = ''ArrayRepeatExpr''"
| "expr_node_name E_TensorLitExpr = ''TensorLitExpr''"
| "expr_node_name E_TupleExpr = ''TupleExpr''"
| "expr_node_name E_FieldInit = ''FieldInit''"
| "expr_node_name E_IdentExpr = ''IdentExpr''"
| "expr_node_name E_PathExpr = ''PathExpr''"
| "expr_node_name E_LitExpr = ''LitExpr''"
| "expr_node_name E_PropagateExpr = ''PropagateExpr''"

primrec type_node_name :: "type_node \<Rightarrow> string" where
  "type_node_name T_NamedType = ''NamedType''"
| "type_node_name T_ArrayType = ''ArrayType''"
| "type_node_name T_TensorType = ''TensorType''"
| "type_node_name T_TupleType = ''TupleType''"
| "type_node_name T_AttrType = ''AttrType''"

primrec pat_node_name :: "pat_node \<Rightarrow> string" where
  "pat_node_name P_WildcardPat = ''WildcardPat''"
| "pat_node_name P_LiteralPat = ''LiteralPat''"
| "pat_node_name P_IdentPat = ''IdentPat''"
| "pat_node_name P_StructPat = ''StructPat''"
| "pat_node_name P_TuplePat = ''TuplePat''"
| "pat_node_name P_FieldPat = ''FieldPat''"

text \<open>\<open>nodeKindName\<close> is the enumerator's name.\<close>

primrec nodeKindName :: "node_kind \<Rightarrow> string" where
  "nodeKindName (General x) = general_node_name x"
| "nodeKindName (Decl x) = decl_node_name x"
| "nodeKindName (Generic x) = generic_node_name x"
| "nodeKindName (Stmt x) = stmt_node_name x"
| "nodeKindName (Expr x) = expr_node_name x"
| "nodeKindName (Typ x) = type_node_name x"
| "nodeKindName (Pat x) = pat_node_name x"

end
