(* ===== verification/StringInterner.thy ===== *)
theory StringInterner
  imports Prelude
begin

text \<open>
  The string interner (\<^verbatim>\<open>include/eter/Base/StringInterner.h\<close>,
  \<^verbatim>\<open>lib/Base/StringInterner.cpp\<close>): \<open>Table\<close> maps a string to its id and \<open>Strings\<close> an
  id to its string.  ID 0 is \<open>NullStr\<close>, with an empty sentinel.  The interface the parser uses
  is the locale \<open>interning\<close>; it is interpreted on the model's operations at the end.
\<close>

type_synonym interned_str = u32

definition NullStr :: interned_str where
  "NullStr = 0"

record interner =
  Table :: "string \<rightharpoonup> interned_str"
  Strings :: "string list"

section \<open>Operations\<close>

definition newInterner :: interner where
  "newInterner = \<lparr> Table = Map.empty, Strings = [''''] \<rparr>"

definition intern :: "string \<Rightarrow> interner \<Rightarrow> interned_str \<times> interner" where
  "intern S I =
     (case Table I S of
        Some ID \<Rightarrow> (ID, I)
      | None \<Rightarrow>
          let ID = of_nat (length (Strings I)) in
          (ID, I \<lparr> Table := (Table I)(S \<mapsto> ID), Strings := Strings I @ [S] \<rparr>))"

text \<open>An id out of range is undefined behaviour, caught by an assertion: \<open>None\<close>.\<close>

definition getStr :: "interner \<Rightarrow> interned_str \<Rightarrow> string option" where
  "getStr I ID = (if unat ID < length (Strings I) then Some (Strings I ! unat ID) else None)"

definition sizeStr :: "interner \<Rightarrow> u32" where
  "sizeStr I = of_nat (length (Strings I)) - 1"

section \<open>The interface\<close>

locale interning =
  fixes fresh :: 's
    and int_op :: "string \<Rightarrow> 's \<Rightarrow> interned_str \<times> 's"
    and text_of :: "'s \<Rightarrow> interned_str \<Rightarrow> string option"
    and used :: "'s \<Rightarrow> nat"
    and valid :: "'s \<Rightarrow> bool"
  assumes fresh_valid: "valid fresh"
    and int_valid: "valid s \<Longrightarrow> used s < 4294967296 \<Longrightarrow> int_op S s = (i, s') \<Longrightarrow> valid s'"
    and int_used: "int_op S s = (i, s') \<Longrightarrow> used s \<le> used s' \<and> used s' \<le> Suc (used s)"
    and int_get: "valid s \<Longrightarrow> used s < 4294967296 \<Longrightarrow> int_op S s = (i, s') \<Longrightarrow>
      text_of s' i = Some S \<and> i \<noteq> NullStr"
    and int_stable: "int_op S s = (i, s') \<Longrightarrow> text_of s j = Some T \<Longrightarrow> text_of s' j = Some T"
    and int_old: "valid s \<Longrightarrow> text_of s i = Some S \<Longrightarrow> i \<noteq> NullStr \<Longrightarrow> int_op S s = (i, s)"
begin

fun int_list :: "string list \<Rightarrow> 's \<Rightarrow> interned_str list \<times> 's" where
  "int_list [] s = ([], s)"
| "int_list (S # Ss) s =
     (case int_op S s of (i, s') \<Rightarrow> (case int_list Ss s' of (is, s'') \<Rightarrow> (i # is, s'')))"

lemma int_list_Cons:
  assumes "int_list (S # Ss) s = (is, s')"
  obtains i t is' where "int_op S s = (i, t)" "int_list Ss t = (is', s')" "is = i # is'"
  using assms by (auto split: prod.splits)

lemma int_list_stable:
  "int_list Ss s = (is, s') \<Longrightarrow> text_of s j = Some T \<Longrightarrow> text_of s' j = Some T"
  by (induction Ss arbitrary: s "is") (auto split: prod.splits dest: int_stable)

lemma int_list_length: "int_list Ss s = (is, s') \<Longrightarrow> length is = length Ss"
  by (induction Ss arbitrary: s "is") (auto split: prod.splits)

lemma int_list_valid:
  "\<lbrakk>int_list Ss s = (is, s'); valid s; used s + length Ss \<le> 4294967296\<rbrakk>
     \<Longrightarrow> valid s' \<and> used s' \<le> used s + length Ss"
proof (induction Ss arbitrary: s "is")
  case Nil
  then show ?case by simp
next
  case (Cons S Ss)
  from Cons.prems(1) obtain i t is' where t: "int_op S s = (i, t)" "int_list Ss t = (is', s')"
    by (rule int_list_Cons)
  moreover have "valid t" "used t \<le> Suc (used s)"
    using t(1) Cons.prems int_valid [OF _ _ t(1)] int_used [OF t(1)] by auto
  ultimately show ?case using Cons.IH [OF t(2)] Cons.prems(3) by simp
qed

lemma int_list_get:
  "\<lbrakk>int_list Ss s = (is, s'); valid s; used s + length Ss \<le> 4294967296; k < length Ss\<rbrakk>
     \<Longrightarrow> text_of s' (is ! k) = Some (Ss ! k) \<and> is ! k \<noteq> NullStr"
proof (induction Ss arbitrary: s "is" k)
  case Nil
  then show ?case by simp
next
  case (Cons S Ss)
  from Cons.prems(1) obtain i t is' where t: "int_op S s = (i, t)" "int_list Ss t = (is', s')"
    "is = i # is'" by (rule int_list_Cons)
  have v: "valid t" "used t \<le> Suc (used s)"
    using t(1) Cons.prems int_valid [OF _ _ t(1)] int_used [OF t(1)] by auto
  show ?case
  proof (cases k)
    case 0
    have "text_of t i = Some S \<and> i \<noteq> NullStr"
      using int_get [OF Cons.prems(2) _ t(1)] Cons.prems(3) by simp
    with 0 t int_list_stable [OF t(2)] show ?thesis by simp
  next
    case (Suc m)
    with Cons.IH [OF t(2) v(1), of m] v(2) Cons.prems(3,4) t(3) show ?thesis by simp
  qed
qed

text \<open>Two ids in one run are equal exactly when their strings are.\<close>

lemma int_list_same:
  assumes run: "int_list Ss s = (is, s')" "valid s" "used s + length Ss \<le> 4294967296"
    and k: "k < length Ss" "l < length Ss"
  shows "is ! k = is ! l \<longleftrightarrow> Ss ! k = Ss ! l"
proof
  assume "is ! k = is ! l"
  with int_list_get [OF run k(1)] int_list_get [OF run k(2)] show "Ss ! k = Ss ! l" by simp
next
  assume eq: "Ss ! k = Ss ! l"
  have "valid s'" using int_list_valid [OF run] by simp
  then have "int_op (Ss ! k) s' = (is ! k, s')" "int_op (Ss ! l) s' = (is ! l, s')"
    using int_list_get [OF run k(1)] int_list_get [OF run k(2)] int_old by blast+
  with eq show "is ! k = is ! l" by simp
qed

end

section \<open>The model provides the interface\<close>

text \<open>The table and the vector hold the same association, and there is room for the ids.\<close>

definition interner_wf :: "interner \<Rightarrow> bool" where
  "interner_wf I \<longleftrightarrow> 0 < length (Strings I) \<and> length (Strings I) \<le> 4294967296
     \<and> (\<forall>S ID. Table I S = Some ID \<longleftrightarrow>
          0 < unat ID \<and> unat ID < length (Strings I) \<and> Strings I ! unat ID = S)"

lemma interner_wf_new: "interner_wf newInterner"
  by (auto simp: interner_wf_def newInterner_def)

lemma intern_cases:
  obtains (old) ID where "Table I S = Some ID" "intern S I = (ID, I)"
  | (new) "Table I S = None"
    "intern S I = (of_nat (length (Strings I)),
       I \<lparr> Table := (Table I)(S \<mapsto> of_nat (length (Strings I))), Strings := Strings I @ [S] \<rparr>)"
  by (cases "Table I S") (auto simp: intern_def Let_def)

lemma intern_wf:
  assumes wf: "interner_wf I" and room: "length (Strings I) < 4294967296"
    and run: "intern S I = (i, I')"
  shows "interner_wf I'"
proof (cases rule: intern_cases [of I S])
  case (old ID)
  with run wf show ?thesis by simp
next
  case new
  let ?n = "length (Strings I)"
  have n: "unat (of_nat ?n :: u32) = ?n" "0 < ?n"
    using room unat_of_nat32 wf unfolding interner_wf_def by blast+
  have iff: "Table I T = Some ID \<longleftrightarrow>
      0 < unat ID \<and> unat ID < ?n \<and> Strings I ! unat ID = T" for T ID
    using wf unfolding interner_wf_def by blast
  have tab: "((Table I)(S \<mapsto> of_nat ?n)) T = Some ID \<longleftrightarrow>
      0 < unat ID \<and> unat ID < Suc ?n \<and> (Strings I @ [S]) ! unat ID = T" for T ID
  proof (cases "unat ID = ?n")
    case True
    then have "ID = of_nat ?n" using n by (simp add: word_unat_eq_iff)
    moreover have "Table I T \<noteq> Some (of_nat ?n)" for T
      using iff n by simp
    ultimately show ?thesis using n by (auto simp: nth_append)
  next
    case False
    then have "ID \<noteq> of_nat ?n" using n by auto
    with False iff [of T ID] iff [of S ID] new(1) show ?thesis
      by (cases "S = T") (auto simp: nth_append)
  qed
  have "I' = I \<lparr> Table := (Table I)(S \<mapsto> of_nat ?n), Strings := Strings I @ [S] \<rparr>"
    using new(2) run by simp
  then show ?thesis
    unfolding interner_wf_def using tab room by simp
qed

lemma intern_grows:
  assumes "intern S I = (i, I')"
  obtains ts where "Strings I' = Strings I @ ts" "length ts \<le> 1"
proof (cases rule: intern_cases [of I S])
  case (old ID)
  with assms that [of "[]"] show thesis by simp
next
  case new
  with assms that [of "[S]"] show thesis by auto
qed

lemma intern_get:
  assumes "interner_wf I" "length (Strings I) < 4294967296" "intern S I = (i, I')"
  shows "getStr I' i = Some S \<and> i \<noteq> NullStr"
proof (cases rule: intern_cases [of I S])
  case (old ID)
  with assms show ?thesis by (auto simp: interner_wf_def getStr_def NullStr_def)
next
  case new
  have n: "unat (of_nat (length (Strings I)) :: u32) = length (Strings I)"
    using assms(2) by simp
  have "0 < length (Strings I)" using assms(1) by (simp add: interner_wf_def)
  with n have "(of_nat (length (Strings I)) :: u32) \<noteq> 0" by (metis less_irrefl unat_0)
  with new assms n show ?thesis by (auto simp: getStr_def NullStr_def)
qed

lemma intern_stable:
  assumes "intern S I = (i, I')" "getStr I j = Some T"
  shows "getStr I' j = Some T"
proof -
  from assms(1) obtain ts where "Strings I' = Strings I @ ts" by (rule intern_grows)
  with assms(2) show ?thesis by (auto simp: getStr_def nth_append split: if_splits)
qed

lemma intern_old:
  assumes "interner_wf I" "getStr I i = Some S" "i \<noteq> NullStr"
  shows "intern S I = (i, I)"
proof -
  have "0 < unat i" using assms(3) by (simp add: NullStr_def unat_gt_0)
  with assms have "Table I S = Some i" by (auto simp: interner_wf_def getStr_def split: if_splits)
  then show ?thesis by (simp add: intern_def)
qed

interpretation ids: interning newInterner intern getStr "\<lambda>I. length (Strings I)" interner_wf
proof
  show "interner_wf newInterner" by (rule interner_wf_new)
  show "length (Strings s) \<le> length (Strings s') \<and> length (Strings s') \<le> Suc (length (Strings s))"
    if "intern S s = (i, s')" for S s i s'
    using that by (auto elim!: intern_grows)
qed (blast intro: intern_wf intern_get intern_stable intern_old dest: intern_get)+

section \<open>Properties\<close>

text \<open>C27: the ids are canonical.  After interning a list of strings into any well-formed interner
  with room for them, every id gives back its string and is not \<open>NullStr\<close>, and two ids are
  equal exactly when their strings are.\<close>

theorem intern_canonical:
  assumes "interner_wf I" "length (Strings I) + length Ss \<le> 4294967296"
    "ids.int_list Ss I = (is, I')" "k < length Ss" "l < length Ss"
  shows "getStr I' (is ! k) = Some (Ss ! k) \<and> is ! k \<noteq> NullStr
    \<and> (is ! k = is ! l \<longleftrightarrow> Ss ! k = Ss ! l)"
  using ids.int_list_get [OF assms(3,1,2,4)] ids.int_list_same [OF assms(3,1,2,4,5)] by blast

theorem intern_canonical_witness:
  "fst (ids.int_list [''a'', ''b'', ''a''] newInterner) = [1, 2, 1]
   \<and> getStr (snd (ids.int_list [''a'', ''b'', ''a''] newInterner)) 2 = Some ''b''"
proof -
  obtain "is" I' where r: "ids.int_list [''a'', ''b'', ''a''] newInterner = (is, I')"
    by (metis prod.exhaust)
  have is_eq: "is = [1, 2, 1]"
    using r by (simp add: newInterner_def intern_def)
  have "length (Strings newInterner) + length [''a'', ''b'', ''a''] \<le> 4294967296"
    by (simp add: newInterner_def)
  from intern_canonical [OF interner_wf_new this r, of 1 1] is_eq r show ?thesis by simp
qed

text \<open>C28: interning changes nothing that was there.  Every operation keeps the table and the
  vector consistent, an id handed out earlier keeps its string, and interning that string again
  returns the id and leaves the interner as it is.\<close>

theorem intern_stable_ids:
  assumes "interner_wf I" "length (Strings I) < 4294967296" "intern S I = (i, I')"
    "getStr I j = Some T" "j \<noteq> NullStr"
  shows "interner_wf I' \<and> getStr I' j = Some T \<and> intern T I' = (j, I')"
proof -
  have wf: "interner_wf I'" using intern_wf assms by blast
  have "getStr I' j = Some T" using intern_stable assms by blast
  with intern_old [OF wf] wf assms(5) show ?thesis by blast
qed

theorem intern_stable_ids_witness:
  "\<exists>I. snd (intern ''x'' newInterner) = I \<and> getStr (snd (intern ''y'' I)) 1 = Some ''x''"
proof -
  let ?I = "snd (intern ''x'' newInterner)"
  have wf: "interner_wf ?I"
    using intern_wf [OF interner_wf_new, of "''x''"] by (simp add: newInterner_def intern_def)
  have "length (Strings ?I) < 4294967296" "getStr ?I 1 = Some ''x''" "(1 :: u32) \<noteq> NullStr"
    by (simp_all add: newInterner_def intern_def getStr_def NullStr_def)
  from intern_stable_ids [OF wf this(1) _ this(2,3), of "''y''"] show ?thesis
    by (metis prod.collapse)
qed

end
