(* ===== verification/NodePool.thy ===== *)
theory NodePool
  imports NodeKinds StringInterner
begin

text \<open>
  The node pool (\<^verbatim>\<open>include/eter/Parser/NodePool.h\<close>, \<^verbatim>\<open>Regime.h\<close>,
  \<^verbatim>\<open>lib/Parser/NodePool.cpp\<close>): three vectors that grow together.  A node is named by the
  32-bit index it was given; an index out of range trips an assertion, modelled by \<open>None\<close>.
  \<open>view\<close> is the abstract pool, a list of nodes with their children, which \<open>alloc\<close> extends
  by one; the locale \<open>arena\<close> states what the parser gets from that.
\<close>

section \<open>Nodes\<close>

datatype regime = Imm | Mut | Proj | NoRegime

primrec regime_code :: "regime \<Rightarrow> nat" where
  "regime_code Imm = 0"
| "regime_code Mut = 1"
| "regime_code Proj = 2"
| "regime_code NoRegime = 3"

definition regime_of_code :: "nat \<Rightarrow> regime" where
  "regime_of_code n = (if n = 0 then Imm else if n = 1 then Mut else if n = 2 then Proj else NoRegime)"

type_synonym node_index = u32

definition NullNode :: node_index where
  "NullNode = 0xFFFFFFFF"

record node_data =
  NKind :: node_kind
  ChildCount :: u16
  ChildrenBegin :: u32
  NPayload :: u32
  NFlags :: u32

record node_pool =
  Nodes :: "node_data list"
  Children :: "node_index list"
  Spans :: "span list"

definition PubFlag :: u32 where
  "PubFlag = 1"

definition UnsafeFlag :: u32 where
  "UnsafeFlag = push_bit 1 1"

section \<open>Operations\<close>

definition newNodePool :: node_pool where
  "newNodePool = \<lparr> Nodes = [\<lparr> NKind = nk_Error, ChildCount = 0, ChildrenBegin = 0,
     NPayload = 0, NFlags = 0 \<rparr>], Children = [], Spans = [Span 0 0] \<rparr>"

definition alloc ::
    "node_kind \<Rightarrow> span \<Rightarrow> node_index list \<Rightarrow> u32 \<Rightarrow> u32 \<Rightarrow> node_pool \<Rightarrow> node_index \<times> node_pool" where
  "alloc K S ChildNodes Payload Flags P =
     (of_nat (length (Nodes P)),
      P \<lparr> Nodes := Nodes P @ [\<lparr> NKind = K, ChildCount = of_nat (length ChildNodes),
             ChildrenBegin = of_nat (length (Children P)), NPayload = Payload, NFlags = Flags \<rparr>],
          Children := Children P @ ChildNodes,
          Spans := Spans P @ [S] \<rparr>)"

definition allocLeaf :: "node_kind \<Rightarrow> span \<Rightarrow> u32 \<Rightarrow> node_pool \<Rightarrow> node_index \<times> node_pool" where
  "allocLeaf K S Payload = alloc K S [] Payload 0"

definition nodeAt :: "node_pool \<Rightarrow> node_index \<Rightarrow> node_data option" where
  "nodeAt P I = (if unat I < length (Nodes P) then Some (Nodes P ! unat I) else None)"

definition kindOf :: "node_pool \<Rightarrow> node_index \<Rightarrow> node_kind option" where
  "kindOf P I = map_option NKind (nodeAt P I)"

definition flagsOf :: "node_pool \<Rightarrow> node_index \<Rightarrow> u32 option" where
  "flagsOf P I = map_option NFlags (nodeAt P I)"

definition spanOf :: "node_pool \<Rightarrow> node_index \<Rightarrow> span option" where
  "spanOf P I = (if unat I < length (Spans P) then Some (Spans P ! unat I) else None)"

definition childSlice :: "node_pool \<Rightarrow> node_data \<Rightarrow> node_index list" where
  "childSlice P N = take (unat (ChildCount N)) (drop (unat (ChildrenBegin N)) (Children P))"

definition childrenOf :: "node_pool \<Rightarrow> node_index \<Rightarrow> node_index list option" where
  "childrenOf P I = map_option (childSlice P) (nodeAt P I)"

definition childAt :: "node_pool \<Rightarrow> node_index \<Rightarrow> u16 \<Rightarrow> node_index option" where
  "childAt P I n =
     (case childrenOf P I of None \<Rightarrow> None
      | Some Kids \<Rightarrow> if unat n < length Kids then Some (Kids ! unat n) else None)"

section \<open>Payload words\<close>

definition makePayload :: "interned_str \<Rightarrow> regime \<Rightarrow> u32" where
  "makePayload Name R = push_bit 30 (of_nat (regime_code R)) OR (Name AND 0x3FFFFFFF)"

definition payloadStr :: "u32 \<Rightarrow> interned_str" where
  "payloadStr P = P AND 0x3FFFFFFF"

definition payloadRegime :: "u32 \<Rightarrow> regime" where
  "payloadRegime P = regime_of_code (unat (drop_bit 30 P))"

definition makeOpPayload :: "u16 \<Rightarrow> u32" where
  "makeOpPayload v = ucast v"

definition payloadOp :: "u32 \<Rightarrow> u16" where
  "payloadOp P = ucast (P AND 0xFFFF)"

lemma mask_30: "(0x3FFFFFFF :: u32) = mask 30"
  by (simp add: mask_eq_exp_minus_1)

lemma name_is_masked: "Name \<le> 0x3FFFFFFF \<Longrightarrow> (Name :: u32) AND 0x3FFFFFFF = Name"
proof -
  assume "Name \<le> 0x3FFFFFFF"
  then have "unat Name < 2 ^ 30" by (simp add: word_le_nat_alt)
  then show ?thesis
    unfolding mask_30 take_bit_eq_mask [symmetric]
    by (simp add: word_unat_eq_iff unsigned_take_bit_eq take_bit_nat_eq_self)
qed

lemma payloadStr_makePayload:
  assumes "Name \<le> 0x3FFFFFFF"
  shows "payloadStr (makePayload Name R) = Name"
proof -
  have "push_bit 30 x AND 0x3FFFFFFF = 0" for x :: u32
    unfolding mask_30 by (rule bit_word_eqI) (auto simp: bit_simps)
  then show ?thesis
    by (simp add: payloadStr_def makePayload_def bit.conj_disj_distrib2 name_is_masked [OF assms]
        and.assoc)
qed

section \<open>The abstract pool\<close>

type_synonym node_view = "node_kind \<times> span \<times> node_index list \<times> u32 \<times> u32"

definition view_node :: "node_pool \<Rightarrow> nat \<Rightarrow> node_view" where
  "view_node P i = (let N = Nodes P ! i in
     (NKind N, Spans P ! i, childSlice P N, NPayload N, NFlags N))"

definition view :: "node_pool \<Rightarrow> node_view list" where
  "view P = map (view_node P) [0..<length (Nodes P)]"

definition pool_wf :: "node_pool \<Rightarrow> bool" where
  "pool_wf P \<longleftrightarrow> length (Spans P) = length (Nodes P)
     \<and> (\<forall>N\<in>set (Nodes P). unat (ChildrenBegin N) + unat (ChildCount N) \<le> length (Children P))"

definition room :: "node_pool \<Rightarrow> node_index list \<Rightarrow> bool" where
  "room P ks \<longleftrightarrow> length (Nodes P) < 4294967295 \<and> length (Children P) < 4294967296
     \<and> length ks < 65536"

definition add_node :: "node_view \<Rightarrow> node_pool \<Rightarrow> node_index \<times> node_pool" where
  "add_node n P = (case n of (K, S, ks, p, f) \<Rightarrow> alloc K S ks p f P)"

lemma length_view [simp]: "length (view P) = length (Nodes P)"
  by (simp add: view_def)

lemma pool_wf_new: "pool_wf newNodePool"
  by (simp add: pool_wf_def newNodePool_def)

lemma unat_of_nat16_le: "unat (of_nat n :: u16) \<le> n"
  by (simp add: unat_of_nat take_bit_nat_less_eq_self)

lemma unat_of_nat32_le: "unat (of_nat n :: u32) \<le> n"
  by (simp add: unat_of_nat take_bit_nat_less_eq_self)

lemma alloc_wf: "pool_wf P \<Longrightarrow> pool_wf (snd (alloc K S ks p f P))"
  using unat_of_nat16_le [of "length ks"] unat_of_nat32_le [of "length (Children P)"]
  by (auto simp: pool_wf_def alloc_def intro: add_mono trans_le_add1)

lemma alloc_view:
  assumes wf: "pool_wf P" and room: "room P ks" and run: "alloc K S ks p f P = (I, P')"
  shows "view P' = view P @ [(K, S, ks, p, f)] \<and> unat I = length (view P) \<and> I \<noteq> NullNode"
proof -
  let ?n = "length (Nodes P)"
  have old: "view_node P' i = view_node P i" if "i < ?n" for i
  proof -
    have "Nodes P ! i \<in> set (Nodes P)" using that by simp
    then have "unat (ChildrenBegin (Nodes P ! i)) + unat (ChildCount (Nodes P ! i)) \<le> length (Children P)"
      using wf unfolding pool_wf_def by blast
    then have "unat (ChildCount (Nodes P ! i)) \<le> length (Children P) - unat (ChildrenBegin (Nodes P ! i))"
      "unat (ChildrenBegin (Nodes P ! i)) - length (Children P) = 0" by simp_all
    then show ?thesis
      using that run wf
      by (auto simp: view_node_def alloc_def nth_append childSlice_def Let_def pool_wf_def)
  qed
  have kids: "unat (of_nat (length (Children P)) :: u32) = length (Children P)"
    "unat (of_nat (length ks) :: u16) = length ks"
    using room by (simp_all add: room_def unat_of_nat take_bit_nat_eq_self)
  have new: "view_node P' ?n = (K, S, ks, p, f)"
    using run wf kids by (auto simp: view_node_def alloc_def childSlice_def Let_def pool_wf_def nth_append)
  have "map (view_node P') [0..<?n] = map (view_node P) [0..<?n]"
    using old by simp
  moreover have "length (Nodes P') = Suc ?n" using run by (auto simp: alloc_def)
  moreover have I: "unat I = ?n" using run room by (auto simp: alloc_def room_def)
  moreover have "I \<noteq> NullNode"
  proof
    assume "I = NullNode"
    then have "?n = 4294967295" using I by (simp add: NullNode_def)
    with room show False by (simp add: room_def)
  qed
  ultimately show ?thesis using new by (simp add: view_def)
qed

section \<open>The interface\<close>

locale arena =
  fixes nodes_of :: "'s \<Rightarrow> 'n list"
    and add :: "'n \<Rightarrow> 's \<Rightarrow> u32 \<times> 's"
    and valid :: "'s \<Rightarrow> bool"
    and fits :: "'s \<Rightarrow> 'n \<Rightarrow> bool"
  assumes add_valid: "valid s \<Longrightarrow> add n s = (i, s') \<Longrightarrow> valid s'"
    and add_nodes: "valid s \<Longrightarrow> fits s n \<Longrightarrow> add n s = (i, s') \<Longrightarrow>
      nodes_of s' = nodes_of s @ [n] \<and> unat i = length (nodes_of s)"
begin

text \<open>Runs of \<open>add\<close> in which every node fits.\<close>

inductive grows :: "'s \<Rightarrow> 's \<Rightarrow> bool" where
  refl: "grows s s"
| step: "grows s s' \<Longrightarrow> fits s' n \<Longrightarrow> add n s' = (i, s'') \<Longrightarrow> grows s s''"

lemma grows_prefix:
  "grows s s' \<Longrightarrow> valid s \<Longrightarrow> valid s' \<and> (\<exists>ns. nodes_of s' = nodes_of s @ ns)"
  by (induction rule: grows.induct) (auto dest: add_valid add_nodes)

lemma added_stays:
  assumes "valid s" "fits s n" "add n s = (i, s')" "grows s' s''"
  shows "unat i < length (nodes_of s'') \<and> nodes_of s'' ! unat i = n"
proof -
  have s': "valid s'" "nodes_of s' = nodes_of s @ [n]" "unat i = length (nodes_of s)"
    using add_valid [OF assms(1,3)] add_nodes [OF assms(1-3)] by auto
  from grows_prefix [OF assms(4) s'(1)] s'(2,3) show ?thesis
    by (auto simp: nth_append)
qed

end

interpretation pool: arena view add_node pool_wf "\<lambda>P n. room P (fst (snd (snd n)))"
proof
  show "pool_wf s'" if "pool_wf s" "add_node n s = (i, s')" for s n i s'
    using that alloc_wf by (cases n) (auto simp: add_node_def, metis snd_conv)
  show "view s' = view s @ [n] \<and> unat i = length (view s)"
    if "pool_wf s" "room s (fst (snd (snd n)))" "add_node n s = (i, s')" for s n i s'
    using that alloc_view by (cases n) (auto simp: add_node_def)
qed

section \<open>Properties\<close>

text \<open>C29: a node keeps what it was allocated with.  As long as there is room, \<open>alloc\<close> returns a
  new index, and after any number of further allocations the kind, the span, the flags and the
  children read through that index are those it was given.\<close>

theorem alloc_persistent:
  assumes "pool_wf P" "room P ks" "alloc K S ks p f P = (I, P')" "pool.grows P' P''"
  shows "kindOf P'' I = Some K \<and> spanOf P'' I = Some S \<and> childrenOf P'' I = Some ks
    \<and> flagsOf P'' I = Some f \<and> map_option NPayload (nodeAt P'' I) = Some p"
proof -
  have add: "add_node (K, S, ks, p, f) P = (I, P')" using assms(3) by (simp add: add_node_def)
  have n: "unat I < length (view P'')" "view P'' ! unat I = (K, S, ks, p, f)"
    using pool.added_stays [OF assms(1) _ add assms(4)] assms(2) by auto
  have "pool_wf P''"
    using pool.grows_prefix [OF assms(4)] alloc_wf [OF assms(1), of K S ks p f] assms(3) by simp
  then have "length (Spans P'') = length (Nodes P'')" by (simp add: pool_wf_def)
  with n show ?thesis
    by (auto simp: view_def view_node_def Let_def kindOf_def spanOf_def childrenOf_def flagsOf_def
        nodeAt_def)
qed

theorem alloc_persistent_witness:
  "kindOf (snd (allocLeaf nk_LitExpr (Span 0 1) 5 newNodePool)) 1 = Some nk_LitExpr"
proof -
  have "alloc nk_LitExpr (Span 0 1) [] 5 0 newNodePool
      = (1, snd (alloc nk_LitExpr (Span 0 1) [] 5 0 newNodePool))"
    by (simp add: alloc_def newNodePool_def)
  from alloc_persistent [OF pool_wf_new _ this pool.grows.refl] show ?thesis
    by (simp add: room_def newNodePool_def allocLeaf_def)
qed

text \<open>C30: payload words can be taken apart.  A name below \<open>2 ^ 30\<close> and a regime packed into one
  word, and an operator's token kind, are read back unchanged.\<close>

theorem payload_roundtrip:
  assumes "Name \<le> 0x3FFFFFFF"
  shows "payloadStr (makePayload Name R) = Name \<and> payloadRegime (makePayload Name R) = R
    \<and> payloadOp (makeOpPayload v) = v"
proof -
  note 1 = payloadStr_makePayload [OF assms]
  have 2: "drop_bit 30 (Name AND 0x3FFFFFFF) = 0" for Name :: u32
    unfolding mask_30 by (rule bit_word_eqI) (auto simp: bit_simps)
  have "drop_bit 30 (push_bit 30 (of_nat (regime_code R)) :: u32) = of_nat (regime_code R)"
    by (cases R) simp_all
  then have "drop_bit 30 (makePayload Name R) = of_nat (regime_code R)"
    by (simp add: makePayload_def drop_bit_or 2)
  then have 3: "payloadRegime (makePayload Name R) = R"
    by (cases R) (simp_all add: payloadRegime_def regime_of_code_def)
  have "payloadOp (makeOpPayload v) = v"
  proof -
    have m: "(0xFFFF :: u32) = mask 16" by (simp add: mask_eq_exp_minus_1)
    show ?thesis
      unfolding payloadOp_def makeOpPayload_def m by (rule bit_word_eqI, auto simp: bit_simps)
  qed
  with 1 3 show ?thesis by simp
qed

theorem payload_roundtrip_witness:
  "payloadStr (makePayload 7 Proj) = 7 \<and> payloadRegime (makePayload 7 Proj) = Proj"
  using payload_roundtrip [of 7 Proj 0] by simp

end
