(* ===== verification/DiagnosticEngine.thy ===== *)
theory DiagnosticEngine
  imports SourceManager
begin

text \<open>
  Diagnostics, their builder and the two engines that buffer them
  (\<^verbatim>\<open>include/eter/Base/DiagnosticEngine.h\<close>, \<^verbatim>\<open>lib/Base/DiagnosticEngine.cpp\<close>).
  A builder is the diagnostic built so far; its methods return it updated, and \<open>emit\<close> appends
  it to the engine.
\<close>

datatype diagnostic_level = LevelError | LevelWarning | LevelNote

datatype diagnostic_kind = UserError | InternalCompilerError

datatype diagnostic_label = DiagnosticLabel (DiagSpan: span) (LabelMessage: string)

datatype diagnostic_location = LocNone | LocFile string | LocSpan span

record diagnostic =
  Level :: diagnostic_level
  DiagKind :: diagnostic_kind
  Message :: string
  Location :: diagnostic_location
  DLabels :: "diagnostic_label list"
  DNotes :: "string list"
  DHelps :: "string list"

definition newBuilder :: "diagnostic_level \<Rightarrow> diagnostic_kind \<Rightarrow> diagnostic" where
  "newBuilder L K = \<lparr> Level = L, DiagKind = K, Message = [], Location = LocNone,
     DLabels = [], DNotes = [], DHelps = [] \<rparr>"

definition builder_at :: "span \<Rightarrow> diagnostic \<Rightarrow> diagnostic" where
  "builder_at S D = D \<lparr> Location := LocSpan S \<rparr>"

definition builder_atFile :: "string \<Rightarrow> diagnostic \<Rightarrow> diagnostic" where
  "builder_atFile F D = D \<lparr> Location := LocFile F \<rparr>"

definition builder_message :: "string \<Rightarrow> diagnostic \<Rightarrow> diagnostic" where
  "builder_message M D = D \<lparr> Message := M \<rparr>"

definition builder_label :: "span \<Rightarrow> string \<Rightarrow> diagnostic \<Rightarrow> diagnostic" where
  "builder_label S M D = D \<lparr> DLabels := DLabels D @ [DiagnosticLabel S M] \<rparr>"

definition builder_note :: "string \<Rightarrow> diagnostic \<Rightarrow> diagnostic" where
  "builder_note M D = D \<lparr> DNotes := DNotes D @ [M] \<rparr>"

definition builder_help :: "string \<Rightarrow> diagnostic \<Rightarrow> diagnostic" where
  "builder_help M D = D \<lparr> DHelps := DHelps D @ [M] \<rparr>"

definition builder_error :: diagnostic where
  "builder_error = newBuilder LevelError UserError"

definition builder_warning :: diagnostic where
  "builder_warning = newBuilder LevelWarning UserError"

definition builder_notice :: diagnostic where
  "builder_notice = newBuilder LevelNote UserError"

definition builder_ice :: diagnostic where
  "builder_ice = newBuilder LevelError InternalCompilerError"

text \<open>The versions of \<open>DiagnosticEngine\<close> that take a span.\<close>

definition errorAt :: "span \<Rightarrow> diagnostic" where
  "errorAt S = builder_at S builder_error"

definition warningAt :: "span \<Rightarrow> diagnostic" where
  "warningAt S = builder_at S builder_warning"

definition noticeAt :: "span \<Rightarrow> diagnostic" where
  "noticeAt S = builder_at S builder_notice"

definition iceAt :: "span \<Rightarrow> diagnostic" where
  "iceAt S = builder_at S builder_ice"

text \<open>
  \<open>SimpleDiagnosticEngine\<close> is its list of diagnostics, \<open>DiagnosticEngine\<close> that list with a
  source manager.
\<close>

record diagnostic_engine =
  SM :: source_manager
  Diagnostics :: "diagnostic list"

definition simple_emit :: "diagnostic \<Rightarrow> diagnostic list \<Rightarrow> diagnostic list" where
  "simple_emit D Ds = Ds @ [D]"

definition engine_emit :: "diagnostic \<Rightarrow> diagnostic_engine \<Rightarrow> diagnostic_engine" where
  "engine_emit D E = E \<lparr> Diagnostics := Diagnostics E @ [D] \<rparr>"

definition withSourceManager :: "source_manager \<Rightarrow> diagnostic list \<Rightarrow> diagnostic_engine" where
  "withSourceManager M Ds = fold engine_emit Ds \<lparr> SM = M, Diagnostics = [] \<rparr>"

end
