(* ===== verification/PhaseDiagnostic.thy ===== *)
theory PhaseDiagnostic
  imports DiagnosticEngine
begin

text \<open>
  Diagnostics collected by the phases and the rendering of their message templates
  (\<^verbatim>\<open>include/eter/Base/PhaseDiagnostic.h\<close>, \<^verbatim>\<open>lib/Base/PhaseDiagnostic.cpp\<close>).  The
  rendering loop runs over an index into the template; the model runs over the rest of it.
\<close>

datatype phase = PhaseLexer | PhaseParser

record phase_diagnostic =
  Ph :: phase
  LocalID :: u16
  Loc :: span
  Labels :: "diagnostic_label list"
  Notes :: "string list"
  Helps :: "string list"
  Args :: "(string \<times> string) list"

abbreviation (input) ch_lbrace :: char where "ch_lbrace \<equiv> CHR ''{''"
abbreviation (input) ch_rbrace :: char where "ch_rbrace \<equiv> CHR ''}''"

function renderMessage :: "string \<Rightarrow> (string \<times> string) list \<Rightarrow> string" where
  "renderMessage [] As = []"
| "renderMessage (C # Template) As =
     (if C \<noteq> ch_lbrace then C # renderMessage Template As
      else case index_of ch_rbrace Template of
        None \<Rightarrow> C # Template
      | Some Close \<Rightarrow>
          let Name = take Close Template in
          (case find (\<lambda>A. fst A = Name) As of
             Some A \<Rightarrow> snd A
           | None \<Rightarrow> C # take (Suc Close) Template)
          @ renderMessage (drop (Suc Close) Template) As)"
  by pat_completeness auto
termination
  by (relation "measure (\<lambda>(t, a). length t)") (auto simp: index_of_Some)

declare renderMessage.simps(2) [simp del]

section \<open>Reference: templates as segments\<close>

text \<open>
  A template is a sequence of literal texts without an opening brace and of holes, whose names
  have no closing brace.
\<close>

datatype segment = Lit string | Hole string

primrec segment_wf :: "segment \<Rightarrow> bool" where
  "segment_wf (Lit s) \<longleftrightarrow> ch_lbrace \<notin> set s"
| "segment_wf (Hole n) \<longleftrightarrow> ch_rbrace \<notin> set n"

primrec show_segment :: "segment \<Rightarrow> string" where
  "show_segment (Lit s) = s"
| "show_segment (Hole n) = ch_lbrace # n @ [ch_rbrace]"

primrec fill_segment :: "(string \<times> string) list \<Rightarrow> segment \<Rightarrow> string" where
  "fill_segment As (Lit s) = s"
| "fill_segment As (Hole n) = (case map_of As n of Some v \<Rightarrow> v | None \<Rightarrow> show_segment (Hole n))"

lemma find_map_of: "(case find (\<lambda>A. fst A = n) As of Some A \<Rightarrow> f (snd A) | None \<Rightarrow> d)
    = (case map_of As n of Some v \<Rightarrow> f v | None \<Rightarrow> d)"
  by (induction As) auto

lemma renderMessage_lit:
  "ch_lbrace \<notin> set s \<Longrightarrow> renderMessage (s @ t) As = s @ renderMessage t As"
  by (induction s) (auto simp: renderMessage.simps(2))

lemma renderMessage_hole:
  assumes "ch_rbrace \<notin> set n"
  shows "renderMessage (show_segment (Hole n) @ t) As = fill_segment As (Hole n) @ renderMessage t As"
proof -
  have "index_of ch_rbrace (n @ ch_rbrace # t) = Some (length n)"
    using assms by (simp add: index_of_Some)
  then show ?thesis
    using find_map_of [where n = n and As = As and f = "\<lambda>x. x" and d = "ch_lbrace # n @ [ch_rbrace]"]
    by (auto simp: renderMessage.simps(2) split: option.splits)
qed

section \<open>Properties\<close>

text \<open>C33: a template is rendered by replacing each hole with its first argument of that name and
  leaving a hole without one, and every literal text, as they are.\<close>

theorem renderMessage_segments:
  assumes "\<forall>g\<in>set segs. segment_wf g"
  shows "renderMessage (concat (map show_segment segs)) As = concat (map (fill_segment As) segs)"
  using assms
proof (induction segs)
  case Nil
  then show ?case by simp
next
  case (Cons g segs)
  then show ?case
    by (cases g) (auto simp: renderMessage_lit renderMessage_hole simp del: show_segment.simps(2) fill_segment.simps(2))
qed

theorem renderMessage_segments_witness:
  "renderMessage ''expected `{tok}` {context}'' [(''tok'', ''fn''), (''tok'', ''if'')] = ''expected `fn` {context}''"
proof -
  let ?segs = "[Lit ''expected `'', Hole ''tok'', Lit ''` '', Hole ''context'']"
  have "\<forall>g\<in>set ?segs. segment_wf g" by simp
  from renderMessage_segments [OF this, of "[(''tok'', ''fn''), (''tok'', ''if'')]"] show ?thesis
    by simp
qed

end
