(* ===== verification/DiagIDs.thy ===== *)
theory DiagIDs
  imports Prelude
begin

text \<open>
  Parser diagnostics and their message templates
  (\<^verbatim>\<open>include/eter/Parser/ParserDiagnostics.def\<close>, \<^verbatim>\<open>ParserDiagnostics.h\<close>), section by
  section; \<open>diag_code\<close> is the value of the enumerator, stored as the local id of a diagnostic.
\<close>

datatype (plugins only: code) general_diag =
    ExpectedTopLevelDecl | ExpectedStmt | ExpectedExpr | ExpectedPattern | ExpectedRegime |
    ExpectedName | ExpectedKeyword | ExpectedIdentifier | ExpectedTypeName

datatype (plugins only: code) token_diag =
    ExpectedToken | ExpectedTokenAfter | ExpectedPathSegment | RedundantPathSeparator

datatype (plugins only: code) delim_diag =
    ExpectedOpen | ExpectedClose | ExpectedSemi | ExpectedColon | ExpectedEq

datatype (plugins only: code) expr_diag =
    ExpectedArgListClose | ExpectedParenExprClose | ExpectedTupleExprClose |
    ExpectedFieldName | ExpectedFieldInitName | ExpectedStructLitClose |
    ExpectedArrayLitClose | ExpectedTensorIndexClose | ExpectedTensorLitDim |
    ExpectedTensorLitClose | ExpectedRSquare

datatype (plugins only: code) type_diag =
    ExpectedTupleTypeClose | ExpectedArrayTypeSemi | ExpectedArrayTypeClose |
    ExpectedTensorTypeSemi | ExpectedTensorTypeClose | ExpectedTensorOpen

datatype (plugins only: code) pat_diag =
    ExpectedFatArrow | ExpectedTuplePatClose | ExpectedStructPatClose | ExpectedFieldPatName

datatype (plugins only: code) decl_diag =
    ExpectedModOpenOrSemi | ExpectedForInImpl | ExpectedTraitFnSemi |
    ExpectedReturnTypeColon | ExpectedBreakOrContinueSemi

datatype (plugins only: code) generic_diag =
    ExpectedLessThan | ExpectedGreaterThan | ExpectedTypeParam | ExpectedCommaOrGreater

datatype (plugins only: code) module_diag =
    ExpectedModKeyword | ExpectedModName | ExpectedUseItem | ExpectedUseItemOrGlob |
    ExpectedAsAlias

datatype (plugins only: code) doc_diag =
    DocCommentNotAllowed

datatype diag_id =
    GenDiag general_diag | TokDiag token_diag | DelDiag delim_diag | ExpDiag expr_diag |
    TypDiag type_diag | PatDiag pat_diag | DecDiag decl_diag | GrcDiag generic_diag |
    ModDiag module_diag | DocDiag doc_diag

abbreviation dg_ExpectedTopLevelDecl :: diag_id where "dg_ExpectedTopLevelDecl \<equiv> GenDiag ExpectedTopLevelDecl"
abbreviation dg_ExpectedStmt :: diag_id where "dg_ExpectedStmt \<equiv> GenDiag ExpectedStmt"
abbreviation dg_ExpectedExpr :: diag_id where "dg_ExpectedExpr \<equiv> GenDiag ExpectedExpr"
abbreviation dg_ExpectedPattern :: diag_id where "dg_ExpectedPattern \<equiv> GenDiag ExpectedPattern"
abbreviation dg_ExpectedRegime :: diag_id where "dg_ExpectedRegime \<equiv> GenDiag ExpectedRegime"
abbreviation dg_ExpectedName :: diag_id where "dg_ExpectedName \<equiv> GenDiag ExpectedName"
abbreviation dg_ExpectedKeyword :: diag_id where "dg_ExpectedKeyword \<equiv> GenDiag ExpectedKeyword"
abbreviation dg_ExpectedIdentifier :: diag_id where "dg_ExpectedIdentifier \<equiv> GenDiag ExpectedIdentifier"
abbreviation dg_ExpectedTypeName :: diag_id where "dg_ExpectedTypeName \<equiv> GenDiag ExpectedTypeName"
abbreviation dg_ExpectedToken :: diag_id where "dg_ExpectedToken \<equiv> TokDiag ExpectedToken"
abbreviation dg_ExpectedTokenAfter :: diag_id where "dg_ExpectedTokenAfter \<equiv> TokDiag ExpectedTokenAfter"
abbreviation dg_ExpectedPathSegment :: diag_id where "dg_ExpectedPathSegment \<equiv> TokDiag ExpectedPathSegment"
abbreviation dg_RedundantPathSeparator :: diag_id where "dg_RedundantPathSeparator \<equiv> TokDiag RedundantPathSeparator"
abbreviation dg_ExpectedOpen :: diag_id where "dg_ExpectedOpen \<equiv> DelDiag ExpectedOpen"
abbreviation dg_ExpectedClose :: diag_id where "dg_ExpectedClose \<equiv> DelDiag ExpectedClose"
abbreviation dg_ExpectedSemi :: diag_id where "dg_ExpectedSemi \<equiv> DelDiag ExpectedSemi"
abbreviation dg_ExpectedColon :: diag_id where "dg_ExpectedColon \<equiv> DelDiag ExpectedColon"
abbreviation dg_ExpectedEq :: diag_id where "dg_ExpectedEq \<equiv> DelDiag ExpectedEq"
abbreviation dg_ExpectedArgListClose :: diag_id where "dg_ExpectedArgListClose \<equiv> ExpDiag ExpectedArgListClose"
abbreviation dg_ExpectedParenExprClose :: diag_id where "dg_ExpectedParenExprClose \<equiv> ExpDiag ExpectedParenExprClose"
abbreviation dg_ExpectedTupleExprClose :: diag_id where "dg_ExpectedTupleExprClose \<equiv> ExpDiag ExpectedTupleExprClose"
abbreviation dg_ExpectedFieldName :: diag_id where "dg_ExpectedFieldName \<equiv> ExpDiag ExpectedFieldName"
abbreviation dg_ExpectedFieldInitName :: diag_id where "dg_ExpectedFieldInitName \<equiv> ExpDiag ExpectedFieldInitName"
abbreviation dg_ExpectedStructLitClose :: diag_id where "dg_ExpectedStructLitClose \<equiv> ExpDiag ExpectedStructLitClose"
abbreviation dg_ExpectedArrayLitClose :: diag_id where "dg_ExpectedArrayLitClose \<equiv> ExpDiag ExpectedArrayLitClose"
abbreviation dg_ExpectedTensorIndexClose :: diag_id where "dg_ExpectedTensorIndexClose \<equiv> ExpDiag ExpectedTensorIndexClose"
abbreviation dg_ExpectedTensorLitDim :: diag_id where "dg_ExpectedTensorLitDim \<equiv> ExpDiag ExpectedTensorLitDim"
abbreviation dg_ExpectedTensorLitClose :: diag_id where "dg_ExpectedTensorLitClose \<equiv> ExpDiag ExpectedTensorLitClose"
abbreviation dg_ExpectedRSquare :: diag_id where "dg_ExpectedRSquare \<equiv> ExpDiag ExpectedRSquare"
abbreviation dg_ExpectedTupleTypeClose :: diag_id where "dg_ExpectedTupleTypeClose \<equiv> TypDiag ExpectedTupleTypeClose"
abbreviation dg_ExpectedArrayTypeSemi :: diag_id where "dg_ExpectedArrayTypeSemi \<equiv> TypDiag ExpectedArrayTypeSemi"
abbreviation dg_ExpectedArrayTypeClose :: diag_id where "dg_ExpectedArrayTypeClose \<equiv> TypDiag ExpectedArrayTypeClose"
abbreviation dg_ExpectedTensorTypeSemi :: diag_id where "dg_ExpectedTensorTypeSemi \<equiv> TypDiag ExpectedTensorTypeSemi"
abbreviation dg_ExpectedTensorTypeClose :: diag_id where "dg_ExpectedTensorTypeClose \<equiv> TypDiag ExpectedTensorTypeClose"
abbreviation dg_ExpectedTensorOpen :: diag_id where "dg_ExpectedTensorOpen \<equiv> TypDiag ExpectedTensorOpen"
abbreviation dg_ExpectedFatArrow :: diag_id where "dg_ExpectedFatArrow \<equiv> PatDiag ExpectedFatArrow"
abbreviation dg_ExpectedTuplePatClose :: diag_id where "dg_ExpectedTuplePatClose \<equiv> PatDiag ExpectedTuplePatClose"
abbreviation dg_ExpectedStructPatClose :: diag_id where "dg_ExpectedStructPatClose \<equiv> PatDiag ExpectedStructPatClose"
abbreviation dg_ExpectedFieldPatName :: diag_id where "dg_ExpectedFieldPatName \<equiv> PatDiag ExpectedFieldPatName"
abbreviation dg_ExpectedModOpenOrSemi :: diag_id where "dg_ExpectedModOpenOrSemi \<equiv> DecDiag ExpectedModOpenOrSemi"
abbreviation dg_ExpectedForInImpl :: diag_id where "dg_ExpectedForInImpl \<equiv> DecDiag ExpectedForInImpl"
abbreviation dg_ExpectedTraitFnSemi :: diag_id where "dg_ExpectedTraitFnSemi \<equiv> DecDiag ExpectedTraitFnSemi"
abbreviation dg_ExpectedReturnTypeColon :: diag_id where "dg_ExpectedReturnTypeColon \<equiv> DecDiag ExpectedReturnTypeColon"
abbreviation dg_ExpectedBreakOrContinueSemi :: diag_id where "dg_ExpectedBreakOrContinueSemi \<equiv> DecDiag ExpectedBreakOrContinueSemi"
abbreviation dg_ExpectedLessThan :: diag_id where "dg_ExpectedLessThan \<equiv> GrcDiag ExpectedLessThan"
abbreviation dg_ExpectedGreaterThan :: diag_id where "dg_ExpectedGreaterThan \<equiv> GrcDiag ExpectedGreaterThan"
abbreviation dg_ExpectedTypeParam :: diag_id where "dg_ExpectedTypeParam \<equiv> GrcDiag ExpectedTypeParam"
abbreviation dg_ExpectedCommaOrGreater :: diag_id where "dg_ExpectedCommaOrGreater \<equiv> GrcDiag ExpectedCommaOrGreater"
abbreviation dg_ExpectedModKeyword :: diag_id where "dg_ExpectedModKeyword \<equiv> ModDiag ExpectedModKeyword"
abbreviation dg_ExpectedModName :: diag_id where "dg_ExpectedModName \<equiv> ModDiag ExpectedModName"
abbreviation dg_ExpectedUseItem :: diag_id where "dg_ExpectedUseItem \<equiv> ModDiag ExpectedUseItem"
abbreviation dg_ExpectedUseItemOrGlob :: diag_id where "dg_ExpectedUseItemOrGlob \<equiv> ModDiag ExpectedUseItemOrGlob"
abbreviation dg_ExpectedAsAlias :: diag_id where "dg_ExpectedAsAlias \<equiv> ModDiag ExpectedAsAlias"
abbreviation dg_DocCommentNotAllowed :: diag_id where "dg_DocCommentNotAllowed \<equiv> DocDiag DocCommentNotAllowed"

primrec general_template :: "general_diag \<Rightarrow> string" where
  "general_template ExpectedTopLevelDecl = ''expected a top-level declaration''"
| "general_template ExpectedStmt = ''expected statement''"
| "general_template ExpectedExpr = ''expected expression''"
| "general_template ExpectedPattern = ''expected pattern''"
| "general_template ExpectedRegime = ''expected `imm`, `mut`, or `proj`''"
| "general_template ExpectedName = ''expected {construct} name, found `{found}`''"
| "general_template ExpectedKeyword = ''expected `{keyword}`, found `{found}`''"
| "general_template ExpectedIdentifier = ''expected identifier {context}, found `{found}`''"
| "general_template ExpectedTypeName = ''expected type name''"

primrec general_diag_code :: "general_diag \<Rightarrow> nat" where
  "general_diag_code ExpectedTopLevelDecl = 0"
| "general_diag_code ExpectedStmt = 1"
| "general_diag_code ExpectedExpr = 2"
| "general_diag_code ExpectedPattern = 3"
| "general_diag_code ExpectedRegime = 4"
| "general_diag_code ExpectedName = 5"
| "general_diag_code ExpectedKeyword = 6"
| "general_diag_code ExpectedIdentifier = 7"
| "general_diag_code ExpectedTypeName = 8"

primrec token_template :: "token_diag \<Rightarrow> string" where
  "token_template ExpectedToken = ''expected `{tok}`''"
| "token_template ExpectedTokenAfter = ''expected `{tok}` after `{after}`''"
| "token_template ExpectedPathSegment = ''expected identifier after `::`''"
| "token_template RedundantPathSeparator = ''redundant `::` in path''"

primrec token_diag_code :: "token_diag \<Rightarrow> nat" where
  "token_diag_code ExpectedToken = 9"
| "token_diag_code ExpectedTokenAfter = 10"
| "token_diag_code ExpectedPathSegment = 11"
| "token_diag_code RedundantPathSeparator = 12"

primrec delim_template :: "delim_diag \<Rightarrow> string" where
  "delim_template ExpectedOpen = ''expected `{tok}` {context}, found `{found}`''"
| "delim_template ExpectedClose = ''expected `{tok}` {context}, found `{found}`''"
| "delim_template ExpectedSemi = ''expected `;` {context}, found `{found}`''"
| "delim_template ExpectedColon = ''expected `:` {context}, found `{found}`''"
| "delim_template ExpectedEq = ''expected `=` {context}, found `{found}`''"

primrec delim_diag_code :: "delim_diag \<Rightarrow> nat" where
  "delim_diag_code ExpectedOpen = 13"
| "delim_diag_code ExpectedClose = 14"
| "delim_diag_code ExpectedSemi = 15"
| "delim_diag_code ExpectedColon = 16"
| "delim_diag_code ExpectedEq = 17"

primrec expr_template :: "expr_diag \<Rightarrow> string" where
  "expr_template ExpectedArgListClose = ''expected `)` to close argument list''"
| "expr_template ExpectedParenExprClose = ''expected `)` to close parenthesized expression''"
| "expr_template ExpectedTupleExprClose = ''expected `)` to close tuple expression''"
| "expr_template ExpectedFieldName = ''expected field name after `.`''"
| "expr_template ExpectedFieldInitName = ''expected field name in struct literal''"
| "expr_template ExpectedStructLitClose = ''expected `}` to close struct literal''"
| "expr_template ExpectedArrayLitClose = ''expected `]` to close array literal''"
| "expr_template ExpectedTensorIndexClose = ''expected `]` to close tensor index expression''"
| "expr_template ExpectedTensorLitDim = ''expected at least one dimension after `;` in tensor literal''"
| "expr_template ExpectedTensorLitClose = ''expected `]` to close tensor literal''"
| "expr_template ExpectedRSquare = ''expected `]` to close index expression''"

primrec expr_diag_code :: "expr_diag \<Rightarrow> nat" where
  "expr_diag_code ExpectedArgListClose = 18"
| "expr_diag_code ExpectedParenExprClose = 19"
| "expr_diag_code ExpectedTupleExprClose = 20"
| "expr_diag_code ExpectedFieldName = 21"
| "expr_diag_code ExpectedFieldInitName = 22"
| "expr_diag_code ExpectedStructLitClose = 23"
| "expr_diag_code ExpectedArrayLitClose = 24"
| "expr_diag_code ExpectedTensorIndexClose = 25"
| "expr_diag_code ExpectedTensorLitDim = 26"
| "expr_diag_code ExpectedTensorLitClose = 27"
| "expr_diag_code ExpectedRSquare = 28"

primrec type_template :: "type_diag \<Rightarrow> string" where
  "type_template ExpectedTupleTypeClose = ''expected `)` to close tuple type''"
| "type_template ExpectedArrayTypeSemi = ''expected `;` in array type''"
| "type_template ExpectedArrayTypeClose = ''expected `]` to close array type''"
| "type_template ExpectedTensorTypeSemi = ''expected `;` in tensor type''"
| "type_template ExpectedTensorTypeClose = ''expected `]` to close tensor type''"
| "type_template ExpectedTensorOpen = ''expected `[` after `tensor`''"

primrec type_diag_code :: "type_diag \<Rightarrow> nat" where
  "type_diag_code ExpectedTupleTypeClose = 29"
| "type_diag_code ExpectedArrayTypeSemi = 30"
| "type_diag_code ExpectedArrayTypeClose = 31"
| "type_diag_code ExpectedTensorTypeSemi = 32"
| "type_diag_code ExpectedTensorTypeClose = 33"
| "type_diag_code ExpectedTensorOpen = 34"

primrec pat_template :: "pat_diag \<Rightarrow> string" where
  "pat_template ExpectedFatArrow = ''expected `=>` after pattern''"
| "pat_template ExpectedTuplePatClose = ''expected `)` to close tuple pattern''"
| "pat_template ExpectedStructPatClose = ''expected `}` to close struct pattern''"
| "pat_template ExpectedFieldPatName = ''expected field name in struct pattern''"

primrec pat_diag_code :: "pat_diag \<Rightarrow> nat" where
  "pat_diag_code ExpectedFatArrow = 35"
| "pat_diag_code ExpectedTuplePatClose = 36"
| "pat_diag_code ExpectedStructPatClose = 37"
| "pat_diag_code ExpectedFieldPatName = 38"

primrec decl_template :: "decl_diag \<Rightarrow> string" where
  "decl_template ExpectedModOpenOrSemi = ''expected `{{` or `;` after module name''"
| "decl_template ExpectedForInImpl = ''expected `for` in trait implementation''"
| "decl_template ExpectedTraitFnSemi = ''expected `;` after trait method signature''"
| "decl_template ExpectedReturnTypeColon = ''expected `:` for return type, found `{found}`''"
| "decl_template ExpectedBreakOrContinueSemi = ''expected `;` after `break` or `continue`''"

primrec decl_diag_code :: "decl_diag \<Rightarrow> nat" where
  "decl_diag_code ExpectedModOpenOrSemi = 39"
| "decl_diag_code ExpectedForInImpl = 40"
| "decl_diag_code ExpectedTraitFnSemi = 41"
| "decl_diag_code ExpectedReturnTypeColon = 42"
| "decl_diag_code ExpectedBreakOrContinueSemi = 43"

primrec generic_template :: "generic_diag \<Rightarrow> string" where
  "generic_template ExpectedLessThan = ''expected `<` to start generic parameters''"
| "generic_template ExpectedGreaterThan = ''expected `>` to close generic parameters''"
| "generic_template ExpectedTypeParam = ''expected type parameter name''"
| "generic_template ExpectedCommaOrGreater = ''expected `,` or `>` in generic parameter list''"

primrec generic_diag_code :: "generic_diag \<Rightarrow> nat" where
  "generic_diag_code ExpectedLessThan = 44"
| "generic_diag_code ExpectedGreaterThan = 45"
| "generic_diag_code ExpectedTypeParam = 46"
| "generic_diag_code ExpectedCommaOrGreater = 47"

primrec module_template :: "module_diag \<Rightarrow> string" where
  "module_template ExpectedModKeyword = ''expected `mod` after `pub`''"
| "module_template ExpectedModName = ''expected module name after `mod`''"
| "module_template ExpectedUseItem = ''expected item name after `use`''"
| "module_template ExpectedUseItemOrGlob = ''expected identifier or `*` in use declaration''"
| "module_template ExpectedAsAlias = ''expected alias name after `as`''"

primrec module_diag_code :: "module_diag \<Rightarrow> nat" where
  "module_diag_code ExpectedModKeyword = 48"
| "module_diag_code ExpectedModName = 49"
| "module_diag_code ExpectedUseItem = 50"
| "module_diag_code ExpectedUseItemOrGlob = 51"
| "module_diag_code ExpectedAsAlias = 52"

primrec doc_template :: "doc_diag \<Rightarrow> string" where
  "doc_template DocCommentNotAllowed = ''documentation comment not allowed on this item''"

primrec doc_diag_code :: "doc_diag \<Rightarrow> nat" where
  "doc_diag_code DocCommentNotAllowed = 53"

primrec messageFor :: "diag_id \<Rightarrow> string" where
  "messageFor (GenDiag x) = general_template x"
| "messageFor (TokDiag x) = token_template x"
| "messageFor (DelDiag x) = delim_template x"
| "messageFor (ExpDiag x) = expr_template x"
| "messageFor (TypDiag x) = type_template x"
| "messageFor (PatDiag x) = pat_template x"
| "messageFor (DecDiag x) = decl_template x"
| "messageFor (GrcDiag x) = generic_template x"
| "messageFor (ModDiag x) = module_template x"
| "messageFor (DocDiag x) = doc_template x"

primrec diag_index :: "diag_id \<Rightarrow> nat" where
  "diag_index (GenDiag x) = general_diag_code x"
| "diag_index (TokDiag x) = token_diag_code x"
| "diag_index (DelDiag x) = delim_diag_code x"
| "diag_index (ExpDiag x) = expr_diag_code x"
| "diag_index (TypDiag x) = type_diag_code x"
| "diag_index (PatDiag x) = pat_diag_code x"
| "diag_index (DecDiag x) = decl_diag_code x"
| "diag_index (GrcDiag x) = generic_diag_code x"
| "diag_index (ModDiag x) = module_diag_code x"
| "diag_index (DocDiag x) = doc_diag_code x"

definition diag_code :: "diag_id \<Rightarrow> u16" where
  "diag_code D = of_nat (diag_index D)"

end
