(* ===== verification/ParserState.thy ===== *)
theory ParserState
  imports TokenStream NodePool PhaseDiagnostic DiagIDs "HOL-Library.State_Monad"
begin

text \<open>
  The parser's state and the helpers of \<^verbatim>\<open>lib/Parser/Parser.cpp\<close> on which every production
  is built: reading tokens, expecting one, recording diagnostics, allocating nodes,
  resynchronising, comma-separated lists and paths.  A method of \<^verbatim>\<open>Parser\<close> is a computation
  of the state monad over \<open>parser_state\<close>.

  The field \<open>Stuck\<close> is not part of the program.  It is set where the program would not go on: an
  index out of range trips an assertion of the pool, or a loop or the recursion runs longer than
  the fuel the model gives it.  The development proves that it is never set.
\<close>

record parser_state =
  StructLitAllowed :: bool
  Stream :: token_stream
  Pool :: node_pool
  Interner :: interner
  Errors :: "phase_diagnostic list"
  Stuck :: bool

type_synonym 'a parser = "(parser_state, 'a) state"

abbreviation done_with :: "'a \<Rightarrow> 'a parser" where
  "done_with \<equiv> State_Monad.return"

definition gets :: "(parser_state \<Rightarrow> 'a) \<Rightarrow> 'a parser" where
  "gets f = State (\<lambda>s. (f s, s))"

definition modify :: "(parser_state \<Rightarrow> parser_state) \<Rightarrow> unit parser" where
  "modify f = State (\<lambda>s. ((), f s))"

definition stuck :: "'a \<Rightarrow> 'a parser" where
  "stuck x = State (\<lambda>s. (x, s \<lparr> Stuck := True \<rparr>))"

section \<open>Tokens\<close>

definition pPeek :: "u32 \<Rightarrow> kind parser" where
  "pPeek Offset = gets (\<lambda>s. peek Offset (Stream s))"

definition pPeekToken :: "token parser" where
  "pPeekToken = gets (\<lambda>s. peekToken 0 (Stream s))"

definition pPrevious :: "token parser" where
  "pPrevious = gets (\<lambda>s. previous (Stream s))"

definition pCheck :: "kind \<Rightarrow> bool parser" where
  "pCheck K = gets (\<lambda>s. check K (Stream s))"

definition pAtEof :: "bool parser" where
  "pAtEof = gets (\<lambda>s. atEof (Stream s))"

definition pAdvance :: "token parser" where
  "pAdvance = State (\<lambda>s. case advance (Stream s) of (t, TS) \<Rightarrow> (t, s \<lparr> Stream := TS \<rparr>))"

definition pConsume :: "kind \<Rightarrow> bool parser" where
  "pConsume K = State (\<lambda>s. case consume K (Stream s) of (b, TS) \<Rightarrow> (b, s \<lparr> Stream := TS \<rparr>))"

definition pTextOf :: "span \<Rightarrow> string parser" where
  "pTextOf S = gets (\<lambda>s. textOf (Stream s) S)"

definition internText :: "span \<Rightarrow> interned_str parser" where
  "internText S = State (\<lambda>s.
     case intern (textOf (Stream s) S) (Interner s) of (i, I) \<Rightarrow> (i, s \<lparr> Interner := I \<rparr>))"

definition internStr :: "string \<Rightarrow> interned_str parser" where
  "internStr S = State (\<lambda>s. case intern S (Interner s) of (i, I) \<Rightarrow> (i, s \<lparr> Interner := I \<rparr>))"

section \<open>Nodes\<close>

definition pAlloc ::
    "node_kind \<Rightarrow> span \<Rightarrow> node_index list \<Rightarrow> u32 \<Rightarrow> u32 \<Rightarrow> node_index parser" where
  "pAlloc K S ks p f = State (\<lambda>s.
     case alloc K S ks p f (Pool s) of (i, P) \<Rightarrow> (i, s \<lparr> Pool := P \<rparr>))"

definition pAllocLeaf :: "node_kind \<Rightarrow> span \<Rightarrow> u32 \<Rightarrow> node_index parser" where
  "pAllocLeaf K S p = pAlloc K S [] p 0"

definition makeErrorNode :: "span \<Rightarrow> node_index parser" where
  "makeErrorNode S = pAllocLeaf nk_Error S 0"

definition pKindOf :: "node_index \<Rightarrow> node_kind parser" where
  "pKindOf i = State (\<lambda>s. case kindOf (Pool s) i of
     Some K \<Rightarrow> (K, s) | None \<Rightarrow> (nk_Error, s \<lparr> Stuck := True \<rparr>))"

definition pSpanOf :: "node_index \<Rightarrow> span parser" where
  "pSpanOf i = State (\<lambda>s. case spanOf (Pool s) i of
     Some S \<Rightarrow> (S, s) | None \<Rightarrow> (Span 0 0, s \<lparr> Stuck := True \<rparr>))"

section \<open>Diagnostics\<close>

definition newDiag :: "span \<Rightarrow> diag_id \<Rightarrow> phase_diagnostic" where
  "newDiag S D = \<lparr> Ph = PhaseParser, LocalID = diag_code D, Loc = S, Labels = [], Notes = [],
     Helps = [], Args = [] \<rparr>"

definition d_arg :: "string \<Rightarrow> string \<Rightarrow> phase_diagnostic \<Rightarrow> phase_diagnostic" where
  "d_arg Name Value PD = PD \<lparr> Args := Args PD @ [(Name, Value)] \<rparr>"

definition d_label :: "span \<Rightarrow> string \<Rightarrow> phase_diagnostic \<Rightarrow> phase_diagnostic" where
  "d_label S Msg PD = PD \<lparr> Labels := Labels PD @ [DiagnosticLabel S Msg] \<rparr>"

definition d_note :: "string \<Rightarrow> phase_diagnostic \<Rightarrow> phase_diagnostic" where
  "d_note Msg PD = PD \<lparr> Notes := Notes PD @ [Msg] \<rparr>"

definition d_help :: "string \<Rightarrow> phase_diagnostic \<Rightarrow> phase_diagnostic" where
  "d_help Msg PD = PD \<lparr> Helps := Helps PD @ [Msg] \<rparr>"

text \<open>
  \<^verbatim>\<open>diag(S, D)\<close> appends a new diagnostic, which the chained calls then extend in place;
  \<open>pDiag\<close> appends the diagnostic they leave.
\<close>

definition pDiag :: "phase_diagnostic \<Rightarrow> unit parser" where
  "pDiag PD = modify (\<lambda>s. s \<lparr> Errors := Errors s @ [PD] \<rparr>)"

definition addError :: "span \<Rightarrow> diag_id \<Rightarrow> unit parser" where
  "addError S D = pDiag (newDiag S D)"

definition pErrorCount :: "nat parser" where
  "pErrorCount = gets (\<lambda>s. length (Errors s))"

text \<open>\<^verbatim>\<open>Span{A.Start, B.End}\<close>, the way most nodes get their span.\<close>

definition cover :: "span \<Rightarrow> span \<Rightarrow> span" where
  "cover A B = Span (Start A) (End B)"

section \<open>Expecting a token\<close>

definition expectIn :: "kind \<Rightarrow> diag_id \<Rightarrow> string \<Rightarrow> token parser" where
  "expectIn K D Context = do {
     ok \<leftarrow> pConsume K;
     if ok then pPrevious
     else do {
       T \<leftarrow> pPeekToken;
       let Name = getTokenName K;
       let Found = getTokenName (TokenKind T);
       let B = d_arg ''found'' Found
                 (d_arg ''keyword'' Name (d_arg ''tok'' Name (newDiag (TokenSpan T) D)));
       pDiag (if Context = [] then B else d_arg ''context'' Context B);
       done_with (Token tk_unknown (TokenSpan T))
     }
   }"

definition expect :: "kind \<Rightarrow> diag_id \<Rightarrow> token parser" where
  "expect K D = expectIn K D []"

definition expectAndIntern :: "kind \<Rightarrow> diag_id \<Rightarrow> interned_str parser" where
  "expectAndIntern K D = do {
     T \<leftarrow> expect K D;
     internText (TokenSpan T)
   }"

definition expectName :: "kind \<Rightarrow> string \<Rightarrow> interned_str parser" where
  "expectName K Construct = do {
     ok \<leftarrow> pConsume K;
     if ok then do {
       T \<leftarrow> pPrevious;
       internText (TokenSpan T)
     } else do {
       T \<leftarrow> pPeekToken;
       let Found = getTokenName (TokenKind T);
       pDiag (d_arg ''found'' Found (d_arg ''construct'' Construct
         (newDiag (TokenSpan T) dg_ExpectedName)));
       internText (TokenSpan T)
     }
   }"

section \<open>Loops\<close>

text \<open>
  A loop whose body says whether to go round again.  The fuel is one more than the number of
  tokens left: no loop of the parser goes round without consuming a token.
\<close>

primrec loopN :: "nat \<Rightarrow> ('a \<Rightarrow> (bool \<times> 'a) parser) \<Rightarrow> 'a \<Rightarrow> 'a parser" where
  "loopN 0 body x = stuck x"
| "loopN (Suc n) body x = do {
     (again, y) \<leftarrow> body x;
     if again then loopN n body y else done_with y
   }"

definition loopP :: "('a \<Rightarrow> (bool \<times> 'a) parser) \<Rightarrow> 'a \<Rightarrow> 'a parser" where
  "loopP body x = do {
     n \<leftarrow> gets (\<lambda>s. remaining (Stream s));
     loopN (Suc n) body x
   }"

text \<open>\<^verbatim>\<open>while (!check(K1) && ... && !atEof()) advance();\<close>\<close>

definition skipTo :: "kind list \<Rightarrow> unit parser" where
  "skipTo Ks = loopP (\<lambda>_. do {
     K \<leftarrow> pPeek 0;
     if K \<in> set Ks \<or> K = tk_eof then done_with (False, ())
     else do {
       pAdvance;
       done_with (True, ())
     }
   }) ()"

text \<open>\<^verbatim>\<open>while (!check(Close) && !atEof()) Children.push_back(ParseElement());\<close>\<close>

definition parseUntil ::
    "kind \<Rightarrow> node_index parser \<Rightarrow> node_index list \<Rightarrow> node_index list parser" where
  "parseUntil Close ParseElement = loopP (\<lambda>Kids. do {
     K \<leftarrow> pPeek 0;
     if K = Close \<or> K = tk_eof then done_with (False, Kids)
     else do {
       N \<leftarrow> ParseElement;
       done_with (True, Kids @ [N])
     }
   })"

text \<open>
  \<^verbatim>\<open>while (consume(comma)) { if (check(S1) || ...) break; Elems.push_back(ParseElement()); }\<close>
\<close>

definition parseMore ::
    "kind list \<Rightarrow> node_index parser \<Rightarrow> node_index list \<Rightarrow> node_index list parser" where
  "parseMore Stops ParseElement = loopP (\<lambda>Elems. do {
     more \<leftarrow> pConsume tk_comma;
     if \<not> more then done_with (False, Elems)
     else do {
       K \<leftarrow> pPeek 0;
       if K \<in> set Stops then done_with (False, Elems)
       else do {
         N \<leftarrow> ParseElement;
         done_with (True, Elems @ [N])
       }
     }
   })"

definition parseCommaSeparated ::
    "node_index list \<Rightarrow> kind \<Rightarrow> node_index parser \<Rightarrow> node_index list parser" where
  "parseCommaSeparated Kids Close ParseElement = do {
     K \<leftarrow> pPeek 0;
     if K = Close \<or> K = tk_eof then done_with Kids
     else loopP (\<lambda>Cs. do {
       ErrorsBefore \<leftarrow> pErrorCount;
       N \<leftarrow> ParseElement;
       ErrorsAfter \<leftarrow> pErrorCount;
       (if ErrorsAfter \<noteq> ErrorsBefore then skipTo [tk_comma, Close] else done_with ());
       more \<leftarrow> pConsume tk_comma;
       if \<not> more then done_with (False, Cs @ [N])
       else do {
         closed \<leftarrow> pCheck Close;
         done_with (\<not> closed, Cs @ [N])
       }
     }) Kids
   }"

section \<open>Doc comments, paths, recovery, regimes\<close>

definition parseComments :: "kind \<Rightarrow> node_kind \<Rightarrow> node_index list parser" where
  "parseComments K NK = loopP (\<lambda>Out. do {
     more \<leftarrow> pCheck K;
     if \<not> more then done_with (False, Out)
     else do {
       Tok \<leftarrow> pAdvance;
       Text \<leftarrow> internText (TokenSpan Tok);
       N \<leftarrow> pAllocLeaf NK (TokenSpan Tok) Text;
       done_with (True, Out @ [N])
     }
   }) []"

definition parseDocComments :: "node_index list parser" where
  "parseDocComments = parseComments tk_doc_comment nk_DocComment"

definition parseFileDocComments :: "node_index list parser" where
  "parseFileDocComments = parseComments tk_file_doc_comment nk_FileDocComment"

text \<open>
  \<open>parsePathSegments\<close> widens the span it is given by reference; the model returns whether there
  was a segment, and the span.
\<close>

definition skipSeparators :: "unit parser" where
  "skipSeparators = loopP (\<lambda>_. do {
     more \<leftarrow> pCheck tk_colon_colon;
     if \<not> more then done_with (False, ())
     else do {
       T \<leftarrow> pPeekToken;
       addError (TokenSpan T) dg_RedundantPathSeparator;
       pAdvance;
       done_with (True, ())
     }
   }) ()"

definition parsePathSegments :: "span \<Rightarrow> (bool \<times> span) parser" where
  "parsePathSegments PathSpan = loopP (\<lambda>(IsPath, PathSpan). do {
     more \<leftarrow> pCheck tk_colon_colon;
     if \<not> more then done_with (False, (IsPath, PathSpan))
     else do {
       pAdvance;
       skipSeparators;
       expect tk_identifier dg_ExpectedPathSegment;
       Prev \<leftarrow> pPrevious;
       done_with (True, (True, Span (Start PathSpan) (End (TokenSpan Prev))))
     }
   }) (False, PathSpan)"

definition syncKinds :: "kind list" where
  "syncKinds = [tk_r_brace, kw_fn, kw_struct, kw_enum, kw_union, kw_mod, kw_use, kw_const,
     kw_trait, kw_impl, kw_unsafe, kw_break, kw_continue, kw_let, kw_if, kw_while, kw_for,
     kw_match, kw_ret]"

definition synchronize :: "unit parser" where
  "synchronize = do {
     eof \<leftarrow> pAtEof;
     (if \<not> eof then do { pAdvance; done_with () } else done_with ());
     loopP (\<lambda>_. do {
       eof \<leftarrow> pAtEof;
       if eof then done_with (False, ())
       else do {
         Prev \<leftarrow> pPrevious;
         if TokenKind Prev = tk_semi then done_with (False, ())
         else do {
           K \<leftarrow> pPeek 0;
           if K \<in> set syncKinds then done_with (False, ())
           else do {
             pAdvance;
             done_with (True, ())
           }
         }
       }
     }) ()
   }"

definition parseRegime :: "regime parser" where
  "parseRegime = do {
     K \<leftarrow> pPeek 0;
     if K = kw_imm then do { pAdvance; done_with Imm }
     else if K = kw_mut then do { pAdvance; done_with Mut }
     else if K = kw_proj then do { pAdvance; done_with Proj }
     else done_with NoRegime
   }"

text \<open>\<^verbatim>\<open>const llvm::SaveAndRestore<bool> X(StructLitAllowed, Value);\<close> around the rest of a block.\<close>

definition withStructLit :: "bool \<Rightarrow> 'a parser \<Rightarrow> 'a parser" where
  "withStructLit Value m = do {
     Old \<leftarrow> gets StructLitAllowed;
     modify (\<lambda>s. s \<lparr> StructLitAllowed := Value \<rparr>);
     r \<leftarrow> m;
     modify (\<lambda>s. s \<lparr> StructLitAllowed := Old \<rparr>);
     done_with r
   }"

text \<open>
  The productions that call each other in a cycle, once a token has been consumed since the
  production was entered; a \<open>calls\<close> runs them.
\<close>

datatype nonterm = CExpr int | CType | CPat | CStmt | CIf | CTopLevel

type_synonym calls = "nonterm \<Rightarrow> node_index parser"

end
