(* ===== verification/ParseType.thy ===== *)
theory ParseType
  imports ParserState
begin

text \<open>
  Types (\<^verbatim>\<open>lib/Parser/ParseType.cpp\<close>) and constant expressions
  (\<^verbatim>\<open>lib/Parser/ParseConst.cpp\<close>).  A production that the source reaches through a cycle of
  productions takes the \<open>calls\<close> that run the cycle as its first argument.
\<close>

section \<open>Types\<close>

definition parseConstExpr :: "(int \<Rightarrow> node_index parser) \<Rightarrow> int \<Rightarrow> node_index parser" where
  "parseConstExpr parseE MinBP = parseE MinBP"

definition parseTupleType :: "calls \<Rightarrow> node_index parser" where
  "parseTupleType call = do {
     T \<leftarrow> pAdvance;
     Types \<leftarrow> parseCommaSeparated [] tk_r_paren (call CType);
     E \<leftarrow> expect tk_r_paren dg_ExpectedTupleTypeClose;
     pAlloc nk_TupleType (cover (TokenSpan T) (TokenSpan E)) Types 0 0
   }"

definition parseNamedType :: "node_index parser" where
  "parseNamedType = do {
     K \<leftarrow> pPeek 0;
     if K \<noteq> tk_identifier \<and> K \<noteq> kw_Self then do {
       T \<leftarrow> pPeekToken;
       addError (TokenSpan T) dg_ExpectedTypeName;
       makeErrorNode (TokenSpan T)
     } else do {
       T \<leftarrow> pAdvance;
       (IsPath, Full) \<leftarrow> parsePathSegments (TokenSpan T);
       Name \<leftarrow> internText Full;
       pAllocLeaf nk_NamedType Full Name
     }
   }"

definition parseArrayType :: "calls \<Rightarrow> node_index parser" where
  "parseArrayType call = do {
     T \<leftarrow> pAdvance;
     Ty \<leftarrow> call CType;
     expect tk_semi dg_ExpectedArrayTypeSemi;
     Len \<leftarrow> parseConstExpr (\<lambda>bp. call (CExpr bp)) 0;
     E \<leftarrow> expect tk_r_square dg_ExpectedArrayTypeClose;
     pAlloc nk_ArrayType (cover (TokenSpan T) (TokenSpan E)) [Ty, Len] 0 0
   }"

definition parseTensorType :: "calls \<Rightarrow> node_index parser" where
  "parseTensorType call = do {
     T \<leftarrow> pAdvance;
     expect tk_l_square dg_ExpectedTensorOpen;
     Ty \<leftarrow> call CType;
     expect tk_semi dg_ExpectedTensorTypeSemi;
     Cs \<leftarrow> parseCommaSeparated [Ty] tk_r_square (parseConstExpr (\<lambda>bp. call (CExpr bp)) 0);
     (if length Cs = 1 then do {
        P \<leftarrow> pPeekToken;
        addError (TokenSpan P) dg_ExpectedTensorLitDim
      } else done_with ());
     E \<leftarrow> expect tk_r_square dg_ExpectedTensorTypeClose;
     pAlloc nk_TensorType (cover (TokenSpan T) (TokenSpan E)) Cs 0 0
   }"

definition parseType :: "calls \<Rightarrow> node_index parser" where
  "parseType call = do {
     K \<leftarrow> pPeek 0;
     if K = tk_l_paren then parseTupleType call
     else if K = tk_l_square then parseArrayType call
     else if K = kw_tensor then parseTensorType call
     else parseNamedType
   }"

end
