(* ===== verification/ParseGenerics.thy ===== *)
theory ParseGenerics
  imports ParseType
begin

text \<open>
  Generic parameters and arguments (\<^verbatim>\<open>lib/Parser/ParseGenerics.cpp\<close>).
\<close>

section \<open>Generics\<close>

definition parseGenericParam :: "calls \<Rightarrow> node_index parser" where
  "parseGenericParam call = do {
     T \<leftarrow> pPeekToken;
     if TokenKind T \<noteq> tk_identifier then do {
       addError (TokenSpan T) dg_ExpectedTypeParam;
       makeErrorNode (TokenSpan T)
     } else do {
       NameTok \<leftarrow> pAdvance;
       Name \<leftarrow> internText (TokenSpan NameTok);
       colon \<leftarrow> pConsume tk_colon;
       Bound \<leftarrow> (if colon then parseType call else done_with NullNode);
       Prev \<leftarrow> pPrevious;
       pAlloc nk_GenericParam (cover (TokenSpan T) (TokenSpan Prev)) [Bound] Name 0
     }
   }"

definition parseGenericParams :: "calls \<Rightarrow> node_index parser" where
  "parseGenericParams call = do {
     open \<leftarrow> pCheck tk_less;
     if \<not> open then done_with NullNode
     else do {
       T \<leftarrow> pAdvance;
       K \<leftarrow> pPeek 0;
       Params \<leftarrow> (if K \<noteq> tk_greater then do {
                    N \<leftarrow> parseGenericParam call;
                    parseMore [tk_greater] (parseGenericParam call) [N]
                  } else done_with []);
       E \<leftarrow> expect tk_greater dg_ExpectedGreaterThan;
       pAlloc nk_GenericParamList (cover (TokenSpan T) (TokenSpan E)) Params 0 0
     }
   }"

text \<open>No production of the grammar uses \<open>parseGenericArgs\<close> yet.\<close>

definition parseGenericArgs :: "calls \<Rightarrow> node_index parser" where
  "parseGenericArgs call = do {
     T \<leftarrow> pAdvance;
     K \<leftarrow> pPeek 0;
     As \<leftarrow> (if K \<noteq> tk_greater then do {
                N \<leftarrow> parseType call;
                parseMore [tk_greater] (parseType call) [N]
              } else done_with []);
     E \<leftarrow> expect tk_greater dg_ExpectedGreaterThan;
     pAlloc nk_GenericArgList (cover (TokenSpan T) (TokenSpan E)) As 0 0
   }"

end
