(* ===== verification/ParsePat.thy ===== *)
theory ParsePat
  imports ParseGenerics
begin

text \<open>
  Patterns (\<^verbatim>\<open>lib/Parser/ParsePat.cpp\<close>).
\<close>

section \<open>Patterns\<close>

definition parseFieldPat :: "calls \<Rightarrow> node_index parser" where
  "parseFieldPat call = do {
     T \<leftarrow> pPeekToken;
     if TokenKind T \<noteq> tk_identifier then do {
       addError (TokenSpan T) dg_ExpectedFieldPatName;
       makeErrorNode (TokenSpan T)
     } else do {
       NameTok \<leftarrow> pAdvance;
       Name \<leftarrow> internText (TokenSpan NameTok);
       colon \<leftarrow> pConsume tk_colon;
       if colon then do {
         Pat \<leftarrow> call CPat;
         PS \<leftarrow> pSpanOf Pat;
         pAlloc nk_FieldPat (cover (TokenSpan NameTok) PS) [Pat] Name 0
       } else pAllocLeaf nk_FieldPat (TokenSpan NameTok) Name
     }
   }"

definition parseStructPat :: "calls \<Rightarrow> interned_str \<Rightarrow> span \<Rightarrow> node_index parser" where
  "parseStructPat call Name Start0 = do {
     pAdvance;
     Fields \<leftarrow> parseCommaSeparated [] tk_r_brace (parseFieldPat call);
     E \<leftarrow> expect tk_r_brace dg_ExpectedStructPatClose;
     pAlloc nk_StructPat (cover Start0 (TokenSpan E)) Fields Name 0
   }"

definition parseTuplePat :: "calls \<Rightarrow> interned_str \<Rightarrow> span \<Rightarrow> node_index parser" where
  "parseTuplePat call Name Start0 = do {
     pAdvance;
     Pats \<leftarrow> parseCommaSeparated [] tk_r_paren (call CPat);
     E \<leftarrow> expect tk_r_paren dg_ExpectedTuplePatClose;
     pAlloc nk_TuplePat (cover Start0 (TokenSpan E)) Pats Name 0
   }"

definition literalKinds :: "kind list" where
  "literalKinds = [tk_integer_literal, tk_float_literal, tk_char_literal, tk_string_literal,
     kw_true, kw_false]"

definition parsePat :: "calls \<Rightarrow> node_index parser" where
  "parsePat call = do {
     Tok \<leftarrow> pPeekToken;
     if TokenKind Tok = tk_identifier then do {
       Text \<leftarrow> pTextOf (TokenSpan Tok);
       if Text = ''_'' then do {
         pAdvance;
         pAllocLeaf nk_WildcardPat (TokenSpan Tok) 0
       } else do {
         pAdvance;
         (IsPath, PathSpan) \<leftarrow> parsePathSegments (TokenSpan Tok);
         Name \<leftarrow> internText PathSpan;
         K \<leftarrow> pPeek 0;
         if K = tk_l_paren then parseTuplePat call Name PathSpan
         else if K = tk_l_brace then parseStructPat call Name PathSpan
         else pAllocLeaf nk_IdentPat PathSpan (makePayload Name NoRegime)
       }
     }
     else if TokenKind Tok = tk_l_paren then parseTuplePat call NullStr (TokenSpan Tok)
     else if TokenKind Tok \<in> set literalKinds then do {
       pAdvance;
       Text \<leftarrow> internText (TokenSpan Tok);
       pAllocLeaf nk_LiteralPat (TokenSpan Tok) Text
     }
     else do {
       addError (TokenSpan Tok) dg_ExpectedPattern;
       pAdvance;
       makeErrorNode (TokenSpan Tok)
     }
   }"

end
