(* ===== verification/ParseBlock.thy ===== *)
theory ParseBlock
  imports ParsePat
begin

text \<open>
  Blocks, \<open>if\<close>, \<open>while\<close> and \<open>match\<close>, which \<^verbatim>\<open>lib/Parser/ParseStmt.cpp\<close> and
  \<^verbatim>\<open>lib/Parser/ParseExpr.cpp\<close> share: each is an expression and a statement.
\<close>

section \<open>Blocks and the constructs built on them\<close>

definition parseBlockExpr :: "calls \<Rightarrow> node_index parser" where
  "parseBlockExpr call = do {
     T \<leftarrow> expectIn tk_l_brace dg_ExpectedOpen ''to start block'';
     Stmts \<leftarrow> parseUntil tk_r_brace (call CStmt) [];
     E \<leftarrow> expectIn tk_r_brace dg_ExpectedClose ''to close block'';
     pAlloc nk_BlockExpr (cover (TokenSpan T) (TokenSpan E)) Stmts 0 0
   }"

definition parseUnsafeBlock :: "calls \<Rightarrow> node_index parser" where
  "parseUnsafeBlock call = do {
     T \<leftarrow> expect kw_unsafe dg_ExpectedKeyword;
     ok \<leftarrow> pConsume tk_l_brace;
     (if \<not> ok then do {
        P \<leftarrow> pPeekToken;
        pDiag (d_arg ''context'' ''to start unsafe block body''
          (d_arg ''tok'' ''{'' (newDiag (TokenSpan P) dg_ExpectedOpen)))
      } else done_with ());
     Stmts \<leftarrow> parseUntil tk_r_brace (call CStmt) [];
     E \<leftarrow> expectIn tk_r_brace dg_ExpectedClose ''to close unsafe block'';
     pAlloc nk_UnsafeBlock (cover (TokenSpan T) (TokenSpan E)) Stmts 0 0
   }"

definition parseIfExpr :: "calls \<Rightarrow> node_index parser" where
  "parseIfExpr call = do {
     T \<leftarrow> expect kw_if dg_ExpectedKeyword;
     Cond \<leftarrow> withStructLit False (call (CExpr 0));
     Then \<leftarrow> parseBlockExpr call;
     K \<leftarrow> pPeek 0;
     Cs \<leftarrow> (if K = kw_else then do {
               pAdvance;
               K' \<leftarrow> pPeek 0;
               Else \<leftarrow> (if K' = kw_if then call CIf else parseBlockExpr call);
               done_with [Cond, Then, Else]
             } else done_with [Cond, Then]);
     Prev \<leftarrow> pPrevious;
     pAlloc nk_IfExpr (cover (TokenSpan T) (TokenSpan Prev)) Cs 0 0
   }"

definition parseWhileStmt :: "calls \<Rightarrow> node_index parser" where
  "parseWhileStmt call = do {
     T \<leftarrow> expect kw_while dg_ExpectedKeyword;
     Cond \<leftarrow> withStructLit False (call (CExpr 0));
     Body \<leftarrow> parseBlockExpr call;
     Prev \<leftarrow> pPrevious;
     pAlloc nk_WhileStmt (cover (TokenSpan T) (TokenSpan Prev)) [Cond, Body] 0 0
   }"

definition parseMatchArm :: "calls \<Rightarrow> node_index parser" where
  "parseMatchArm call = do {
     Pat \<leftarrow> parsePat call;
     expect tk_fat_arrow dg_ExpectedFatArrow;
     Value \<leftarrow> call (CExpr 0);
     comma \<leftarrow> pConsume tk_comma;
     (if \<not> comma then do { pConsume tk_semi; done_with () } else done_with ());
     PS \<leftarrow> pSpanOf Pat;
     VS \<leftarrow> pSpanOf Value;
     pAlloc nk_MatchArm (cover PS VS) [Pat, Value] 0 0
   }"

definition parseMatchExpr :: "calls \<Rightarrow> node_index parser" where
  "parseMatchExpr call = do {
     T \<leftarrow> expect kw_match dg_ExpectedKeyword;
     Scrutinee \<leftarrow> withStructLit False (call (CExpr 0));
     expectIn tk_l_brace dg_ExpectedOpen ''to start match body'';
     Arms \<leftarrow> parseUntil tk_r_brace (parseMatchArm call) [];
     E \<leftarrow> expectIn tk_r_brace dg_ExpectedClose ''to close match body'';
     pAlloc nk_MatchExpr (cover (TokenSpan T) (TokenSpan E)) (Scrutinee # Arms) 0 0
   }"

end
