(* ===== verification/ParseExpr.thy ===== *)
theory ParseExpr
  imports ParseBlock
begin

text \<open>
  Expressions (\<^verbatim>\<open>lib/Parser/ParseExpr.cpp\<close>): the prefix and postfix forms and the loop over
  binding powers.
\<close>

section \<open>Expressions\<close>

definition assignKinds :: "kind list" where
  "assignKinds = [tk_eq, tk_plus_eq, tk_minus_eq, tk_star_eq, tk_slash_eq, tk_percent_eq,
     tk_amp_eq, tk_pipe_eq, tk_caret_eq, tk_less_less_eq, tk_greater_greater_eq]"

definition compareKinds :: "kind list" where
  "compareKinds = [tk_eq_eq, tk_bang_eq, tk_less, tk_greater, tk_less_eq, tk_greater_eq]"

definition infixBindingPower :: "kind \<Rightarrow> int \<times> int" where
  "infixBindingPower K =
     (if K \<in> set assignKinds then (10, 9)
      else if K = tk_pipe_pipe then (20, 21)
      else if K = tk_amp_amp then (30, 31)
      else if K \<in> set compareKinds then (40, 41)
      else if K = tk_pipe then (50, 51)
      else if K = tk_caret then (60, 61)
      else if K = tk_amp then (70, 71)
      else if K = tk_less_less \<or> K = tk_greater_greater then (80, 81)
      else if K = tk_plus \<or> K = tk_minus then (90, 91)
      else if K = tk_star \<or> K = tk_slash \<or> K = tk_percent then (100, 101)
      else (-1, -1))"

definition prefixBindingPower :: "kind \<Rightarrow> int" where
  "prefixBindingPower K =
     (if K = tk_bang \<or> K = tk_minus \<or> K = tk_amp \<or> K = tk_star then 110 else -1)"

definition opPayload :: "kind \<Rightarrow> u32" where
  "opPayload K = makeOpPayload (kind_code K)"

definition parseLitExpr :: "token \<Rightarrow> node_index parser" where
  "parseLitExpr Tok = do {
     Text \<leftarrow> internText (TokenSpan Tok);
     pAllocLeaf nk_LitExpr (TokenSpan Tok) (makePayload Text NoRegime)
   }"

definition parseArgList :: "calls \<Rightarrow> node_index parser" where
  "parseArgList call = do {
     T \<leftarrow> expectIn tk_l_paren dg_ExpectedOpen ''to start argument list'';
     withStructLit True (do {
       K \<leftarrow> pPeek 0;
       As \<leftarrow> (if K \<noteq> tk_r_paren then do {
                  N \<leftarrow> call (CExpr 0);
                  parseMore [] (call (CExpr 0)) [N]
                } else done_with []);
       E \<leftarrow> expect tk_r_paren dg_ExpectedArgListClose;
       pAlloc nk_ArgList (cover (TokenSpan T) (TokenSpan E)) As 0 0
     })
   }"

definition parseFieldInit :: "calls \<Rightarrow> node_index parser" where
  "parseFieldInit call = do {
     T \<leftarrow> pPeekToken;
     if TokenKind T \<noteq> tk_identifier then do {
       addError (TokenSpan T) dg_ExpectedFieldInitName;
       makeErrorNode (TokenSpan T)
     } else do {
       NameTok \<leftarrow> pAdvance;
       Name \<leftarrow> internText (TokenSpan NameTok);
       colon \<leftarrow> pConsume tk_colon;
       if colon then do {
         Init \<leftarrow> call (CExpr 0);
         IS \<leftarrow> pSpanOf Init;
         pAlloc nk_FieldInit (cover (TokenSpan NameTok) IS) [Init] Name 0
       } else do {
         Ident \<leftarrow> pAllocLeaf nk_IdentExpr (TokenSpan NameTok) Name;
         pAlloc nk_FieldInit (TokenSpan NameTok) [Ident] Name 0
       }
     }
   }"

definition parseStructLitExpr :: "calls \<Rightarrow> interned_str \<Rightarrow> span \<Rightarrow> node_index parser" where
  "parseStructLitExpr call Name Start0 = do {
     pAdvance;
     withStructLit True (do {
       Fields \<leftarrow> parseCommaSeparated [] tk_r_brace (parseFieldInit call);
       E \<leftarrow> expect tk_r_brace dg_ExpectedStructLitClose;
       pAlloc nk_StructLitExpr (cover Start0 (TokenSpan E)) Fields Name 0
     })
   }"

definition parseArrayLitExpr :: "calls \<Rightarrow> node_index parser" where
  "parseArrayLitExpr call = do {
     T \<leftarrow> pAdvance;
     withStructLit True (do {
       empty \<leftarrow> pCheck tk_r_square;
       if empty then do {
         E \<leftarrow> pAdvance;
         pAlloc nk_ArrayLitExpr (cover (TokenSpan T) (TokenSpan E)) [] 0 0
       } else do {
         First \<leftarrow> call (CExpr 0);
         semi \<leftarrow> pConsume tk_semi;
         if semi then do {
           Count \<leftarrow> parseConstExpr (\<lambda>bp. call (CExpr bp)) 0;
           E \<leftarrow> expect tk_r_square dg_ExpectedArrayLitClose;
           pAlloc nk_ArrayRepeatExpr (cover (TokenSpan T) (TokenSpan E)) [First, Count] 0 0
         } else do {
           Elems \<leftarrow> parseMore [tk_r_square] (call (CExpr 0)) [First];
           E \<leftarrow> expect tk_r_square dg_ExpectedArrayLitClose;
           pAlloc nk_ArrayLitExpr (cover (TokenSpan T) (TokenSpan E)) Elems 0 0
         }
       }
     })
   }"

text \<open>The number of values of a tensor literal is cut to 16 bits, and so is the comparison.\<close>

definition parseTensorLitExpr :: "calls \<Rightarrow> node_index parser" where
  "parseTensorLitExpr call = do {
     T \<leftarrow> pAdvance;
     expect tk_l_square dg_ExpectedTensorOpen;
     Values \<leftarrow> withStructLit True (do {
       First \<leftarrow> call (CExpr 0);
       parseMore [tk_semi, tk_r_square] (call (CExpr 0)) [First]
     });
     let NumValues = (of_nat (length Values) :: u16);
     expectIn tk_semi dg_ExpectedSemi ''in tensor literal'';
     Cs \<leftarrow> parseCommaSeparated Values tk_r_square (parseConstExpr (\<lambda>bp. call (CExpr bp)) 0);
     (if (of_nat (length Cs) :: u16) = NumValues then do {
        P \<leftarrow> pPeekToken;
        addError (TokenSpan P) dg_ExpectedTensorLitDim
      } else done_with ());
     E \<leftarrow> expect tk_r_square dg_ExpectedTensorLitClose;
     pAlloc nk_TensorLitExpr (cover (TokenSpan T) (TokenSpan E)) Cs (makeOpPayload NumValues) 0
   }"

definition parsePostfixIndex :: "calls \<Rightarrow> node_index \<Rightarrow> node_index parser" where
  "parsePostfixIndex call Lhs = do {
     pAdvance;
     LhsSpan \<leftarrow> pSpanOf Lhs;
     Cs \<leftarrow> withStructLit True (do {
       First \<leftarrow> call (CExpr 0);
       parseMore [tk_r_square] (call (CExpr 0)) [Lhs, First]
     });
     let IsTensor = (length Cs > 2);
     Close \<leftarrow> expect tk_r_square (if IsTensor then dg_ExpectedTensorIndexClose
                                  else dg_ExpectedRSquare);
     if IsTensor then pAlloc nk_TensorIndexExpr (cover LhsSpan (TokenSpan Close)) Cs 0 0
     else pAlloc nk_IndexExpr (cover LhsSpan (TokenSpan Close)) [Cs ! 0, Cs ! 1] 0 0
   }"

text \<open>
  \<open>x.0.1\<close> lexes as a float after the dot.  \<open>splitFloat\<close> gives the two parts of the text, the
  second without a trailing \<open>f\<close>, when there is a dot with something after it.
\<close>

definition splitFloat :: "string \<Rightarrow> (string \<times> string) option" where
  "splitFloat Text =
     (case find_char Text (CHR ''.'') 0 of
        None \<Rightarrow> None
      | Some DotPos \<Rightarrow>
          if DotPos + 1 < length Text then
            let Frac = drop (DotPos + 1) Text in
            Some (take DotPos Text, if last Frac = CHR ''f'' then butlast Frac else Frac)
          else None)"

definition parseFieldAccess :: "node_index \<Rightarrow> node_index parser" where
  "parseFieldAccess Lhs = do {
     Field \<leftarrow> expectAndIntern tk_identifier dg_ExpectedFieldName;
     LS \<leftarrow> pSpanOf Lhs;
     Prev \<leftarrow> pPrevious;
     pAlloc nk_FieldExpr (cover LS (TokenSpan Prev)) [Lhs] (makePayload Field NoRegime) 0
   }"

definition parseTupleIndex :: "node_index \<Rightarrow> span \<Rightarrow> string \<Rightarrow> node_index parser" where
  "parseTupleIndex Lhs TokSpan Text = do {
     LS \<leftarrow> pSpanOf Lhs;
     Name \<leftarrow> internStr Text;
     pAlloc nk_TupleIndexExpr (cover LS TokSpan) [Lhs] Name 0
   }"

definition parseDot :: "node_index \<Rightarrow> node_index parser" where
  "parseDot Lhs = do {
     pAdvance;
     T \<leftarrow> pPeekToken;
     Text \<leftarrow> pTextOf (TokenSpan T);
     if TokenKind T = tk_integer_literal then do {
       pAdvance;
       parseTupleIndex Lhs (TokenSpan T) Text
     }
     else if TokenKind T = tk_float_literal then
       (case splitFloat Text of
          Some (IntPart, FracPart) \<Rightarrow> do {
            pAdvance;
            N \<leftarrow> parseTupleIndex Lhs (TokenSpan T) IntPart;
            (if FracPart \<noteq> [] \<and> list_all isdigit FracPart
             then parseTupleIndex N (TokenSpan T) FracPart else done_with N)
          }
        | None \<Rightarrow> parseFieldAccess Lhs)
     else parseFieldAccess Lhs
   }"

text \<open>One round of the loop over postfix forms, and the loop.\<close>

definition parsePostfix :: "calls \<Rightarrow> node_index \<Rightarrow> (bool \<times> node_index) parser" where
  "parsePostfix call Lhs = do {
     K \<leftarrow> pPeek 0;
     if K = tk_l_paren then do {
       As \<leftarrow> parseArgList call;
       LS \<leftarrow> pSpanOf Lhs;
       AS \<leftarrow> pSpanOf As;
       N \<leftarrow> pAlloc nk_CallExpr (cover LS AS) [Lhs, As] 0 0;
       done_with (True, N)
     }
     else if K = tk_dot then do {
       N \<leftarrow> parseDot Lhs;
       done_with (True, N)
     }
     else if K = tk_l_square then do {
       N \<leftarrow> parsePostfixIndex call Lhs;
       done_with (True, N)
     }
     else if K = tk_question then do {
       pAdvance;
       LS \<leftarrow> pSpanOf Lhs;
       Prev \<leftarrow> pPrevious;
       N \<leftarrow> pAlloc nk_PropagateExpr (cover LS (TokenSpan Prev)) [Lhs] 0 0;
       done_with (True, N)
     }
     else if K = kw_as then do {
       pAdvance;
       Ty \<leftarrow> parseType call;
       LS \<leftarrow> pSpanOf Lhs;
       TyS \<leftarrow> pSpanOf Ty;
       N \<leftarrow> pAlloc nk_CastExpr (cover LS TyS) [Lhs, Ty] 0 0;
       done_with (True, N)
     }
     else done_with (False, Lhs)
   }"

definition parsePostfixOrCallExpr :: "calls \<Rightarrow> node_index \<Rightarrow> node_index parser" where
  "parsePostfixOrCallExpr call = loopP (parsePostfix call)"

definition parseParenExpr :: "calls \<Rightarrow> token \<Rightarrow> node_index parser" where
  "parseParenExpr call Tok = do {
     pAdvance;
     withStructLit True (do {
       empty \<leftarrow> pCheck tk_r_paren;
       if empty then do {
         E \<leftarrow> pAdvance;
         pAlloc nk_TupleExpr (cover (TokenSpan Tok) (TokenSpan E)) [] 0 0
       } else do {
         Inner \<leftarrow> call (CExpr 0);
         comma \<leftarrow> pCheck tk_comma;
         if comma then do {
           Elems \<leftarrow> parseMore [tk_r_paren] (call (CExpr 0)) [Inner];
           E \<leftarrow> expect tk_r_paren dg_ExpectedTupleExprClose;
           pAlloc nk_TupleExpr (cover (TokenSpan Tok) (TokenSpan E)) Elems 0 0
         } else do {
           expect tk_r_paren dg_ExpectedParenExprClose;
           done_with Inner
         }
       }
     })
   }"

definition parseNameExpr :: "calls \<Rightarrow> token \<Rightarrow> node_index parser" where
  "parseNameExpr call Tok = do {
     pAdvance;
     (IsPath, PathSpan) \<leftarrow> parsePathSegments (TokenSpan Tok);
     Name \<leftarrow> internText PathSpan;
     Allowed \<leftarrow> gets StructLitAllowed;
     K \<leftarrow> pPeek 0;
     if Allowed \<and> K = tk_l_brace then parseStructLitExpr call Name PathSpan
     else pAllocLeaf (if IsPath then nk_PathExpr else nk_IdentExpr) PathSpan Name
   }"

definition parseUnaryExpr :: "calls \<Rightarrow> token \<Rightarrow> node_index parser" where
  "parseUnaryExpr call Tok = do {
     let RhsBP = prefixBindingPower (TokenKind Tok);
     pAdvance;
     Operand \<leftarrow> call (CExpr RhsBP);
     OS \<leftarrow> pSpanOf Operand;
     pAlloc nk_UnaryExpr (cover (TokenSpan Tok) OS) [Operand] (opPayload (TokenKind Tok)) 0
   }"

definition parseStarExpr :: "calls \<Rightarrow> token \<Rightarrow> node_index parser" where
  "parseStarExpr call Tok = do {
     let RhsBP = prefixBindingPower (TokenKind Tok);
     pAdvance;
     Operand \<leftarrow> call (CExpr RhsBP);
     assign \<leftarrow> pConsume tk_eq;
     if assign then do {
       Rhs \<leftarrow> call (CExpr 0);
       RS \<leftarrow> pSpanOf Rhs;
       pAlloc nk_ProjAssignExpr (cover (TokenSpan Tok) RS) [Operand, Rhs] 0 0
     } else do {
       OS \<leftarrow> pSpanOf Operand;
       pAlloc nk_UnaryExpr (cover (TokenSpan Tok) OS) [Operand] (opPayload (TokenKind Tok)) 0
     }
   }"

definition syncTokens :: "kind list" where
  "syncTokens = [tk_semi, tk_r_brace, tk_r_paren, tk_r_square, tk_comma]"

definition parsePrefixExpr :: "calls \<Rightarrow> node_index parser" where
  "parsePrefixExpr call = do {
     Tok \<leftarrow> pPeekToken;
     let K = TokenKind Tok;
     if K \<in> set literalKinds then do {
       pAdvance;
       parseLitExpr Tok
     }
     else if K = tk_identifier then parseNameExpr call Tok
     else if K = tk_l_paren then parseParenExpr call Tok
     else if K = tk_l_square then parseArrayLitExpr call
     else if K = kw_if then parseIfExpr call
     else if K = kw_while then parseWhileStmt call
     else if K = kw_match then parseMatchExpr call
     else if K = kw_unsafe then parseUnsafeBlock call
     else if K = tk_l_brace then parseBlockExpr call
     else if K = kw_tensor then parseTensorLitExpr call
     else if K = tk_bang \<or> K = tk_minus \<or> K = tk_amp then parseUnaryExpr call Tok
     else if K = tk_star then parseStarExpr call Tok
     else do {
       (if K \<in> set syncTokens then done_with () else do { pAdvance; done_with () });
       addError (TokenSpan Tok) dg_ExpectedExpr;
       makeErrorNode (TokenSpan Tok)
     }
   }"

text \<open>One round of the loop over infix operators, after the postfix forms, and the loop.\<close>

definition parseInfix :: "calls \<Rightarrow> int \<Rightarrow> node_index \<Rightarrow> (bool \<times> node_index) parser" where
  "parseInfix call MinBP LHS = do {
     K \<leftarrow> pPeek 0;
     let (LeftBP, RightBP) = infixBindingPower K;
     if LeftBP < MinBP then done_with (False, LHS)
     else do {
       Op \<leftarrow> pAdvance;
       RHS \<leftarrow> call (CExpr RightBP);
       RK \<leftarrow> pKindOf RHS;
       if RK = nk_Error then done_with (False, RHS)
       else do {
         LS \<leftarrow> pSpanOf LHS;
         RS \<leftarrow> pSpanOf RHS;
         N \<leftarrow> pAlloc nk_BinaryExpr (cover LS RS) [LHS, RHS] (opPayload (TokenKind Op)) 0;
         done_with (True, N)
       }
     }
   }"

definition parseExpr :: "calls \<Rightarrow> int \<Rightarrow> node_index parser" where
  "parseExpr call MinBP = do {
     LHS0 \<leftarrow> parsePrefixExpr call;
     loopP (\<lambda>LHS. do {
       LHS \<leftarrow> parsePostfixOrCallExpr call LHS;
       parseInfix call MinBP LHS
     }) LHS0
   }"

end
