(* ===== verification/ParseStmt.thy ===== *)
theory ParseStmt
  imports ParseExpr
begin

text \<open>
  Statements (\<^verbatim>\<open>lib/Parser/ParseStmt.cpp\<close>).
\<close>

section \<open>Statements\<close>

text \<open>The end of a \<open>let\<close>: resynchronise after an error node, or require the semicolon.\<close>

definition endLetStmt :: "node_index list \<Rightarrow> unit parser" where
  "endLetStmt Cs = do {
     failed \<leftarrow> (if Cs \<noteq> [] then do { K \<leftarrow> pKindOf (last Cs); done_with (K = nk_Error) }
               else done_with False);
     if failed then do {
       skipTo [tk_semi, tk_r_brace];
       pConsume tk_semi;
       done_with ()
     } else do {
       semi \<leftarrow> pConsume tk_semi;
       if \<not> semi then do {
         Prev \<leftarrow> pPrevious;
         Next \<leftarrow> pPeekToken;
         let Found = getTokenName (TokenKind Next);
         pDiag (d_label (TokenSpan Next) ''unexpected token''
           (d_note ''all statements must end with `;` in Eter''
             (d_help ''add `;` here''
               (d_arg ''found'' Found
                 (d_arg ''context'' ''in let statement''
                   (newDiag (TokenSpan Prev) dg_ExpectedSemi))))))
       } else done_with ()
     }
   }"

definition parseLetStmt :: "calls \<Rightarrow> node_index parser" where
  "parseLetStmt call = do {
     T \<leftarrow> expect kw_let dg_ExpectedKeyword;
     LetRegime \<leftarrow> parseRegime;
     Name \<leftarrow> expectName tk_identifier ''variable'';
     colon \<leftarrow> pConsume tk_colon;
     Tys \<leftarrow> (if colon then do { Ty \<leftarrow> parseType call; done_with [Ty] } else done_with []);
     eq \<leftarrow> pConsume tk_eq;
     Cs \<leftarrow> (if eq then do { Init \<leftarrow> call (CExpr 0); done_with (Tys @ [Init]) }
            else done_with Tys);
     endLetStmt Cs;
     Prev \<leftarrow> pPrevious;
     pAlloc nk_LetStmt (cover (TokenSpan T) (TokenSpan Prev)) Cs (makePayload Name LetRegime) 0
   }"

definition parseRetStmt :: "calls \<Rightarrow> node_index parser" where
  "parseRetStmt call = do {
     T \<leftarrow> expect kw_ret dg_ExpectedKeyword;
     RetExpr \<leftarrow> call (CExpr 0);
     E \<leftarrow> expectIn tk_semi dg_ExpectedSemi ''after expression'';
     pAlloc nk_RetStmt (cover (TokenSpan T) (TokenSpan E)) [RetExpr] 0 0
   }"

definition parseForStmt :: "calls \<Rightarrow> node_index parser" where
  "parseForStmt call = do {
     T \<leftarrow> expect kw_for dg_ExpectedKeyword;
     LoopRegime \<leftarrow> parseRegime;
     Name \<leftarrow> expectName tk_identifier ''loop variable'';
     expect kw_in dg_ExpectedKeyword;
     Iterable \<leftarrow> withStructLit False (call (CExpr 0));
     Body \<leftarrow> parseBlockExpr call;
     BS \<leftarrow> pSpanOf Body;
     pAlloc nk_ForStmt (cover (TokenSpan T) BS) [Iterable, Body] (makePayload Name LoopRegime) 0
   }"

definition parseBreakStmt :: "node_index parser" where
  "parseBreakStmt = do {
     Tok \<leftarrow> pAdvance;
     expect tk_semi dg_ExpectedBreakOrContinueSemi;
     pAllocLeaf nk_BreakStmt (TokenSpan Tok) 0
   }"

definition parseContinueStmt :: "node_index parser" where
  "parseContinueStmt = do {
     Tok \<leftarrow> pAdvance;
     expect tk_semi dg_ExpectedBreakOrContinueSemi;
     pAllocLeaf nk_ContinueStmt (TokenSpan Tok) 0
   }"

definition exprStmtKinds :: "kind list" where
  "exprStmtKinds = [tk_identifier, tk_integer_literal, tk_float_literal, tk_char_literal,
     tk_string_literal, kw_true, kw_false, tk_l_paren, tk_l_square, tk_bang, tk_minus, tk_amp,
     tk_star, kw_tensor, kw_match]"

definition parseExprStmt :: "calls \<Rightarrow> node_index parser" where
  "parseExprStmt call = do {
     Expr \<leftarrow> parseExpr call 0;
     EK \<leftarrow> pKindOf Expr;
     if EK = nk_Error then do {
       synchronize;
       done_with Expr
     } else do {
       semi \<leftarrow> pConsume tk_semi;
       (if \<not> semi then do {
          Prev \<leftarrow> pPrevious;
          Next \<leftarrow> pPeekToken;
          let Found = getTokenName (TokenKind Next);
          let Insert = Span (End (TokenSpan Prev)) (End (TokenSpan Prev));
          pDiag (d_label (TokenSpan Next) ''unexpected token''
            (d_note ''in Eter, expression statements must end with `;`''
              (d_help ''add `;` here''
                (d_arg ''found'' Found
                  (d_arg ''context'' ''after expression'' (newDiag Insert dg_ExpectedSemi))))))
        } else done_with ());
       done_with Expr
     }
   }"

definition parseStmt :: "calls \<Rightarrow> node_index parser" where
  "parseStmt call = do {
     Tok \<leftarrow> pPeekToken;
     let K = TokenKind Tok;
     if K = kw_let then parseLetStmt call
     else if K = kw_if then parseIfExpr call
     else if K = kw_for then parseForStmt call
     else if K = kw_while then parseWhileStmt call
     else if K = tk_l_brace then parseBlockExpr call
     else if K = kw_ret then parseRetStmt call
     else if K = kw_break then parseBreakStmt
     else if K = kw_continue then parseContinueStmt
     else if K = kw_unsafe then parseUnsafeBlock call
     else if K \<in> set exprStmtKinds then parseExprStmt call
     else do {
       addError (TokenSpan Tok) dg_ExpectedStmt;
       synchronize;
       makeErrorNode (TokenSpan Tok)
     }
   }"

end
