(* ===== verification/ParseDecl.thy ===== *)
theory ParseDecl
  imports ParseStmt
begin

text \<open>
  Declarations (\<^verbatim>\<open>lib/Parser/ParseDecl.cpp\<close>).
\<close>

section \<open>Declarations\<close>

definition genericChild :: "node_index \<Rightarrow> node_index list" where
  "genericChild GenericParams = (if GenericParams \<noteq> NullNode then [GenericParams] else [])"

definition parseConstDecl :: "calls \<Rightarrow> node_index list \<Rightarrow> u32 \<Rightarrow> node_index parser" where
  "parseConstDecl call Docs Flags = do {
     T \<leftarrow> expect kw_const dg_ExpectedKeyword;
     Name \<leftarrow> expectName tk_identifier ''constant'';
     expectIn tk_colon dg_ExpectedColon ''after constant name'';
     Type \<leftarrow> parseType call;
     expectIn tk_eq dg_ExpectedEq ''in constant declaration'';
     Val \<leftarrow> parseConstExpr (parseExpr call) 0;
     expectIn tk_semi dg_ExpectedSemi ''after constant declaration'';
     Prev \<leftarrow> pPrevious;
     pAlloc nk_ConstDecl (cover (TokenSpan T) (TokenSpan Prev)) (Docs @ [Type, Val]) Name Flags
   }"

definition parseStructField :: "calls \<Rightarrow> node_index parser" where
  "parseStructField call = do {
     T0 \<leftarrow> pPeekToken;
     R \<leftarrow> parseRegime;
     T \<leftarrow> pPeekToken;
     if TokenKind T \<noteq> tk_identifier then do {
       let Found = getTokenName (TokenKind T);
       pDiag (d_arg ''found'' Found (d_arg ''construct'' ''field''
         (newDiag (TokenSpan T) dg_ExpectedName)));
       makeErrorNode (cover (TokenSpan T0) (TokenSpan T))
     } else do {
       NameTok \<leftarrow> pAdvance;
       Name \<leftarrow> internText (TokenSpan NameTok);
       colon \<leftarrow> pConsume tk_colon;
       typed \<leftarrow> (if \<not> colon then do {
                   FoundTok \<leftarrow> pPeekToken;
                   let Found = getTokenName (TokenKind FoundTok);
                   pDiag (d_arg ''found'' Found (d_arg ''context'' ''after field name''
                     (newDiag (TokenSpan FoundTok) dg_ExpectedColon)));
                   pCheck tk_identifier
                 } else done_with True);
       if \<not> typed then do {
         Prev \<leftarrow> pPrevious;
         makeErrorNode (cover (TokenSpan T0) (TokenSpan Prev))
       } else do {
         Type \<leftarrow> parseType call;
         Prev \<leftarrow> pPrevious;
         pAlloc nk_StructField (cover (TokenSpan T0) (TokenSpan Prev)) [Type] (makePayload Name R) 0
       }
     }
   }"

definition parseEnumVariant :: "calls \<Rightarrow> node_index parser" where
  "parseEnumVariant call = do {
     T \<leftarrow> pPeekToken;
     if TokenKind T \<noteq> tk_identifier then do {
       let Found = getTokenName (TokenKind T);
       pDiag (d_arg ''found'' Found (d_arg ''construct'' ''enum variant''
         (newDiag (TokenSpan T) dg_ExpectedName)));
       makeErrorNode (TokenSpan T)
     } else do {
       NameTok \<leftarrow> pAdvance;
       Name \<leftarrow> internText (TokenSpan NameTok);
       tuple \<leftarrow> pConsume tk_l_paren;
       if tuple then do {
         Types \<leftarrow> parseCommaSeparated [] tk_r_paren (parseType call);
         E \<leftarrow> expectIn tk_r_paren dg_ExpectedClose ''to close tuple variant'';
         pAlloc nk_EnumVariantTuple (cover (TokenSpan T) (TokenSpan E)) Types
           (makePayload Name NoRegime) 0
       } else do {
         struct \<leftarrow> pConsume tk_l_brace;
         if struct then do {
           Fields \<leftarrow> parseCommaSeparated [] tk_r_brace (parseStructField call);
           E \<leftarrow> expectIn tk_r_brace dg_ExpectedClose ''to close struct variant'';
           pAlloc nk_EnumVariantStruct (cover (TokenSpan T) (TokenSpan E)) Fields
             (makePayload Name NoRegime) 0
         } else do {
           eq \<leftarrow> pConsume tk_eq;
           if eq then do {
             Discriminant \<leftarrow> parseConstExpr (\<lambda>bp. call (CExpr bp)) 0;
             Prev \<leftarrow> pPrevious;
             pAlloc nk_EnumVariantUnit (cover (TokenSpan T) (TokenSpan Prev)) [Discriminant]
               (makePayload Name NoRegime) 0
           } else do {
             Prev \<leftarrow> pPrevious;
             pAllocLeaf nk_EnumVariantUnit (cover (TokenSpan T) (TokenSpan Prev))
               (makePayload Name NoRegime)
           }
         }
       }
     }
   }"

definition parseParam :: "calls \<Rightarrow> node_index parser" where
  "parseParam call = do {
     T \<leftarrow> pPeekToken;
     R \<leftarrow> parseRegime;
     Name \<leftarrow> expectName tk_identifier ''parameter'';
     Text \<leftarrow> gets (\<lambda>s. getStr (Interner s) Name);
     K \<leftarrow> pPeek 0;
     let IsSelfParam = (Text = Some ''self'' \<and> K \<noteq> tk_colon \<and> (K = tk_r_paren \<or> K = tk_comma));
     if IsSelfParam then do {
       Prev \<leftarrow> pPrevious;
       SelfName \<leftarrow> internStr ''Self'';
       Type \<leftarrow> pAllocLeaf nk_NamedType (TokenSpan Prev) SelfName;
       pAlloc nk_Param (cover (TokenSpan T) (TokenSpan Prev)) [Type] (makePayload Name R) 0
     } else do {
       expectIn tk_colon dg_ExpectedColon ''after parameter name'';
       Type \<leftarrow> parseType call;
       Prev \<leftarrow> pPrevious;
       pAlloc nk_Param (cover (TokenSpan T) (TokenSpan Prev)) [Type] (makePayload Name R) 0
     }
   }"

definition parseParamList :: "calls \<Rightarrow> node_index parser" where
  "parseParamList call = do {
     T \<leftarrow> expectIn tk_l_paren dg_ExpectedOpen ''to start parameter list'';
     K \<leftarrow> pPeek 0;
     Params \<leftarrow> (if K \<noteq> tk_r_paren then do {
                  N \<leftarrow> parseParam call;
                  parseMore [] (parseParam call) [N]
                } else done_with []);
     E \<leftarrow> expectIn tk_r_paren dg_ExpectedClose ''to close parameter list'';
     pAlloc nk_ParamList (cover (TokenSpan T) (TokenSpan E)) Params 0 0
   }"

definition parseReturnType :: "calls \<Rightarrow> node_index list parser" where
  "parseReturnType call = do {
     colon \<leftarrow> pConsume tk_colon;
     if colon then do {
       Ty \<leftarrow> parseType call;
       done_with [Ty]
     } else do {
       Arrow \<leftarrow> pPeekToken;
       if TokenKind Arrow = tk_arrow then do {
         pDiag (d_arg ''found'' (getTokenName (TokenKind Arrow))
           (newDiag (TokenSpan Arrow) dg_ExpectedReturnTypeColon));
         pAdvance;
         Ty \<leftarrow> parseType call;
         done_with [Ty]
       } else done_with []
     }
   }"

definition parseFnDecl :: "calls \<Rightarrow> node_index list \<Rightarrow> u32 \<Rightarrow> bool \<Rightarrow> node_index parser" where
  "parseFnDecl call Docs Flags0 ExpectBody = do {
     T \<leftarrow> pPeekToken;
     uns \<leftarrow> pConsume kw_unsafe;
     let Flags = (if uns then Flags0 OR UnsafeFlag else Flags0);
     expect kw_fn dg_ExpectedKeyword;
     ReturnRegime \<leftarrow> parseRegime;
     Name \<leftarrow> expectName tk_identifier ''function'';
     GenericParams \<leftarrow> parseGenericParams call;
     Params \<leftarrow> parseParamList call;
     Ret \<leftarrow> parseReturnType call;
     Body \<leftarrow> (if ExpectBody then parseBlockExpr call
             else do {
               expect tk_semi dg_ExpectedTraitFnSemi;
               done_with NullNode
             });
     Prev \<leftarrow> pPrevious;
     pAlloc nk_FnDecl (cover (TokenSpan T) (TokenSpan Prev))
       (Docs @ genericChild GenericParams @ [Params] @ Ret @ [Body])
       (makePayload Name ReturnRegime) Flags
   }"

text \<open>
  The declarations with a body of members between braces: \<open>struct\<close>, \<open>enum\<close> and \<open>union\<close>
  differ in their keyword, their messages, their member and the kind of node.
\<close>

definition parseBodyDecl ::
    "calls \<Rightarrow> kind \<Rightarrow> string \<Rightarrow> node_index parser \<Rightarrow> node_kind
     \<Rightarrow> node_index list \<Rightarrow> u32 \<Rightarrow> node_index parser" where
  "parseBodyDecl call Kw What Member NK Docs Flags = do {
     T \<leftarrow> expect Kw dg_ExpectedKeyword;
     Name \<leftarrow> expectName tk_identifier What;
     GenericParams \<leftarrow> parseGenericParams call;
     expectIn tk_l_brace dg_ExpectedOpen (''to start '' @ What @ '' body'');
     Cs \<leftarrow> parseCommaSeparated (Docs @ genericChild GenericParams) tk_r_brace Member;
     E \<leftarrow> expectIn tk_r_brace dg_ExpectedClose (''to close '' @ What @ '' body'');
     pAlloc NK (cover (TokenSpan T) (TokenSpan E)) Cs Name Flags
   }"

definition parseStructDecl :: "calls \<Rightarrow> node_index list \<Rightarrow> u32 \<Rightarrow> node_index parser" where
  "parseStructDecl call = parseBodyDecl call kw_struct ''struct'' (parseStructField call) nk_StructDecl"

definition parseEnumDecl :: "calls \<Rightarrow> node_index list \<Rightarrow> u32 \<Rightarrow> node_index parser" where
  "parseEnumDecl call = parseBodyDecl call kw_enum ''enum'' (parseEnumVariant call) nk_EnumDecl"

definition parseUnionDecl :: "calls \<Rightarrow> node_index list \<Rightarrow> u32 \<Rightarrow> node_index parser" where
  "parseUnionDecl call = parseBodyDecl call kw_union ''union'' (parseStructField call) nk_UnionDecl"

definition parseModDecl :: "calls \<Rightarrow> node_index list \<Rightarrow> u32 \<Rightarrow> node_index parser" where
  "parseModDecl call Docs Flags = do {
     T \<leftarrow> expect kw_mod dg_ExpectedKeyword;
     Name \<leftarrow> expectName tk_identifier ''module'';
     inline \<leftarrow> pConsume tk_l_brace;
     if inline then do {
       Cs \<leftarrow> parseUntil tk_r_brace (call CTopLevel) Docs;
       E \<leftarrow> expectIn tk_r_brace dg_ExpectedClose ''to close module body'';
       pAlloc nk_ModDecl (cover (TokenSpan T) (TokenSpan E)) Cs Name Flags
     } else do {
       P \<leftarrow> pPeekToken;
       if TokenKind P = tk_semi then do {
         pAdvance;
         pAlloc nk_ModDeclFile (cover (TokenSpan T) (TokenSpan P)) Docs Name Flags
       } else do {
         addError (TokenSpan P) dg_ExpectedModOpenOrSemi;
         makeErrorNode (TokenSpan P)
       }
     }
   }"

text \<open>The segments after the first, stopping before \<open>::*\<close> and before anything else.\<close>

definition parseUseSegments :: "span \<Rightarrow> span parser" where
  "parseUseSegments = loopP (\<lambda>PathSpan. do {
     K \<leftarrow> pPeek 0;
     if K \<noteq> tk_colon_colon then done_with (False, PathSpan)
     else do {
       K1 \<leftarrow> pPeek 1;
       if K1 = tk_star \<or> K1 \<noteq> tk_identifier then done_with (False, PathSpan)
       else do {
         pAdvance;
         pAdvance;
         Prev \<leftarrow> pPrevious;
         done_with (True, cover PathSpan (TokenSpan Prev))
       }
     }
   })"

definition parseUseTail :: "span \<Rightarrow> (span \<times> interned_str) parser" where
  "parseUseTail PathSpan = do {
     FullPath \<leftarrow> internText PathSpan;
     K \<leftarrow> pPeek 0;
     if K = tk_colon_colon then do {
       pAdvance;
       star \<leftarrow> pConsume tk_star;
       if star then do {
         Prev \<leftarrow> pPrevious;
         Full \<leftarrow> internText (cover PathSpan (TokenSpan Prev));
         done_with (TokenSpan Prev, Full)
       } else do {
         P \<leftarrow> pPeekToken;
         addError (TokenSpan P) dg_ExpectedUseItemOrGlob;
         done_with (PathSpan, FullPath)
       }
     } else do {
       as_alias \<leftarrow> pConsume kw_as;
       if as_alias then do {
         expectAndIntern tk_identifier dg_ExpectedAsAlias;
         Prev \<leftarrow> pPrevious;
         Full \<leftarrow> internText (cover PathSpan (TokenSpan Prev));
         done_with (TokenSpan Prev, Full)
       } else done_with (PathSpan, FullPath)
     }
   }"

definition parseUseDecl :: "node_index list \<Rightarrow> u32 \<Rightarrow> node_index parser" where
  "parseUseDecl Docs Flags = do {
     T \<leftarrow> expect kw_use dg_ExpectedKeyword;
     expectIn tk_identifier dg_ExpectedIdentifier ''in use path'';
     Prev \<leftarrow> pPrevious;
     PathSpan \<leftarrow> parseUseSegments (TokenSpan Prev);
     (EndSpan, FullPath) \<leftarrow> parseUseTail PathSpan;
     expectIn tk_semi dg_ExpectedSemi ''after use declaration'';
     pAlloc nk_UseDecl (cover (TokenSpan T) EndSpan) Docs FullPath Flags
   }"

text \<open>The loop over the methods of a trait or an implementation.\<close>

definition parseMethods :: "calls \<Rightarrow> bool \<Rightarrow> node_index list \<Rightarrow> node_index list parser" where
  "parseMethods call ExpectBody = parseUntil tk_r_brace (do {
     MethodDocs \<leftarrow> parseDocComments;
     ErrorsBefore \<leftarrow> pErrorCount;
     N \<leftarrow> parseFnDecl call MethodDocs 0 ExpectBody;
     ErrorsAfter \<leftarrow> pErrorCount;
     (if ErrorsAfter \<noteq> ErrorsBefore then skipTo [tk_r_brace, kw_fn, kw_unsafe] else done_with ());
     done_with N
   })"

definition parseTraitDecl :: "calls \<Rightarrow> node_index list \<Rightarrow> u32 \<Rightarrow> node_index parser" where
  "parseTraitDecl call Docs Flags = do {
     T \<leftarrow> expect kw_trait dg_ExpectedKeyword;
     Name \<leftarrow> expectName tk_identifier ''trait'';
     GenericParams \<leftarrow> parseGenericParams call;
     expectIn tk_l_brace dg_ExpectedOpen ''to start trait body'';
     Cs \<leftarrow> parseMethods call False (Docs @ genericChild GenericParams);
     E \<leftarrow> expectIn tk_r_brace dg_ExpectedClose ''to close trait body'';
     pAlloc nk_TraitDecl (cover (TokenSpan T) (TokenSpan E)) Cs Name Flags
   }"

definition parseImplDecl :: "calls \<Rightarrow> node_index list \<Rightarrow> u32 \<Rightarrow> node_index parser" where
  "parseImplDecl call Docs Flags = do {
     T \<leftarrow> expect kw_impl dg_ExpectedKeyword;
     GenericParams \<leftarrow> parseGenericParams call;
     FirstType \<leftarrow> parseType call;
     trait \<leftarrow> pConsume kw_for;
     Types \<leftarrow> (if trait then do {
                 Ty \<leftarrow> parseType call;
                 done_with [FirstType, Ty]
               } else done_with [NullNode, FirstType]);
     expectIn tk_l_brace dg_ExpectedOpen ''to start impl body'';
     Cs \<leftarrow> parseMethods call True (Docs @ genericChild GenericParams @ Types);
     E \<leftarrow> expectIn tk_r_brace dg_ExpectedClose ''to close impl body'';
     pAlloc nk_ImplDecl (cover (TokenSpan T) (TokenSpan E)) Cs 0 Flags
   }"

definition parseTopLevelDecl :: "calls \<Rightarrow> node_index parser" where
  "parseTopLevelDecl call = do {
     Docs \<leftarrow> parseDocComments;
     pub \<leftarrow> pConsume kw_pub;
     let Flags = (if pub then PubFlag else 0);
     K \<leftarrow> pPeek 0;
     K1 \<leftarrow> pPeek 1;
     if K = kw_fn then parseFnDecl call Docs Flags True
     else if K = kw_unsafe \<and> K1 = kw_fn then do {
       pAdvance;
       parseFnDecl call Docs (Flags OR UnsafeFlag) True
     }
     else if K = kw_unsafe \<or> K = kw_const then parseConstDecl call Docs Flags
     else if K = kw_mod then parseModDecl call Docs Flags
     else if K = kw_struct then parseStructDecl call Docs Flags
     else if K = kw_enum then parseEnumDecl call Docs Flags
     else if K = kw_union then parseUnionDecl call Docs Flags
     else if K = kw_use then parseUseDecl Docs Flags
     else if K = kw_trait then parseTraitDecl call Docs Flags
     else if K = kw_impl then parseImplDecl call Docs Flags
     else do {
       Tok \<leftarrow> pPeekToken;
       (if Docs \<noteq> [] then addError (TokenSpan Tok) dg_DocCommentNotAllowed else done_with ());
       addError (TokenSpan Tok) dg_ExpectedTopLevelDecl;
       synchronize;
       makeErrorNode (TokenSpan Tok)
     }
   }"

end
