(* ===== verification/Parser.thy ===== *)
theory Parser
  imports ParseDecl
begin

text \<open>
  The whole parser (\<^verbatim>\<open>lib/Parser/Parser.cpp\<close>, \<^verbatim>\<open>Parser::parse\<close> and
  \<^verbatim>\<open>parseSourceFile\<close>): \<open>tie\<close> closes the recursion, \<open>parse\<close> runs it on a token stream.
\<close>

section \<open>Running the parser\<close>

text \<open>The recursion through \<open>calls\<close>, with fuel.\<close>

primrec tie :: "nat \<Rightarrow> calls" where
  "tie 0 = (\<lambda>nt. stuck NullNode)"
| "tie (Suc n) = (\<lambda>nt. case nt of
     CExpr MinBP \<Rightarrow> parseExpr (tie n) MinBP
   | CType \<Rightarrow> parseType (tie n)
   | CPat \<Rightarrow> parsePat (tie n)
   | CStmt \<Rightarrow> parseStmt (tie n)
   | CIf \<Rightarrow> parseIfExpr (tie n)
   | CTopLevel \<Rightarrow> parseTopLevelDecl (tie n))"

definition parseSourceFile :: "calls \<Rightarrow> node_index parser" where
  "parseSourceFile call = do {
     T \<leftarrow> pPeekToken;
     Docs \<leftarrow> parseFileDocComments;
     Cs \<leftarrow> parseUntil tk_eof (parseTopLevelDecl call) Docs;
     Prev \<leftarrow> pPrevious;
     pAlloc nk_SourceFile (cover (TokenSpan T) (TokenSpan Prev)) Cs 0 0
   }"

definition newParser :: "token_stream \<Rightarrow> interner \<Rightarrow> parser_state" where
  "newParser TS I = \<lparr> StructLitAllowed = True, Stream = TS, Pool = newNodePool, Interner = I,
     Errors = [], Stuck = False \<rparr>"

record parse_result =
  ResultPool :: node_pool
  Root :: node_index
  ResultErrors :: "phase_diagnostic list"

definition ok :: "parse_result \<Rightarrow> bool" where
  "ok R \<longleftrightarrow> ResultErrors R = []"

text \<open>
  \<open>parse\<close> returns the result and the interner, which the program updates in place; \<open>None\<close> would
  mean that the parser does not come back, or trips an assertion.
\<close>

definition parse :: "token_stream \<Rightarrow> interner \<Rightarrow> (parse_result \<times> interner) option" where
  "parse TS I =
     (case run_state (parseSourceFile (tie (Suc (remaining TS)))) (newParser TS I) of (root, s) \<Rightarrow>
        if Stuck s then None
        else Some (\<lparr> ResultPool = Pool s, Root = root, ResultErrors = Errors s \<rparr>, Interner s))"

end
