(* ===== verification/ParserLogic.thy ===== *)
theory ParserLogic
  imports Parser
begin

text \<open>
  The program logic in which the productions of the parser are proved correct.  A \<open>claim\<close> says
  what is known of a parser state: how many tokens are left at most, what the next token can be,
  which indices are nodes, how many error nodes the recorded errors still pay for, and how many
  nodes the consumed tokens pay for.  \<open>WP m Q g\<close> says that from every state that meets the
  claim \<open>g\<close> the computation \<open>m\<close> ends in a state that meets some claim \<open>h\<close> with \<open>Q r h\<close>, where
  \<open>r\<close> is its result, without touching what earlier code relies on (\<open>frame\<close>).  The rules for
  \<open>WP\<close> follow the syntax of the do-notation, so that a production is proved by unfolding it and
  applying the collection \<open>wp\<close>.
\<close>

named_theorems wp \<open>introduction rules for WP\<close>

section \<open>Parser states\<close>

abbreviation rem :: "parser_state \<Rightarrow> nat" where
  "rem s \<equiv> remaining (Stream s)"

abbreviation size_of :: "parser_state \<Rightarrow> nat" where
  "size_of s \<equiv> length (Nodes (Pool s))"

abbreviation next_kind :: "parser_state \<Rightarrow> kind" where
  "next_kind s \<equiv> peek 0 (Stream s)"

definition error_nodes :: "node_pool \<Rightarrow> nat" where
  "error_nodes P = length (filter (\<lambda>N. NKind N = nk_Error) (Nodes P))"

text \<open>An error has been reported, or there have been more nodes than indices.\<close>

definition lax :: "parser_state \<Rightarrow> bool" where
  "lax s \<longleftrightarrow> 4294967296 \<le> size_of s \<or> Errors s \<noteq> []"

text \<open>A token standing for a lexer error has been consumed.\<close>

definition dirty :: "parser_state \<Rightarrow> bool" where
  "dirty s \<longleftrightarrow> (\<exists>t\<in>set (take (unat (Cursor (Stream s))) (Tokens (Stream s))).
     TokenKind t = tk_unknown)"

definition live :: "node_index \<Rightarrow> parser_state \<Rightarrow> bool" where
  "live v s \<longleftrightarrow> unat v < size_of s \<and> (v = 0 \<longrightarrow> 4294967296 \<le> size_of s)"

text \<open>
  The shape of the tree: every index stored as a child is \<open>NullNode\<close> or that of an earlier node,
  and the kinds with a fixed number of children have that many.
\<close>

definition arity :: "node_kind \<Rightarrow> nat set" where
  "arity K =
     (if K \<in> {nk_Error, nk_DocComment, nk_FileDocComment, nk_NamedType, nk_IdentExpr, nk_PathExpr,
          nk_LitExpr, nk_BreakStmt, nk_ContinueStmt, nk_WildcardPat, nk_IdentPat, nk_LiteralPat}
      then {0}
      else if K \<in> {nk_GenericParam, nk_StructField, nk_Param, nk_RetStmt, nk_UnaryExpr,
          nk_PropagateExpr, nk_FieldExpr, nk_TupleIndexExpr, nk_FieldInit}
      then {1}
      else if K \<in> {nk_ArrayType, nk_WhileStmt, nk_ForStmt, nk_MatchArm, nk_BinaryExpr,
          nk_ProjAssignExpr, nk_CallExpr, nk_IndexExpr, nk_CastExpr, nk_ArrayRepeatExpr}
      then {2}
      else if K \<in> {nk_FieldPat, nk_EnumVariantUnit} then {0, 1}
      else if K = nk_LetStmt then {0, 1, 2}
      else if K = nk_IfExpr then {2, 3}
      else UNIV)"

definition node_ok :: "node_pool \<Rightarrow> nat \<Rightarrow> bool" where
  "node_ok P i \<longleftrightarrow> (let N = Nodes P ! i in
     (\<forall>c\<in>set (childSlice P N). c = NullNode \<or> unat c < i)
     \<and> unat (ChildCount N) \<in> arity (NKind N))"

definition tree_wf :: "node_pool \<Rightarrow> bool" where
  "tree_wf P \<longleftrightarrow> pool_wf P
     \<and> (\<forall>c\<in>set (Children P). c = NullNode \<or> unat c < length (Nodes P))
     \<and> (\<forall>i<length (Nodes P). node_ok P i)
     \<and> Nodes P \<noteq> [] \<and> NKind (Nodes P ! 0) = nk_Error"

lemma childSlice_subset: "set (childSlice P N) \<subseteq> set (Children P)"
  unfolding childSlice_def by (meson order_trans set_drop_subset set_take_subset)

lemma childSlice_append:
  assumes "unat (ChildrenBegin N) + unat (ChildCount N) \<le> length (Children P)"
    "Children P' = Children P @ ks"
  shows "childSlice P' N = childSlice P N"
proof -
  have "unat (ChildCount N) \<le> length (Children P) - unat (ChildrenBegin N)"
    "unat (ChildrenBegin N) - length (Children P) = 0" using assms(1) by simp_all
  then show ?thesis by (simp add: childSlice_def assms(2))
qed

lemma alloc_eqs:
  assumes "alloc K S ks p f P = (I, P')"
  shows "I = of_nat (length (Nodes P))" "Children P' = Children P @ ks" "Spans P' = Spans P @ [S]"
    "Nodes P' = Nodes P @ [\<lparr> NKind = K, ChildCount = of_nat (length ks),
       ChildrenBegin = of_nat (length (Children P)), NPayload = p, NFlags = f \<rparr>]"
  using assms by (auto simp: alloc_def)

lemma alloc_tree:
  assumes wf: "tree_wf P" and run: "alloc K S ks p f P = (I, P')"
    and kids: "\<forall>c\<in>set ks. c = NullNode \<or> unat c < length (Nodes P)"
    and ar: "arity K = UNIV \<or> length ks < 65536 \<and> length ks \<in> arity K"
  shows "tree_wf P'"
proof -
  note e = alloc_eqs [OF run]
  have pw: "pool_wf P" and ok: "\<And>i. i < length (Nodes P) \<Longrightarrow> node_ok P i"
    and ch: "\<forall>c\<in>set (Children P). c = NullNode \<or> unat c < length (Nodes P)"
    and ne: "Nodes P \<noteq> []" "NKind (Nodes P ! 0) = nk_Error"
    using wf unfolding tree_wf_def by blast+
  have pw': "pool_wf P'" using alloc_wf [OF pw, of K S ks p f] run by simp
  have len: "length (Nodes P') = Suc (length (Nodes P))" by (simp add: e)
  have ch': "c = NullNode \<or> unat c < length (Nodes P)" if "c \<in> set (Children P')" for c
    using that ch kids by (auto simp: e)
  have "node_ok P' i" if i: "i < length (Nodes P')" for i
  proof (cases "i < length (Nodes P)")
    case True
    then have "Nodes P ! i \<in> set (Nodes P)" by simp
    with pw have "unat (ChildrenBegin (Nodes P ! i)) + unat (ChildCount (Nodes P ! i))
        \<le> length (Children P)" unfolding pool_wf_def by blast
    from childSlice_append [OF this e(2)] ok [OF True] show ?thesis
      using True by (simp add: node_ok_def e(4) nth_append Let_def)
  next
    case False
    with i len have i: "i = length (Nodes P)" by simp
    have "unat (of_nat (length ks) :: u16) \<in> arity K"
    proof (cases "arity K = UNIV")
      case False
      with ar have "length ks < 65536" "length ks \<in> arity K" by simp_all
      then show ?thesis by (simp add: unat_of_nat take_bit_nat_eq_self)
    qed simp
    then show ?thesis
      using ch' childSlice_subset [of P' "Nodes P' ! i"]
      by (auto simp: node_ok_def Let_def i e(4))
  qed
  moreover have "NKind (Nodes P' ! 0) = nk_Error" using ne by (cases "Nodes P") (simp_all add: e)
  ultimately show ?thesis
    using pw' ch' unfolding tree_wf_def by (auto simp: len e(4) intro: less_SucI)
qed

lemma alloc_index:
  assumes "Nodes P \<noteq> []" "alloc K S ks p f P = (I, P')"
  shows "unat I < length (Nodes P') \<and> (I = 0 \<longrightarrow> 4294967296 \<le> length (Nodes P'))"
proof -
  note e = alloc_eqs [OF assms(2)]
  have "unat I \<le> length (Nodes P)" using unat_of_nat32_le by (simp add: e(1))
  moreover have "4294967296 \<le> length (Nodes P)" if "I = 0"
  proof (rule ccontr)
    assume "\<not> 4294967296 \<le> length (Nodes P)"
    then have "unat I = length (Nodes P)" by (simp add: e(1) unat_of_nat take_bit_nat_eq_self)
    with that assms(1) show False by simp
  qed
  ultimately show ?thesis by (auto simp: e(4))
qed

section \<open>What every computation keeps\<close>

definition frame :: "parser_state \<Rightarrow> parser_state \<Rightarrow> bool" where
  "frame s s' \<longleftrightarrow>
     (\<exists>c. Stream s' = Stream s \<lparr> Cursor := c \<rparr> \<and> unat (Cursor (Stream s)) \<le> unat c)
     \<and> (\<exists>es. Errors s' = Errors s @ es)
     \<and> (\<exists>ns. Nodes (Pool s') = Nodes (Pool s) @ ns)
     \<and> (\<exists>cs. Children (Pool s') = Children (Pool s) @ cs)
     \<and> (\<exists>ss. Spans (Pool s') = Spans (Pool s) @ ss)
     \<and> (\<forall>j T. getStr (Interner s) j = Some T \<longrightarrow> getStr (Interner s') j = Some T)"

lemma frame_refl [simp]: "frame s s"
  by (auto simp: frame_def intro: exI [of _ "Cursor (Stream s)"])

lemma frame_trans:
  assumes "frame s s'" "frame s' s''"
  shows "frame s s''"
proof -
  obtain c c' where "Stream s' = Stream s \<lparr> Cursor := c \<rparr>" "unat (Cursor (Stream s)) \<le> unat c"
    "Stream s'' = Stream s' \<lparr> Cursor := c' \<rparr>" "unat (Cursor (Stream s')) \<le> unat c'"
    using assms unfolding frame_def by blast
  then have "Stream s'' = Stream s \<lparr> Cursor := c' \<rparr>" "unat (Cursor (Stream s)) \<le> unat c'" by simp_all
  with assms show ?thesis unfolding frame_def by force
qed

lemma frame_mono:
  assumes "frame s s'"
  shows "rem s' \<le> rem s" "length (Errors s) \<le> length (Errors s')" "size_of s \<le> size_of s'"
    "lax s \<Longrightarrow> lax s'" "live v s \<Longrightarrow> live v s'"
  using assms by (auto simp: frame_def remaining_def lax_def live_def)

lemma frame_still:
  assumes "frame s s'" "stream_wf (Stream s')" "rem s' = rem s"
  shows "Stream s' = Stream s"
proof -
  obtain c where c: "Stream s' = Stream s \<lparr> Cursor := c \<rparr>" "unat (Cursor (Stream s)) \<le> unat c"
    using assms(1) unfolding frame_def by blast
  with assms(2,3) have "unat c = unat (Cursor (Stream s))"
    by (auto simp: remaining_def stream_wf_def)
  then have "c = Cursor (Stream s)" by (simp add: word_unat_eq_iff)
  with c(1) show ?thesis by simp
qed

section \<open>Claims\<close>

record claim =
  Bnd :: nat
  Prog :: bool
  SLit :: bool
  Errs :: nat
  Toll :: nat
  Lax :: bool
  Dirt :: bool
  Spare :: int
  Look :: "kind set"
  Home :: "kind set"
  Live :: "node_index set"
  Pot :: int
  Rate :: int
  Cap :: int

text \<open>
  \<open>Bnd\<close> bounds the tokens left, strictly when \<open>Prog\<close>; \<open>Look\<close> holds the next token's kind, and
  \<open>Home\<close> too as long as \<open>Bnd\<close> tokens are left, when there are at least \<open>Toll\<close> errors; \<open>Spare\<close> is the number of error nodes the errors
  pay for and \<open>Pot\<close> the number of nodes that \<open>Cap\<close> and the consumed tokens pay for, at
  \<open>Rate\<close> nodes a token; \<open>Dirt\<close> allows a consumed lexer error that no error was reported for.
\<close>

definition meets :: "parser_state \<Rightarrow> claim \<Rightarrow> bool" where
  "meets s g \<longleftrightarrow> stream_wf (Stream s) \<and> \<not> Stuck s \<and> tree_wf (Pool s)
     \<and> rem s \<le> Bnd g \<and> (Prog g \<longrightarrow> rem s < Bnd g) \<and> StructLitAllowed s = SLit g
     \<and> Errs g \<le> length (Errors s)
     \<and> (rem s = Bnd g \<longrightarrow> Toll g \<le> length (Errors s)) \<and> (Lax g \<longrightarrow> lax s) \<and> (dirty s \<longrightarrow> lax s \<or> Dirt g)
     \<and> int (error_nodes (Pool s)) + Spare g \<le> 1 + int (length (Errors s))
     \<and> next_kind s \<in> Look g \<and> (rem s = Bnd g \<longrightarrow> next_kind s \<in> Home g)
     \<and> (\<forall>v\<in>Live g. live v s)
     \<and> int (size_of s) + Rate g * int (rem s) + Pot g \<le> Cap g \<and> 0 \<le> Rate g"

lemma meetsD:
  assumes "meets s g"
  shows "stream_wf (Stream s)" "\<not> Stuck s" "tree_wf (Pool s)" "rem s \<le> Bnd g"
    "Prog g \<longrightarrow> rem s < Bnd g" "StructLitAllowed s = SLit g" "Errs g \<le> length (Errors s)"
    "Lax g \<longrightarrow> lax s" "dirty s \<longrightarrow> lax s \<or> Dirt g"
    "int (error_nodes (Pool s)) + Spare g \<le> 1 + int (length (Errors s))"
    "next_kind s \<in> Look g" "rem s = Bnd g \<longrightarrow> next_kind s \<in> Home g" "\<forall>v\<in>Live g. live v s"
    "int (size_of s) + Rate g * int (rem s) + Pot g \<le> Cap g" "0 \<le> Rate g"
    "rem s = Bnd g \<longrightarrow> Toll g \<le> length (Errors s)"
  using assms unfolding meets_def by blast+

lemma meetsI:
  assumes "stream_wf (Stream s)" "\<not> Stuck s" "tree_wf (Pool s)" "rem s \<le> Bnd g"
    "Prog g \<longrightarrow> rem s < Bnd g" "StructLitAllowed s = SLit g" "Errs g \<le> length (Errors s)"
    "Lax g \<longrightarrow> lax s" "dirty s \<longrightarrow> lax s \<or> Dirt g"
    "int (error_nodes (Pool s)) + Spare g \<le> 1 + int (length (Errors s))"
    "next_kind s \<in> Look g" "rem s = Bnd g \<longrightarrow> next_kind s \<in> Home g" "\<forall>v\<in>Live g. live v s"
    "int (size_of s) + Rate g * int (rem s) + Pot g \<le> Cap g" "0 \<le> Rate g"
    "rem s = Bnd g \<longrightarrow> Toll g \<le> length (Errors s)"
  shows "meets s g"
  using assms unfolding meets_def by blast

definition within :: "claim \<Rightarrow> claim \<Rightarrow> bool" where
  "within g h \<longleftrightarrow> Bnd g \<le> Bnd h \<and> (Prog h \<longrightarrow> Prog g \<or> Bnd g < Bnd h \<or> Home g \<inter> Look g = {})
     \<and> SLit g = SLit h \<and> Errs h \<le> Errs g \<and> (Lax h \<longrightarrow> Lax g) \<and> (Dirt g \<longrightarrow> Dirt h \<or> Lax g)
     \<and> Spare h \<le> Spare g \<and> Look g \<subseteq> Look h
     \<and> (Prog g \<or> Bnd g < Bnd h \<or> Home g \<inter> Look g \<subseteq> Home h)
     \<and> (Prog g \<or> Bnd g < Bnd h \<or> Toll h \<le> max (Toll g) (Errs g)) \<and> Live h \<subseteq> Live g \<and> Pot h \<le> Pot g \<and> Rate g = Rate h \<and> Cap g \<le> Cap h"

lemma meets_within:
  assumes m: "meets s g" and w: "within g h"
  shows "meets s h"
proof -
  note a = meetsD [OF m]
  have b: "Bnd g \<le> Bnd h" "Prog h \<longrightarrow> Prog g \<or> Bnd g < Bnd h \<or> Home g \<inter> Look g = {}"
    "SLit g = SLit h" "Errs h \<le> Errs g" "Lax h \<longrightarrow> Lax g" "Dirt g \<longrightarrow> Dirt h \<or> Lax g"
    "Spare h \<le> Spare g" "Look g \<subseteq> Look h"
    "Prog g \<or> Bnd g < Bnd h \<or> Home g \<inter> Look g \<subseteq> Home h" "Live h \<subseteq> Live g" "Pot h \<le> Pot g"
    "Rate g = Rate h" "Cap g \<le> Cap h" "Prog g \<or> Bnd g < Bnd h \<or> Toll h \<le> max (Toll g) (Errs g)"
    using w unfolding within_def by blast+
  have still: "rem s = Bnd g \<and> \<not> Prog g \<and> next_kind s \<in> Home g \<inter> Look g" if "rem s = Bnd h"
  proof -
    have "rem s = Bnd g" using that a(4) b(1) by simp
    then show ?thesis using a(5,11,12) by simp
  qed
  show ?thesis
  proof (rule meetsI)
    show "rem s \<le> Bnd h" using a(4) b(1) by simp
    then show "Prog h \<longrightarrow> rem s < Bnd h"
      using still a(4) b(1,2) by (cases "rem s = Bnd h") auto
    show "int (error_nodes (Pool s)) + Spare h \<le> 1 + int (length (Errors s))" using a(10) b(7) by simp
    show "rem s = Bnd h \<longrightarrow> next_kind s \<in> Home h" using still b(9) by auto
    show "rem s = Bnd h \<longrightarrow> Toll h \<le> length (Errors s)"
      using still a(4,7,16) b(14) by auto
    show "int (size_of s) + Rate h * int (rem s) + Pot h \<le> Cap h"
      using a(14) b(11,12,13) by simp
  qed (use a(1-3,6-9,11,13,15) b(3-6,8,10,12) in auto)
qed

section \<open>The logic\<close>

definition WP :: "'a parser \<Rightarrow> ('a \<Rightarrow> claim \<Rightarrow> bool) \<Rightarrow> claim \<Rightarrow> bool" where
  "WP m Q g \<longleftrightarrow> (\<forall>s r s'. meets s g \<longrightarrow> run_state m s = (r, s') \<longrightarrow>
     frame s s' \<and> (\<exists>h. Q r h \<and> meets s' h))"

lemma WP_I:
  "(\<And>s r s'. meets s g \<Longrightarrow> run_state m s = (r, s') \<Longrightarrow> frame s s' \<and> (\<exists>h. Q r h \<and> meets s' h))
     \<Longrightarrow> WP m Q g"
  by (simp add: WP_def)

lemma WP_D:
  assumes "WP m Q g" "meets s g" "run_state m s = (r, s')"
  obtains h where "frame s s'" "Q r h" "meets s' h"
  using assms unfolding WP_def by blast

lemma WP_return [wp]: "Q x g \<Longrightarrow> WP (State_Monad.return x) Q g"
  by (rule WP_I) (auto simp: State_Monad.return_def)

lemma WP_bind [wp]:
  assumes "WP m (\<lambda>r. WP (f r) Q) g"
  shows "WP (State_Monad.bind m f) Q g"
proof (rule WP_I)
  fix s r s' assume s: "meets s g" "run_state (State_Monad.bind m f) s = (r, s')"
  obtain x t where 1: "run_state m s = (x, t)" by (metis prod.exhaust)
  with s(2) have 2: "run_state (f x) t = (r, s')" by (simp add: State_Monad.bind_def)
  obtain h where h: "frame s t" "WP (f x) Q h" "meets t h" by (rule WP_D [OF assms s(1) 1])
  from WP_D [OF h(2,3) 2] obtain h' where "frame t s'" "Q r h'" "meets s' h'" by blast
  with h(1) show "frame s s' \<and> (\<exists>h. Q r h \<and> meets s' h)" using frame_trans by blast
qed

lemma WP_if [wp]:
  "\<lbrakk>b \<Longrightarrow> WP m Q g; \<not> b \<Longrightarrow> WP m' Q g\<rbrakk> \<Longrightarrow> WP (if b then m else m') Q g"
  by simp

lemma WP_prod [wp]: "(\<And>x y. p = (x, y) \<Longrightarrow> WP (f x y) Q g) \<Longrightarrow> WP (case p of (x, y) \<Rightarrow> f x y) Q g"
  by (cases p) simp

lemma WP_mono:
  assumes "WP m Q g" "\<And>r h. Q r h \<Longrightarrow> \<exists>h'. within h h' \<and> Q' r h'"
  shows "WP m Q' g"
proof (rule WP_I)
  fix s r s' assume s: "meets s g" "run_state m s = (r, s')"
  obtain h where "frame s s'" "Q r h" "meets s' h" by (rule WP_D [OF assms(1) s])
  with assms(2) [of r h] show "frame s s' \<and> (\<exists>h. Q' r h \<and> meets s' h)"
    using meets_within by blast
qed

lemma WP_post:
  assumes "WP m (\<lambda>r h. within h (R r)) g" "\<And>r. Q r (R r)"
  shows "WP m Q g"
  by (rule WP_mono [OF assms(1)]) (use assms(2) in blast)

lemma WP_pre: "within g h \<Longrightarrow> WP m Q h \<Longrightarrow> WP m Q g"
  unfolding WP_def using meets_within by blast

text \<open>Either something was consumed since \<open>Bnd\<close> was fixed, or the next token is still in \<open>Home\<close>.\<close>

lemma WP_home:
  assumes "WP m Q (g \<lparr> Prog := True \<rparr>)" "WP m Q (g \<lparr> Look := Look g \<inter> Home g \<rparr>)"
  shows "WP m Q g"
proof (rule WP_I)
  fix s r s' assume s: "meets s g" "run_state m s = (r, s')"
  have "meets s (g \<lparr> Prog := True \<rparr>) \<or> meets s (g \<lparr> Look := Look g \<inter> Home g \<rparr>)"
    using s(1) by (cases "rem s = Bnd g") (auto simp: meets_def)
  with s(2) assms show "frame s s' \<and> (\<exists>h. Q r h \<and> meets s' h)"
    unfolding WP_def by blast
qed

lemma WP_settle: "WP m Q (g \<lparr> Home := Home g \<inter> Look g \<rparr>) \<Longrightarrow> WP m Q g"
  unfolding WP_def meets_def by auto

text \<open>What a claim made before says still holds after the frame, whatever the claim in between.\<close>

lemma meets_frame:
  assumes "meets s g" "frame s s'" "meets s' h" "Bnd h \<le> Bnd g"
  shows "meets s' (h \<lparr> Bnd := Bnd g, Prog := Prog g \<or> Prog h, Home := Home g, Toll := Toll g,
    Live := Live g \<union> Live h, Errs := max (Errs g) (Errs h), Lax := Lax g \<or> Lax h \<rparr>)"
proof -
  note f = frame_mono [OF assms(2)]
  note a = meetsD [OF assms(1)] and b = meetsD [OF assms(3)]
  have 2: "next_kind s' \<in> Home g" if "rem s' = Bnd g"
  proof -
    have "rem s' = rem s" "rem s = Bnd g" using that f(1) a(4) by simp_all
    then show ?thesis using frame_still [OF assms(2) b(1)] a(12) by simp
  qed
  have 3: "rem s' < Bnd g" if "Prog g \<or> Prog h" using that f(1) a(4,5) b(4,5) assms(4) by auto
  have 4: "\<forall>v\<in>Live g. live v s'" using a(13) f(5) by blast
  have 5: "lax s'" if "Lax g \<or> Lax h" using a(8) b(8) f(4) that by blast
  have 6: "Errs g \<le> length (Errors s')" "rem s' \<le> Bnd g" using a(4,7) f(1,2) by simp_all
  have 7: "Toll g \<le> length (Errors s')" if "rem s' = Bnd g"
    using that f(1,2) a(4,16) by simp
  show ?thesis
    by (rule meetsI) (use 2 3 4 5 6 7 b in \<open>simp_all add: ball_Un\<close>)
qed

end
