(* ===== verification/ParserRules.thy ===== *)
theory ParserRules
  imports ParserLogic
begin

text \<open>
  The rules of the program logic for the helpers of \<open>ParserState\<close>: tokens, nodes, diagnostics,
  loops, lists, comments, paths and resynchronisation.
\<close>

section \<open>Reading tokens\<close>

lemma UNIV_kind [simp]: "(UNIV :: kind set) \<noteq> {K}" "{K} \<noteq> (UNIV :: kind set)"
proof -
  have "tk_eof \<noteq> tk_unknown" by simp
  then have "UNIV \<noteq> {K}" for K :: kind by (metis UNIV_I singletonD)
  then show "(UNIV :: kind set) \<noteq> {K}" "{K} \<noteq> (UNIV :: kind set)" by metis+
qed

lemma kind_flip [simp]:
  "(Special s = TokenKind T) = (TokenKind T = Special s)"
  "(Literal l = TokenKind T) = (TokenKind T = Literal l)"
  "(Delimiter d = TokenKind T) = (TokenKind T = Delimiter d)"
  "(Operator p = TokenKind T) = (TokenKind T = Operator p)"
  "(Keyword w = TokenKind T) = (TokenKind T = Keyword w)"
  by auto

lemma meets_look: "meets s g \<Longrightarrow> next_kind s \<in> X \<Longrightarrow> meets s (g \<lparr> Look := X \<rparr>)"
  by (simp add: meets_def)

lemma WP_gets:
  assumes "\<And>s. meets s g \<Longrightarrow> \<exists>h. Q (f s) h \<and> meets s h"
  shows "WP (gets f) Q g"
  by (rule WP_I) (use assms in \<open>auto simp: gets_def\<close>)

lemma WP_gets_any [wp]: "(\<And>x. Q x g) \<Longrightarrow> WP (gets f) Q g"
  by (rule WP_gets) blast

lemma WP_peek [wp]:
  assumes "\<And>K. K \<in> Look g \<Longrightarrow> Q K (g \<lparr> Look := {K} \<rparr>)"
  shows "WP (pPeek 0) Q g"
  unfolding pPeek_def
proof (rule WP_gets)
  fix s assume s: "meets s g"
  then have "next_kind s \<in> Look g" by (simp add: meets_def)
  with assms meets_look [OF s] show "\<exists>h. Q (next_kind s) h \<and> meets s h" by blast
qed

lemma WP_peek_ahead [wp]: "(\<And>K. Q K g) \<Longrightarrow> WP (pPeek 1) Q g"
  unfolding pPeek_def by (rule WP_gets_any)

lemma WP_peekToken [wp]:
  assumes "\<And>T K. \<lbrakk>TokenKind T = K; K \<in> Look g\<rbrakk> \<Longrightarrow> Q T (g \<lparr> Look := {K} \<rparr>)"
  shows "WP pPeekToken Q g"
  unfolding pPeekToken_def
proof (rule WP_gets)
  fix s assume s: "meets s g"
  then have "next_kind s \<in> Look g" by (simp add: meets_def)
  with assms [of "peekToken 0 (Stream s)" "next_kind s"] meets_look [OF s]
  show "\<exists>h. Q (peekToken 0 (Stream s)) h \<and> meets s h"
    by (auto simp: TokenKind_peekToken)
qed

lemma WP_previous [wp]: "(\<And>T. Q T g) \<Longrightarrow> WP pPrevious Q g"
  unfolding pPrevious_def by (rule WP_gets_any)

lemma WP_textOf [wp]: "(\<And>t. Q t g) \<Longrightarrow> WP (pTextOf S) Q g"
  unfolding pTextOf_def by (rule WP_gets_any)

lemma WP_check [wp]:
  assumes "K \<in> Look g \<Longrightarrow> Q True (g \<lparr> Look := {K} \<rparr>)"
    "\<not> Look g \<subseteq> {K} \<Longrightarrow> Q False (g \<lparr> Look := Look g - {K} \<rparr>)"
  shows "WP (pCheck K) Q g"
  unfolding pCheck_def
proof (rule WP_gets)
  fix s assume s: "meets s g"
  then have "next_kind s \<in> Look g" by (simp add: meets_def)
  then show "\<exists>h. Q (check K (Stream s)) h \<and> meets s h"
  proof (cases "next_kind s = K")
    case True
    with \<open>next_kind s \<in> Look g\<close> assms(1) meets_look [OF s, of "{K}"] show ?thesis
      by (auto simp: check_def)
  next
    case False
    with \<open>next_kind s \<in> Look g\<close> have "Q False (g \<lparr> Look := Look g - {K} \<rparr>)"
      by (intro assms(2)) blast
    with False \<open>next_kind s \<in> Look g\<close> meets_look [OF s, of "Look g - {K}"] show ?thesis
      by (auto simp: check_def)
  qed
qed

lemma WP_atEof [wp]:
  assumes "tk_eof \<in> Look g \<Longrightarrow> Q True (g \<lparr> Look := {tk_eof} \<rparr>)"
    "\<not> Look g \<subseteq> {tk_eof} \<Longrightarrow> Q False (g \<lparr> Look := Look g - {tk_eof} \<rparr>)"
  shows "WP pAtEof Q g"
proof -
  have "pAtEof = pCheck tk_eof" by (simp add: pAtEof_def pCheck_def atEof_def)
  with WP_check [of tk_eof g Q] assms show ?thesis by simp
qed

lemma WP_errorCount [wp]:
  assumes "\<And>n. Errs g \<le> n \<Longrightarrow> Q n (g \<lparr> Errs := n, Lax := Lax g \<or> 0 < n, Prog := Prog g \<or> n < Toll g \<rparr>)"
  shows "WP pErrorCount Q g"
  unfolding pErrorCount_def
proof (rule WP_gets)
  fix s assume s: "meets s g"
  let ?n = "length (Errors s)"
  note m = meetsD [OF s]
  have "rem s < Bnd g" if "?n < Toll g" using that m(4,16) by linarith
  then have "meets s (g \<lparr> Errs := ?n, Lax := Lax g \<or> 0 < ?n, Prog := Prog g \<or> ?n < Toll g \<rparr>)"
    by (intro meetsI) (use m in \<open>simp_all add: lax_def\<close>)
  with m(7) assms show "\<exists>h. Q ?n h \<and> meets s h" by blast
qed

section \<open>Consuming tokens\<close>

definition consumed :: "claim \<Rightarrow> claim" where
  "consumed g = g \<lparr> Look := UNIV, Prog := Prog g \<or> tk_eof \<notin> Look g \<inter> Home g,
     Dirt := Dirt g \<or> tk_unknown \<in> Look g \<and> \<not> Lax g,
     Pot := Pot g + (if tk_eof \<in> Look g then 0 else Rate g) \<rparr>"

lemma advance_cases:
  assumes "stream_wf TS"
  obtains (stay) "snd (advance TS) = TS" "peek 0 TS = tk_eof" "remaining TS = 0"
  | (move) "unat (Cursor TS) < length (Tokens TS)"
    "snd (advance TS) = TS \<lparr> Cursor := Cursor TS + 1 \<rparr>"
    "unat (Cursor TS + 1) = Suc (unat (Cursor TS))"
    "remaining TS = Suc (remaining (TS \<lparr> Cursor := Cursor TS + 1 \<rparr>))"
    "TokenKind (Tokens TS ! unat (Cursor TS)) = peek 0 TS"
proof (cases "unat (Cursor TS) < length (Tokens TS)")
  case True
  moreover from True assms have "unat (Cursor TS + 1) = Suc (unat (Cursor TS))"
    by (simp add: stream_wf_def unat_Suc32)
  ultimately show thesis
    by (intro move) (simp_all add: advance_def remaining_def peek_def)
next
  case False
  then show thesis
    by (intro stay) (simp_all add: advance_def remaining_def peek_def)
qed


lemma frame_stream:
  assumes "unat (Cursor (Stream s)) \<le> unat c"
  shows "frame s (s \<lparr> Stream := Stream s \<lparr> Cursor := c \<rparr> \<rparr>)"
  using assms by (auto simp: frame_def)

lemma lax_live_stream [simp]:
  "lax (s \<lparr> Stream := TS \<rparr>) = lax s" "live v (s \<lparr> Stream := TS \<rparr>) = live v s"
  by (simp_all add: lax_def live_def)

lemma advanced:
  assumes s: "meets s g"
  shows "frame s (s \<lparr> Stream := snd (advance (Stream s)) \<rparr>)
    \<and> meets (s \<lparr> Stream := snd (advance (Stream s)) \<rparr>) (consumed g)"
proof -
  have wf: "stream_wf (Stream s)" using s by (simp add: meets_def)
  let ?s = "s \<lparr> Stream := snd (advance (Stream s)) \<rparr>"
  from wf show ?thesis
  proof (cases rule: advance_cases)
    case stay
    then have "?s = s" by simp
    moreover have "meets s (consumed g)"
      using s stay by (auto simp: meets_def consumed_def)
    ultimately show ?thesis by simp
  next
    case move
    let ?c = "Cursor (Stream s) + 1"
    have c: "unat ?c = Suc (unat (Cursor (Stream s)))" by (rule move(3))
    have d: "dirty ?s \<longleftrightarrow> dirty s \<or> next_kind s = tk_unknown"
      using move(1,5) by (auto simp: dirty_def move(2) c take_Suc_conv_app_nth)
    have r: "rem s = Suc (rem ?s)" using move(4) by (simp add: move(2))
    have w: "stream_wf (Stream ?s)" using wf move(1) by (simp add: move(2) stream_wf_def c)
    have p: "int (size_of s) + Rate g * int (rem ?s) + (Pot g + Rate g) \<le> Cap g"
      using s r by (simp add: meets_def algebra_simps)
    note a = meetsD [OF s]
    show ?thesis
    proof
      show "frame s ?s" using frame_stream [of s ?c] c by (simp add: move(2))
      have "dirty ?s \<longrightarrow> lax s \<or> Dirt (consumed g)"
        using d a(8,9,11) by (auto simp: consumed_def)
      moreover have "rem ?s < Bnd g" using a(4) r by simp
      ultimately show "meets ?s (consumed g)"
        by (intro meetsI) (use a w d p in \<open>simp_all add: consumed_def\<close>)
    qed
  qed
qed


lemma WP_advance [wp]:
  assumes "\<And>T. TokenKind T \<in> Look g \<Longrightarrow> Q T (consumed g)"
  shows "WP pAdvance Q g"
proof (rule WP_I)
  fix s r s' assume s: "meets s g" "run_state pAdvance s = (r, s')"
  then have s': "s' = s \<lparr> Stream := snd (advance (Stream s)) \<rparr>" "r = fst (advance (Stream s))"
    by (auto simp: pAdvance_def split: prod.splits)
  have "TokenKind r \<in> Look g"
    using meetsD(11) [OF s(1)] by (simp add: s'(2) advance_fst TokenKind_peekToken)
  with assms advanced [OF s(1)] show "frame s s' \<and> (\<exists>h. Q r h \<and> meets s' h)"
    unfolding s'(1) by blast
qed

lemma WP_consume [wp]:
  assumes "K \<in> Look g \<Longrightarrow> Q True (consumed (g \<lparr> Look := {K} \<rparr>))"
    "\<not> Look g \<subseteq> {K} \<Longrightarrow> Q False (g \<lparr> Look := Look g - {K} \<rparr>)"
  shows "WP (pConsume K) Q g"
proof (rule WP_I)
  fix s r s' assume s: "meets s g" "run_state (pConsume K) s = (r, s')"
  note l = meetsD(11) [OF s(1)]
  show "frame s s' \<and> (\<exists>h. Q r h \<and> meets s' h)"
  proof (cases "next_kind s = K")
    case True
    with s(2) have s': "s' = s \<lparr> Stream := snd (advance (Stream s)) \<rparr>" "r"
      by (auto simp: pConsume_def consume_def check_def)
    have "meets s (g \<lparr> Look := {K} \<rparr>)" using meets_look [OF s(1)] True by simp
    from advanced [OF this] s' assms(1) l True show ?thesis by auto
  next
    case False
    with s(2) have "s' = s" "r = False" by (auto simp: pConsume_def consume_def check_def)
    moreover have "Q False (g \<lparr> Look := Look g - {K} \<rparr>)" using assms(2) l False by blast
    ultimately show ?thesis using meets_look [OF s(1), of "Look g - {K}"] l False by auto
  qed
qed

section \<open>Names, errors and nodes\<close>

lemma WP_other:
  assumes "\<And>s r s'. meets s g \<Longrightarrow> run_state m s = (r, s') \<Longrightarrow>
      \<exists>I. s' = s \<lparr> Interner := I \<rparr>
        \<and> (\<forall>j T. getStr (Interner s) j = Some T \<longrightarrow> getStr I j = Some T)"
    "\<And>r. Q r g"
  shows "WP m Q g"
proof (rule WP_I)
  fix s r s' assume s: "meets s g" "run_state m s = (r, s')"
  from assms(1) [OF s] obtain I where I: "s' = s \<lparr> Interner := I \<rparr>"
    "\<forall>j T. getStr (Interner s) j = Some T \<longrightarrow> getStr I j = Some T" by blast
  then have "frame s s'" by (auto simp: frame_def intro: exI [of _ "Cursor (Stream s)"])
  moreover have "meets s' g" using s(1) by (simp add: I(1) meets_def lax_def live_def dirty_def)
  ultimately show "frame s s' \<and> (\<exists>h. Q r h \<and> meets s' h)" using assms(2) by blast
qed

lemma WP_internText [wp]: "(\<And>i. Q i g) \<Longrightarrow> WP (internText S) Q g"
  by (rule WP_other) (auto simp: internText_def split: prod.splits dest: intern_stable)

lemma WP_internStr [wp]: "(\<And>i. Q i g) \<Longrightarrow> WP (internStr S) Q g"
  by (rule WP_other) (auto simp: internStr_def split: prod.splits dest: intern_stable)

definition reported :: "claim \<Rightarrow> claim" where
  "reported g = g \<lparr> Errs := Suc (Errs g), Lax := True, Spare := Spare g + 1 \<rparr>"

lemma WP_diag [wp]:
  assumes "Q () (reported g)"
  shows "WP (pDiag PD) Q g"
proof (rule WP_I)
  fix s r s' assume s: "meets s g" "run_state (pDiag PD) s = (r, s')"
  then have s': "s' = s \<lparr> Errors := Errors s @ [PD] \<rparr>" "r = ()"
    by (auto simp: pDiag_def modify_def)
  have "frame s s'" by (auto simp: frame_def s' intro: exI [of _ "Cursor (Stream s)"])
  moreover have "meets s' (reported g)"
    by (rule meetsI)
      (use meetsD [OF s(1)] in \<open>simp_all add: s' reported_def lax_def live_def dirty_def le_SucI\<close>)
  ultimately show "frame s s' \<and> (\<exists>h. Q r h \<and> meets s' h)" using assms by auto
qed

lemma WP_addError [wp]: "Q () (reported g) \<Longrightarrow> WP (addError S D) Q g"
  unfolding addError_def by (rule WP_diag)


definition allocated :: "node_kind \<Rightarrow> node_index \<Rightarrow> claim \<Rightarrow> claim" where
  "allocated K I g = g \<lparr> Live := insert I (Live g), Pot := Pot g - 1,
     Spare := Spare g - (if K = nk_Error then 1 else 0) \<rparr>"

lemma WP_alloc [wp]:
  assumes kids: "\<forall>c\<in>set ks. c = NullNode \<or> c \<in> Live g"
    and ar: "arity K = UNIV \<or> length ks < 65536 \<and> length ks \<in> arity K"
    and post: "\<And>I. Q I (allocated K I g)"
  shows "WP (pAlloc K S ks p f) Q g"
proof (rule WP_I)
  fix s I s' assume s: "meets s g" "run_state (pAlloc K S ks p f) s = (I, s')"
  then obtain P where P: "alloc K S ks p f (Pool s) = (I, P)" "s' = s \<lparr> Pool := P \<rparr>"
    by (auto simp: pAlloc_def split: prod.splits)
  note m = meetsD [OF s(1)] and e = alloc_eqs [OF P(1)]
  have "tree_wf P"
  proof (rule alloc_tree [OF m(3) P(1) _ ar])
    show "\<forall>c\<in>set ks. c = NullNode \<or> unat c < length (Nodes (Pool s))"
      using kids m(13) unfolding live_def by blast
  qed
  moreover have "live I s'"
    using alloc_index [OF _ P(1)] m(3) by (simp add: live_def P(2) tree_wf_def)
  moreover have "\<forall>v\<in>Live g. live v s'" using m(13) by (auto simp: live_def P(2) e(4))
  moreover have "error_nodes P = error_nodes (Pool s) + (if K = nk_Error then 1 else 0)"
    by (simp add: error_nodes_def e(4))
  moreover have "lax s \<Longrightarrow> lax s'" "dirty s' \<longleftrightarrow> dirty s" "size_of s' = Suc (size_of s)"
    by (auto simp: lax_def dirty_def P(2) e(4))
  ultimately have "meets s' (allocated K I g)"
    by (intro meetsI) (use m in \<open>auto simp: allocated_def P(2)\<close>)
  moreover have "frame s s'"
    by (auto simp: frame_def P(2) e intro: exI [of _ "Cursor (Stream s)"])
  ultimately show "frame s s' \<and> (\<exists>h. Q I h \<and> meets s' h)" using post by blast
qed

lemma WP_allocLeaf [wp]:
  "\<lbrakk>0 \<in> arity K; \<And>I. Q I (allocated K I g)\<rbrakk> \<Longrightarrow> WP (pAllocLeaf K S p) Q g"
  unfolding pAllocLeaf_def by (rule WP_alloc) auto

lemma WP_errorNode [wp]: "(\<And>I. Q I (allocated nk_Error I g)) \<Longrightarrow> WP (makeErrorNode S) Q g"
  unfolding makeErrorNode_def by (rule WP_allocLeaf) (auto simp: arity_def)

lemma WP_spanOf [wp]:
  assumes "v \<in> Live g" "\<And>S. Q S g"
  shows "WP (pSpanOf v) Q g"
proof (rule WP_I)
  fix s r s' assume s: "meets s g" "run_state (pSpanOf v) s = (r, s')"
  have "unat v < size_of s" "length (Spans (Pool s)) = size_of s"
    using meetsD(3,13) [OF s(1)] assms(1) by (auto simp: live_def tree_wf_def pool_wf_def)
  with s(2) have "s' = s" by (simp add: pSpanOf_def spanOf_def)
  with s(1) assms(2) show "frame s s' \<and> (\<exists>h. Q r h \<and> meets s' h)" by auto
qed

text \<open>An error node that is a result was made after an error.\<close>

lemma live_error_lax:
  assumes "meets s g" "v \<in> Live g" "0 \<le> Spare g" "kindOf (Pool s) v = Some nk_Error"
  shows "lax s"
proof (cases "v = 0")
  case True
  with meetsD(13) [OF assms(1)] assms(2) show ?thesis by (auto simp: live_def lax_def)
next
  case False
  let ?ns = "Nodes (Pool s)" and ?e = "\<lambda>N. NKind N = nk_Error"
  have v: "unat v < length ?ns" "?e (?ns ! unat v)" "unat v \<noteq> 0"
    using assms(4) False by (auto simp: kindOf_def nodeAt_def unat_eq_zero split: if_splits)
  have z: "?ns \<noteq> []" "?e (?ns ! 0)" using meetsD(3) [OF assms(1)] by (simp_all add: tree_wf_def)
  have "{0, unat v} \<subseteq> {i. i < length ?ns \<and> ?e (?ns ! i)}" using v z by auto
  then have "card {0, unat v} \<le> card {i. i < length ?ns \<and> ?e (?ns ! i)}" by (intro card_mono) auto
  then have "2 \<le> error_nodes (Pool s)"
    using v(3) by (simp add: error_nodes_def length_filter_conv_card)
  with meetsD(10) [OF assms(1)] assms(3) have "0 < length (Errors s)" by linarith
  then show ?thesis by (simp add: lax_def)
qed

lemma WP_kindOf [wp]:
  assumes "v \<in> Live g" "0 \<le> Spare g"
    "Q nk_Error (g \<lparr> Lax := True \<rparr>)" "\<And>K. K \<noteq> nk_Error \<Longrightarrow> Q K g"
  shows "WP (pKindOf v) Q g"
proof (rule WP_I)
  fix s r s' assume s: "meets s g" "run_state (pKindOf v) s = (r, s')"
  have "unat v < size_of s" using meetsD(13) [OF s(1)] assms(1) by (auto simp: live_def)
  then obtain K where K: "kindOf (Pool s) v = Some K" by (simp add: kindOf_def nodeAt_def)
  with s(2) have r: "s' = s" "r = K" by (simp_all add: pKindOf_def)
  show "frame s s' \<and> (\<exists>h. Q r h \<and> meets s' h)"
  proof (cases "K = nk_Error")
    case True
    then have "meets s (g \<lparr> Lax := True \<rparr>)"
      using live_error_lax [OF s(1) assms(1,2)] K s(1) by (simp add: meets_def)
    with assms(3) r True show ?thesis by auto
  next
    case False
    with assms(4) r s(1) show ?thesis by auto
  qed
qed


section \<open>Loops\<close>

text \<open>
  A loop entered under \<open>g\<close>: \<open>H x\<close> is the claim at its head and \<open>F x\<close> the claim when it is left
  with \<open>x\<close>; \<open>rebase b\<close> measures progress from the head, where \<open>b\<close> tokens are left.  To go round
  again the body must have consumed a token.
\<close>

definition rebase :: "nat \<Rightarrow> claim \<Rightarrow> claim" where
  "rebase b g = g \<lparr> Bnd := b, Prog := False, Home := UNIV, Toll := 0 \<rparr>"

definition round_of ::
    "('a \<Rightarrow> claim) \<Rightarrow> ('a \<Rightarrow> claim) \<Rightarrow> ('a \<Rightarrow> bool) \<Rightarrow> nat \<Rightarrow> bool \<times> 'a \<Rightarrow> claim \<Rightarrow> bool" where
  "round_of H F J b p h \<longleftrightarrow> J (snd p) \<and>
     (if fst p then within h (rebase b (H (snd p)) \<lparr> Prog := True \<rparr>)
      else within h (rebase b (F (snd p))))"

definition loop_body ::
    "('a \<Rightarrow> claim) \<Rightarrow> ('a \<Rightarrow> claim) \<Rightarrow> ('a \<Rightarrow> bool) \<Rightarrow> claim \<Rightarrow> ('a \<Rightarrow> (bool \<times> 'a) parser) \<Rightarrow> bool" where
  "loop_body H F J g body \<longleftrightarrow> (\<forall>x b. J x \<longrightarrow> b \<le> Bnd g \<longrightarrow> (Prog g \<longrightarrow> b < Bnd g) \<longrightarrow>
     WP (body x) (round_of H F J b) (rebase b (H x)))"

lemma loop_bodyI:
  "(\<And>x b. \<lbrakk>J x; b \<le> Bnd g; Prog g \<longrightarrow> b < Bnd g\<rbrakk>
      \<Longrightarrow> WP (body x) (round_of H F J b) (rebase b (H x))) \<Longrightarrow> loop_body H F J g body"
  by (simp add: loop_body_def)

lemma meets_rebase: "meets s g \<Longrightarrow> meets s (rebase (rem s) g)"
  by (rule meetsI) (use meetsD [of s g] in \<open>simp_all add: rebase_def\<close>)

lemma meets_again: "meets s (rebase b g \<lparr> Prog := True \<rparr>) \<Longrightarrow> meets s (rebase (rem s) g) \<and> rem s < b"
  using meetsD [of s "rebase b g \<lparr> Prog := True \<rparr>"]
  by (auto simp: rebase_def intro!: meetsI)

lemma within_rebase: "b \<le> c \<Longrightarrow> within (rebase b g) (rebase c g)"
  by (auto simp: within_def rebase_def)

lemma loopN_meets:
  assumes body: "loop_body H F J g body"
  shows "\<lbrakk>meets s (rebase (rem s) (H x)); J x; rem s \<le> Bnd g; Prog g \<longrightarrow> rem s < Bnd g;
      rem s < n; run_state (loopN n body x) s = (y, s')\<rbrakk>
    \<Longrightarrow> frame s s' \<and> J y \<and> meets s' (rebase (rem s) (F y))"
proof (induction n arbitrary: x s)
  case 0
  then show ?case by simp
next
  case (Suc n)
  obtain again z t where 1: "run_state (body x) s = ((again, z), t)" by (metis prod.exhaust)
  from body Suc.prems(2,3,4) have "WP (body x) (round_of H F J (rem s)) (rebase (rem s) (H x))"
    unfolding loop_body_def by blast
  from WP_D [OF this Suc.prems(1) 1] obtain h where
    h: "frame s t" "round_of H F J (rem s) (again, z) h" "meets t h" by blast
  show ?case
  proof (cases again)
    case True
    with h(2) have "within h (rebase (rem s) (H z) \<lparr> Prog := True \<rparr>)" and z: "J z"
      by (simp_all add: round_of_def)
    from meets_again [OF meets_within [OF h(3) this(1)]]
    have t: "meets t (rebase (rem t) (H z))" "rem t < rem s" by simp_all
    have "run_state (loopN n body z) t = (y, s')"
      using Suc.prems(6) 1 True by (simp add: State_Monad.bind_def)
    from Suc.IH [OF t(1) z _ _ _ this] Suc.prems(3-5) t(2)
    have r: "frame t s'" "J y" "meets s' (rebase (rem t) (F y))" by simp_all
    with meets_within [OF r(3) within_rebase [of _ "rem s"]] t(2) frame_trans [OF h(1) r(1)]
    show ?thesis by simp
  next
    case False
    with Suc.prems(6) 1 have "y = z" "s' = t"
      by (simp_all add: State_Monad.bind_def State_Monad.return_def)
    with h False meets_within show ?thesis by (auto simp: round_of_def)
  qed
qed

text \<open>\<open>F y\<close> says of the time before the loop no more than \<open>g\<close> does.\<close>

definition since :: "claim \<Rightarrow> claim \<Rightarrow> bool" where
  "since g h \<longleftrightarrow> Bnd h = Bnd g \<and> (Prog h \<longrightarrow> Prog g) \<and> Home g \<subseteq> Home h \<and> Toll h \<le> Toll g"

lemma WP_loop:
  assumes body: "loop_body H F J g body" and start: "J x" "\<And>b. within (rebase b g) (rebase b (H x))"
    and base: "\<And>y. J y \<Longrightarrow> since g (F y)" and post: "\<And>y. J y \<Longrightarrow> Q y (F y)"
  shows "WP (loopP body x) Q g"
proof (rule WP_I)
  fix s y s' assume s: "meets s g" "run_state (loopP body x) s = (y, s')"
  then have run: "run_state (loopN (Suc (rem s)) body x) s = (y, s')"
    by (simp add: loopP_def gets_def State_Monad.bind_def)
  have "meets s (rebase (rem s) (H x))"
    using meets_within [OF meets_rebase [OF s(1)] start(2)] .
  from loopN_meets [OF body this start(1) _ _ _ run] meetsD(4,5) [OF s(1)]
  have r: "frame s s'" "J y" "meets s' (rebase (rem s) (F y))" by simp_all
  have b: "Bnd (rebase (rem s) (F y)) \<le> Bnd g" using meetsD(4) [OF s(1)] by (simp add: rebase_def)
  have "meets s' (F y)"
    by (rule meets_within [OF meets_frame [OF s(1) r(1,3) b]])
      (use base [OF r(2)] in \<open>auto simp: within_def rebase_def since_def\<close>)
  with r(1,2) post show "frame s s' \<and> (\<exists>h. Q y h \<and> meets s' h)" by blast
qed

section \<open>Expecting a token\<close>

lemmas claim_defs = consumed_def reported_def allocated_def rebase_def

definition expected :: "kind \<Rightarrow> claim \<Rightarrow> claim" where
  "expected K g = g \<lparr> Look := UNIV, Prog := Prog g \<or> Look g = {K},
     Pot := Pot g + (if Look g = {K} then Rate g else 0),
     Toll := max (Toll g) (Suc (Errs g)) \<rparr>"

lemma WP_rate: "(0 \<le> Rate g \<Longrightarrow> WP m Q g) \<Longrightarrow> WP m Q g"
  unfolding WP_def using meetsD(15) by blast

lemma WP_expectIn [wp]:
  assumes "K \<noteq> tk_unknown" "K \<noteq> tk_eof"
    "\<And>T. Q T (expected K g)"
  shows "WP (expectIn K D Ctx) Q g"
proof (rule WP_post [OF WP_rate, of _ _ "\<lambda>_. expected K g"])
  show "WP (expectIn K D Ctx) (\<lambda>_ h. within h (expected K g)) g" if "0 \<le> Rate g"
    unfolding expectIn_def Let_def using that assms(1,2)
    by (auto intro!: wp simp: within_def claim_defs expected_def)
qed (rule assms(3))

lemma WP_expect [wp]:
  "\<lbrakk>K \<noteq> tk_unknown; K \<noteq> tk_eof; \<And>T. Q T (expected K g)\<rbrakk> \<Longrightarrow> WP (expect K D) Q g"
  unfolding expect_def by (rule WP_expectIn)

lemma WP_expectAndIntern [wp]:
  "\<lbrakk>K \<noteq> tk_unknown; K \<noteq> tk_eof; \<And>i. Q i (expected K g)\<rbrakk> \<Longrightarrow> WP (expectAndIntern K D) Q g"
  unfolding expectAndIntern_def by (intro wp)

lemma WP_expectName [wp]:
  assumes "K \<noteq> tk_unknown" "K \<noteq> tk_eof"
    "\<And>i. Q i (expected K g)"
  shows "WP (expectName K Construct) Q g"
proof (rule WP_post [OF WP_rate, of _ _ "\<lambda>_. expected K g"])
  show "WP (expectName K Construct) (\<lambda>_ h. within h (expected K g)) g" if "0 \<le> Rate g"
    unfolding expectName_def Let_def using that assms(1,2)
    by (auto intro!: wp simp: within_def claim_defs expected_def)
qed (rule assms(3))


section \<open>Skipping and resynchronising\<close>

lemmas loop_simps = round_of_def since_def Let_def within_def claim_defs

lemma WP_skipTo:
  assumes "Lax g" and post: "Q () (g \<lparr> Look := insert tk_eof (set Ks) \<rparr>)"
  shows "WP (skipTo Ks) Q g"
proof (rule WP_rate)
  assume r: "0 \<le> Rate g"
  show ?thesis unfolding skipTo_def
    by (rule WP_loop [where H = "\<lambda>_. g \<lparr> Look := UNIV \<rparr>" and J = "\<lambda>_. True"
          and F = "\<lambda>_. g \<lparr> Look := insert tk_eof (set Ks) \<rparr>"])
      (use r assms in \<open>auto intro!: wp loop_bodyI simp: loop_simps\<close>)
qed

lemma WP_skipTo_progress [wp]:
  assumes "Lax g"
    "Q () (g \<lparr> Look := insert tk_eof (set Ks), Prog := Prog g \<or> Home g \<inter> insert tk_eof (set Ks) = {} \<rparr>)"
  shows "WP (skipTo Ks) Q g"
proof (rule WP_post)
  show "WP (skipTo Ks) (\<lambda>_ h. within h (g \<lparr> Look := insert tk_eof (set Ks),
      Prog := Prog g \<or> Home g \<inter> insert tk_eof (set Ks) = {} \<rparr>)) g"
    by (rule WP_skipTo [OF assms(1)]) (auto simp: within_def)
qed (use assms(2) in simp)

lemma WP_skipSeparators [wp]:
  assumes "\<And>u. Q u (g \<lparr> Look := UNIV - {tk_colon_colon} \<rparr>)"
  shows "WP skipSeparators Q g"
proof (rule WP_rate)
  assume r: "0 \<le> Rate g"
  show ?thesis unfolding skipSeparators_def
    by (rule WP_loop [where H = "\<lambda>_. g \<lparr> Look := UNIV \<rparr>" and J = "\<lambda>_. True"
          and F = "\<lambda>_. g \<lparr> Look := UNIV - {tk_colon_colon} \<rparr>"])
      (use r assms in \<open>auto intro!: wp loop_bodyI simp: loop_simps\<close>)
qed

lemma WP_parsePathSegments [wp]:
  assumes "\<And>p. Q p (g \<lparr> Look := UNIV \<rparr>)"
  shows "WP (parsePathSegments PathSpan) Q g"
proof (rule WP_rate)
  assume r: "0 \<le> Rate g"
  show ?thesis unfolding parsePathSegments_def
    by (rule WP_loop [where H = "\<lambda>_. g \<lparr> Look := UNIV \<rparr>" and J = "\<lambda>_. True"
          and F = "\<lambda>_. g \<lparr> Look := UNIV \<rparr>"])
      (use r assms in \<open>auto intro!: wp loop_bodyI simp: loop_simps expected_def split: prod.splits\<close>)
qed

lemma WP_parseRegime [wp]:
  assumes "\<And>r. Q r (g \<lparr> Look := UNIV \<rparr>)"
  shows "WP parseRegime Q g"
proof (rule WP_post [OF WP_rate, of _ _ "\<lambda>_. g \<lparr> Look := UNIV \<rparr>"])
  show "WP parseRegime (\<lambda>_ h. within h (g \<lparr> Look := UNIV \<rparr>)) g" if "0 \<le> Rate g"
    unfolding parseRegime_def using that
    by (auto intro!: wp simp: within_def claim_defs)
qed (rule assms)

text \<open>
  A comment costs one node and pays for it; with no comment the next token is as it was.
\<close>

definition commented :: "kind \<Rightarrow> node_index list \<Rightarrow> claim \<Rightarrow> claim" where
  "commented K Out g = g \<lparr> Look := (if Out = [] then Look g else UNIV) - {K},
     Live := Live g \<union> set Out, Pot := Pot g + 7 * int (length Out) \<rparr>"

lemma WP_parseComments:
  assumes K: "K \<noteq> tk_unknown" "K \<noteq> tk_eof" "0 \<in> arity NK" "NK \<noteq> nk_Error" "8 \<le> Rate g"
    and post: "\<And>Out. Q Out (commented K Out g)"
  shows "WP (parseComments K NK) Q g"
  unfolding parseComments_def
  by (rule WP_loop [where J = "\<lambda>_. True" and F = "\<lambda>Out. commented K Out g"
        and H = "\<lambda>Out. g \<lparr> Look := (if Out = [] then Look g else UNIV),
          Live := Live g \<union> set Out, Pot := Pot g + 7 * int (length Out) \<rparr>"])
    (use K post in \<open>auto intro!: wp loop_bodyI simp: loop_simps commented_def\<close>)

lemma WP_parseDocComments [wp]:
  "\<lbrakk>8 \<le> Rate g; \<And>Out. Q Out (commented tk_doc_comment Out g)\<rbrakk> \<Longrightarrow> WP parseDocComments Q g"
  unfolding parseDocComments_def by (rule WP_parseComments) (simp_all add: arity_def)

lemma WP_parseFileDocComments [wp]:
  "\<lbrakk>8 \<le> Rate g; \<And>Out. Q Out (commented tk_file_doc_comment Out g)\<rbrakk>
     \<Longrightarrow> WP parseFileDocComments Q g"
  unfolding parseFileDocComments_def by (rule WP_parseComments) (simp_all add: arity_def)

definition synced :: "claim \<Rightarrow> claim" where
  "synced g = g \<lparr> Look := UNIV, Prog := Prog g \<or> tk_eof \<notin> Look g \<inter> Home g,
     Pot := Pot g + (if tk_eof \<in> Look g then 0 else Rate g) \<rparr>"

lemma WP_sync_loop [wp]:
  assumes "Lax g" "Q () (g \<lparr> Look := UNIV \<rparr>)"
  shows "WP (loopP (\<lambda>_. do {
       eof \<leftarrow> pAtEof;
       if eof then done_with (False, ())
       else do {
         Prev \<leftarrow> pPrevious;
         if TokenKind Prev = tk_semi then done_with (False, ())
         else do {
           K \<leftarrow> pPeek 0;
           if K \<in> set syncKinds then done_with (False, ())
           else do { pAdvance; done_with (True, ()) }
         }
       }
     }) ()) Q g"
proof (rule WP_rate)
  assume r: "0 \<le> Rate g"
  show ?thesis
    by (rule WP_loop [where H = "\<lambda>_. g \<lparr> Look := UNIV \<rparr>" and J = "\<lambda>_. True"
          and F = "\<lambda>_. g \<lparr> Look := UNIV \<rparr>"])
      (use r assms in \<open>auto intro!: wp loop_bodyI simp: loop_simps\<close>)
qed

lemma WP_synchronize [wp]:
  assumes "Lax g" "Q () (synced g)"
  shows "WP synchronize Q g"
proof (rule WP_post [OF WP_rate, of _ _ "\<lambda>_. synced g"])
  show "WP synchronize (\<lambda>_ h. within h (synced g)) g" if "0 \<le> Rate g"
    unfolding synchronize_def using that assms(1)
    by - (rule WP_home; auto intro!: wp simp: within_def claim_defs synced_def)
qed (use assms(2) in simp)

lemma WP_withStructLit [wp]:
  assumes "WP m (\<lambda>r h. Q r (h \<lparr> SLit := SLit g \<rparr>)) (g \<lparr> SLit := v \<rparr>)"
  shows "WP (withStructLit v m) Q g"
proof (rule WP_I)
  fix s r s' assume s: "meets s g" "run_state (withStructLit v m) s = (r, s')"
  obtain t where t: "run_state m (s \<lparr> StructLitAllowed := v \<rparr>) = (r, t)"
    "s' = t \<lparr> StructLitAllowed := StructLitAllowed s \<rparr>"
    using s(2) by (auto simp: withStructLit_def gets_def modify_def State_Monad.bind_def
        State_Monad.return_def split: prod.splits)
  have "meets (s \<lparr> StructLitAllowed := v \<rparr>) (g \<lparr> SLit := v \<rparr>)"
    using s(1) by (simp add: meets_def lax_def live_def dirty_def)
  from WP_D [OF assms this t(1)] obtain h where
    h: "frame (s \<lparr> StructLitAllowed := v \<rparr>) t" "Q r (h \<lparr> SLit := SLit g \<rparr>)" "meets t h" by blast
  have "meets s' (h \<lparr> SLit := SLit g \<rparr>)"
    using h(3) meetsD(6) [OF s(1)] by (simp add: t(2) meets_def lax_def live_def dirty_def)
  moreover have "frame s s'" using h(1) by (simp add: t(2) frame_def)
  ultimately show "frame s s' \<and> (\<exists>h. Q r h \<and> meets s' h)" using h(2) by blast
qed


section \<open>Lists\<close>

text \<open>
  \<open>yield c r g\<close> is the claim after a production with result \<open>r\<close> that costs \<open>c\<close> nodes beyond
  those its tokens pay for; \<open>later g h\<close> says that \<open>h\<close> is a claim made after \<open>g\<close>, in which
  the elements of a list are parsed.
\<close>

definition yield :: "int \<Rightarrow> node_index \<Rightarrow> claim \<Rightarrow> claim" where
  "yield c r g = g \<lparr> Look := UNIV, Live := insert r (Live g), Pot := Pot g - c \<rparr>"

definition later :: "claim \<Rightarrow> claim \<Rightarrow> bool" where
  "later g h \<longleftrightarrow> Bnd h \<le> Bnd g \<and> (Prog g \<longrightarrow> Bnd h < Bnd g \<or> Prog h) \<and> Rate h = Rate g
     \<and> Spare g \<le> Spare h \<and> Live g \<subseteq> Live h"

abbreviation nodes_in :: "node_index list \<Rightarrow> node_index set" where
  "nodes_in Kids \<equiv> set Kids - {NullNode}"

definition listed :: "node_index list \<Rightarrow> claim \<Rightarrow> claim" where
  "listed Kids g = g \<lparr> Look := UNIV, Live := Live g \<union> nodes_in Kids \<rparr>"

lemma WP_parseUntil [wp]:
  assumes elem: "\<And>h. \<lbrakk>later g h; Look h \<inter> {Close, tk_eof} = {}\<rbrakk> \<Longrightarrow>
      WP E (\<lambda>r h'. within h' (yield 0 r h \<lparr> Prog := True \<rparr>)) h"
    and kids: "nodes_in Kids \<subseteq> Live g"
    and post: "\<And>more. Q (Kids @ more) (listed (Kids @ more) g \<lparr> Look := {Close, tk_eof} \<rparr>)"
  shows "WP (parseUntil Close E Kids) Q g"
  unfolding parseUntil_def
  by (rule WP_loop [where J = "\<lambda>Ks. \<exists>more. Ks = Kids @ more" and H = "\<lambda>Ks. listed Ks g"
        and F = "\<lambda>Ks. listed Ks g \<lparr> Look := {Close, tk_eof} \<rparr>"])
    (use kids post in \<open>auto intro!: wp loop_bodyI WP_post [OF elem]
      simp: loop_simps later_def yield_def listed_def\<close>)

lemma WP_parseMore [wp]:
  assumes elem: "\<And>h. \<lbrakk>later g h; Prog h\<rbrakk> \<Longrightarrow> WP E (\<lambda>r h'. within h' (yield 4 r h)) h"
    and "4 \<le> Rate g" "nodes_in Kids \<subseteq> Live g"
    and post: "\<And>more. Q (Kids @ more) (listed (Kids @ more) g)"
  shows "WP (parseMore Stops E Kids) Q g"
  unfolding parseMore_def
  by (rule WP_loop [where J = "\<lambda>Ks. \<exists>more. Ks = Kids @ more" and H = "\<lambda>Ks. listed Ks g"
        and F = "\<lambda>Ks. listed Ks g"])
    (use assms(2-4) in \<open>auto intro!: wp loop_bodyI WP_post [OF elem]
      simp: loop_simps later_def yield_def listed_def\<close>)

lemma WP_parseCommaSeparated [wp]:
  assumes elem: "\<And>h. later g h \<Longrightarrow> WP E (\<lambda>r h'. within h' (yield 4 r h)) h"
    and "4 \<le> Rate g" "nodes_in Kids \<subseteq> Live g"
    and post: "\<And>more. Q (Kids @ more) (listed (Kids @ more) g \<lparr> Pot := Pot g - 4 \<rparr>)"
  shows "WP (parseCommaSeparated Kids Close E) Q g"
proof (rule WP_mono)
  let ?J = "\<lambda>Ks. \<exists>more. Ks = Kids @ more" and ?F = "\<lambda>Ks. listed Ks g \<lparr> Pot := Pot g - 4 \<rparr>"
  show "WP (parseCommaSeparated Kids Close E) (\<lambda>r h. ?J r \<and> within h (?F r)) g"
    unfolding parseCommaSeparated_def
    by (intro wp WP_loop [where J = ?J and H = "\<lambda>Ks. listed Ks g" and F = ?F] loop_bodyI
        WP_post [OF elem])
      (use assms(2,3) in \<open>auto simp: loop_simps later_def yield_def listed_def\<close>)
qed (use post in blast)


section \<open>Contracts\<close>

text \<open>
  \<open>spec P R m\<close>: under a claim \<open>g\<close> with \<open>P g\<close>, the result \<open>r\<close> of \<open>m\<close> leaves \<open>R r g\<close>.
\<close>

definition spec :: "(claim \<Rightarrow> bool) \<Rightarrow> ('a \<Rightarrow> claim \<Rightarrow> claim) \<Rightarrow> 'a parser \<Rightarrow> bool" where
  "spec P R m \<longleftrightarrow> (\<forall>g. P g \<longrightarrow> WP m (\<lambda>r h. within h (R r g)) g)"

lemma specI: "(\<And>g. P g \<Longrightarrow> WP m (\<lambda>r h. within h (R r g)) g) \<Longrightarrow> spec P R m"
  by (simp add: spec_def)

lemma WP_spec: "\<lbrakk>spec P R m; P g; \<And>r. Q r (R r g)\<rbrakk> \<Longrightarrow> WP m Q g"
  unfolding spec_def by (rule WP_post) auto

lemma spec_disj: "spec P R m \<Longrightarrow> spec P' R m \<Longrightarrow> spec (\<lambda>g. P g \<or> P' g) R m"
  unfolding spec_def by blast

lemma WP_option [wp]:
  "\<lbrakk>v = None \<Longrightarrow> WP m Q g; \<And>x. v = Some x \<Longrightarrow> WP (f x) Q g\<rbrakk>
     \<Longrightarrow> WP (case v of None \<Rightarrow> m | Some x \<Rightarrow> f x) Q g"
  by (cases v) simp_all

lemmas claim_simps = within_def claim_defs expected_def yield_def later_def synced_def listed_def
  commented_def Let_def

end
