(* ===== verification/ParserCalls.thy ===== *)
theory ParserCalls
  imports ParserRules
begin

text \<open>
  The interface between a production and the cycle of productions it calls, as the locale
  \<open>parser_calls\<close>: \<open>call\<close> keeps the contracts of the six productions of the cycle in every state
  with fewer than \<open>k\<close> tokens left.  A production that calls nothing but \<open>call\<close> and smaller
  productions is proved in the locale to keep its own contract with up to \<open>k\<close> tokens left, so
  that induction on \<open>k\<close> closes the cycle.
\<close>

definition ready :: "nat \<Rightarrow> claim \<Rightarrow> bool" where
  "ready k g \<longleftrightarrow> (Bnd g < k \<or> Prog g \<and> Bnd g \<le> k) \<and> 8 \<le> Rate g \<and> 0 \<le> Spare g"

text \<open>The states in which a production itself is run.\<close>

definition inside :: "nat \<Rightarrow> claim \<Rightarrow> bool" where
  "inside k g \<longleftrightarrow> Bnd g \<le> k \<and> 8 \<le> Rate g \<and> 0 \<le> Spare g"

text \<open>A production that has consumed a token, and whose tokens paid for \<open>n\<close> nodes to spare.\<close>

definition gained :: "int \<Rightarrow> node_index \<Rightarrow> claim \<Rightarrow> claim" where
  "gained n r g = yield (- n) r g \<lparr> Prog := True \<rparr>"

text \<open>A production that gains \<open>n\<close> nodes from a token when \<open>P\<close> holds, and may cost one else.\<close>

definition stride :: "(claim \<Rightarrow> bool) \<Rightarrow> int \<Rightarrow> node_index \<Rightarrow> claim \<Rightarrow> claim" where
  "stride P n r g = g \<lparr> Look := UNIV, Live := insert r (Live g),
     Pot := Pot g + (if P g then n else -1), Prog := Prog g \<or> P g \<rparr>"

text \<open>A production that may come back without a node.\<close>

definition maybe_node :: "node_index \<Rightarrow> claim \<Rightarrow> claim" where
  "maybe_node r g = g \<lparr> Look := UNIV, Live := Live g \<union> ({r} - {NullNode}) \<rparr>"

locale parser_calls =
  fixes call :: calls and k :: nat
  assumes call_expr: "0 \<le> bp \<Longrightarrow> spec (ready k) (yield 1) (call (CExpr bp))"
    and call_type: "spec (ready k) (yield 1) (call CType)"
    and call_pat: "spec (ready k) (yield 1) (call CPat)"
    and call_stmt: "spec (\<lambda>g. ready k g \<and> Look g \<inter> {tk_r_brace, tk_eof} = {}) (gained 0) (call CStmt)"
    and call_if: "spec (\<lambda>g. ready k g \<and> Look g = {kw_if}) (yield 0) (call CIf)"
    and call_top: "spec (\<lambda>g. ready k g \<and> 13 \<le> Rate g \<and> tk_eof \<notin> Look g) (gained 0) (call CTopLevel)"
begin

lemmas calls = call_expr [THEN WP_spec] call_type [THEN WP_spec] call_pat [THEN WP_spec]
  call_stmt [THEN WP_spec] call_if [THEN WP_spec] call_top [THEN WP_spec]

end

lemmas call_simps = claim_simps ready_def inside_def gained_def stride_def arity_def

section \<open>Types\<close>

context parser_calls
begin

lemma parseTupleType_spec [THEN WP_spec, wp]:
  "spec (\<lambda>g. inside k g \<and> Look g = {tk_l_paren}) (gained 2) (parseTupleType call)"
  by (rule specI, unfold parseTupleType_def, intro wp calls) (auto simp: call_simps)

lemma parseArrayType_spec [THEN WP_spec, wp]:
  "spec (\<lambda>g. inside k g \<and> Look g = {tk_l_square}) (gained 2) (parseArrayType call)"
  by (rule specI, unfold parseArrayType_def parseConstExpr_def, intro wp calls)
    (auto simp: call_simps)

lemma parseTensorType_spec [THEN WP_spec, wp]:
  "spec (\<lambda>g. inside k g \<and> Look g = {kw_tensor}) (gained 2) (parseTensorType call)"
  by (rule specI, unfold parseTensorType_def parseConstExpr_def, intro wp calls)
    (auto simp: call_simps)

lemma parseNamedType_spec [THEN WP_spec, wp]:
  "spec (\<lambda>g. 0 \<le> Rate g) (yield 1) parseNamedType"
  by (rule specI, unfold parseNamedType_def, intro wp) (auto simp: call_simps)

lemma parseType_spec [THEN WP_spec, wp]: "spec (inside k) (yield 1) (parseType call)"
  by (rule specI, unfold parseType_def, intro wp) (auto simp: call_simps)

end

section \<open>Generics\<close>

context parser_calls
begin

lemma parseGenericParam_spec [THEN WP_spec, wp]: "spec (inside k) (yield 1) (parseGenericParam call)"
  by (rule specI, unfold parseGenericParam_def, intro wp calls) (auto simp: call_simps)

lemma parseGenericParams_spec [THEN WP_spec, wp]:
  "spec (inside k) maybe_node (parseGenericParams call)"
  by (rule specI, unfold parseGenericParams_def, intro wp calls) (auto simp: call_simps maybe_node_def)

lemma parseGenericArgs_spec [THEN WP_spec, wp]:
  "spec (\<lambda>g. inside k g \<and> Look g = {tk_less}) (gained 4) (parseGenericArgs call)"
  by (rule specI, unfold parseGenericArgs_def, intro wp calls) (auto simp: call_simps)

end

section \<open>Patterns\<close>

lemma literalKinds_known [simp]:
  "K \<in> set literalKinds \<Longrightarrow> K \<noteq> tk_eof" "K \<in> set literalKinds \<Longrightarrow> tk_eof \<noteq> K"
  "K \<in> set literalKinds \<Longrightarrow> K \<noteq> tk_unknown" "K \<in> set literalKinds \<Longrightarrow> tk_unknown \<noteq> K"
  by (auto simp: literalKinds_def)

context parser_calls
begin

lemma parseFieldPat_spec [THEN WP_spec, wp]: "spec (inside k) (yield 1) (parseFieldPat call)"
  by (rule specI, unfold parseFieldPat_def, intro wp calls) (auto simp: call_simps)

lemma parseStructPat_spec [THEN WP_spec, wp]:
  "spec (\<lambda>g. inside k g \<and> Look g = {tk_l_brace}) (gained 3) (parseStructPat call Name Start0)"
  by (rule specI, unfold parseStructPat_def, intro wp calls) (auto simp: call_simps)

lemma parseTuplePat_spec [THEN WP_spec, wp]:
  "spec (\<lambda>g. inside k g \<and> Look g = {tk_l_paren}) (gained 3) (parseTuplePat call Name Start0)"
  by (rule specI, unfold parseTuplePat_def, intro wp calls) (auto simp: call_simps)

lemma parsePat_spec [THEN WP_spec, wp]: "spec (inside k) (stride (\<lambda>g. tk_eof \<notin> Look g) 3) (parsePat call)"
  by (rule specI, unfold parsePat_def Let_def, intro wp calls) (auto simp: call_simps)

end

section \<open>Blocks\<close>

context parser_calls
begin

lemma parseBlockExpr_spec [THEN WP_spec, wp]:
  "spec (\<lambda>g. ready k g \<or> inside k g \<and> Look g = {tk_l_brace}) (stride (\<lambda>g. Look g = {tk_l_brace}) 4)
     (parseBlockExpr call)"
  by (rule spec_disj; rule specI, unfold parseBlockExpr_def, intro wp calls) (auto simp: call_simps)

lemma parseUnsafeBlock_spec [THEN WP_spec, wp]:
  "spec (\<lambda>g. inside k g \<and> Look g = {kw_unsafe}) (gained 4) (parseUnsafeBlock call)"
  by (rule specI, unfold parseUnsafeBlock_def, intro wp calls) (auto simp: call_simps)

lemma parseIfExpr_spec [THEN WP_spec, wp]:
  "spec (\<lambda>g. inside k g \<and> Look g = {kw_if}) (gained 4) (parseIfExpr call)"
  by (rule specI, unfold parseIfExpr_def, intro wp calls) (auto simp: call_simps)

lemma parseWhileStmt_spec [THEN WP_spec, wp]:
  "spec (\<lambda>g. inside k g \<and> Look g = {kw_while}) (gained 4) (parseWhileStmt call)"
  by (rule specI, unfold parseWhileStmt_def, intro wp calls) (auto simp: call_simps)

lemma parseMatchArm_spec [THEN WP_spec, wp]:
  "spec (\<lambda>g. inside k g \<and> Look g \<inter> {tk_r_brace, tk_eof} = {}) (gained 0) (parseMatchArm call)"
  by (rule specI, unfold parseMatchArm_def, intro wp calls) (auto simp: call_simps)

lemma parseMatchExpr_spec [THEN WP_spec, wp]:
  "spec (\<lambda>g. inside k g \<and> Look g = {kw_match}) (gained 4) (parseMatchExpr call)"
  by (rule specI, unfold parseMatchExpr_def, intro wp calls) (auto simp: call_simps)

end

end
