(* ===== verification/ExprCalls.thy ===== *)
theory ExprCalls
  imports ParserCalls
begin

text \<open>The contracts of the expressions and statements.\<close>

section \<open>Binding powers\<close>

lemma infix_known:
  assumes "infixBindingPower K = (l, r)" "\<not> l < M" "0 \<le> M"
  shows "K \<noteq> tk_eof \<and> tk_eof \<noteq> K \<and> K \<noteq> tk_unknown \<and> tk_unknown \<noteq> K \<and> 0 \<le> r"
  using assms by (auto simp: infixBindingPower_def assignKinds_def compareKinds_def split: if_splits)

lemma prefixBindingPower_known [simp]:
  "K = tk_bang \<or> K = tk_minus \<or> K = tk_amp \<or> K = tk_star \<Longrightarrow> prefixBindingPower K = 110"
  by (simp add: prefixBindingPower_def)

text \<open>The tokens at which an expression cannot start and which it leaves in place.\<close>

definition leftKinds :: "kind set" where
  "leftKinds = insert tk_eof (set syncTokens)"

lemma leftKinds_simps [simp]:
  "tk_eof \<in> leftKinds" "K \<in> set literalKinds \<Longrightarrow> K \<notin> leftKinds"
  "K \<in> set exprStmtKinds \<Longrightarrow> K \<notin> leftKinds"
  by (auto simp: leftKinds_def syncTokens_def literalKinds_def exprStmtKinds_def)

abbreviation expr_stride :: "node_index \<Rightarrow> claim \<Rightarrow> claim" where
  "expr_stride \<equiv> stride (\<lambda>g. Look g \<inter> leftKinds = {}) 2"

section \<open>Postfix forms\<close>

context parser_calls
begin

lemma parseLitExpr_spec [THEN WP_spec, wp]: "spec (\<lambda>g. True) (\<lambda>r g. allocated nk_LitExpr r g) (parseLitExpr Tok)"
  by (rule specI, unfold parseLitExpr_def, intro wp) (auto simp: call_simps)

lemma parseArgList_spec [THEN WP_spec, wp]:
  "spec (\<lambda>g. inside k g \<and> Look g = {tk_l_paren}) (gained 4) (parseArgList call)"
  by (rule specI, unfold parseArgList_def, intro wp calls) (auto simp: call_simps)

lemma parseFieldInit_spec [THEN WP_spec, wp]: "spec (inside k) (yield 1) (parseFieldInit call)"
  by (rule specI, unfold parseFieldInit_def, intro wp calls) (auto simp: call_simps)

lemma parseStructLitExpr_spec [THEN WP_spec, wp]:
  "spec (\<lambda>g. inside k g \<and> Look g = {tk_l_brace}) (gained 3) (parseStructLitExpr call Name Start0)"
  by (rule specI, unfold parseStructLitExpr_def, intro wp calls) (auto simp: call_simps)

lemma parseArrayLitExpr_spec [THEN WP_spec, wp]:
  "spec (\<lambda>g. inside k g \<and> Look g = {tk_l_square}) (gained 4) (parseArrayLitExpr call)"
  by (rule specI, unfold parseArrayLitExpr_def parseConstExpr_def, intro wp calls)
    (auto simp: call_simps)

lemma parseTensorLitExpr_spec [THEN WP_spec, wp]:
  "spec (\<lambda>g. inside k g \<and> Look g = {kw_tensor}) (gained 2) (parseTensorLitExpr call)"
  by (rule specI, unfold parseTensorLitExpr_def parseConstExpr_def Let_def, intro wp calls)
    (auto simp: call_simps)

lemma parsePostfixIndex_spec [THEN WP_spec, wp]:
  "spec (\<lambda>g. inside k g \<and> Look g = {tk_l_square} \<and> Lhs \<in> Live g) (gained 4)
     (parsePostfixIndex call Lhs)"
  by (rule specI, unfold parsePostfixIndex_def Let_def, intro wp calls) (auto simp: call_simps)

lemma parseFieldAccess_spec [THEN WP_spec, wp]:
  "spec (\<lambda>g. inside k g \<and> Lhs \<in> Live g) (yield 1) (parseFieldAccess Lhs)"
  by (rule specI, unfold parseFieldAccess_def, intro wp) (auto simp: call_simps)

lemma parseTupleIndex_spec [THEN WP_spec, wp]:
  "spec (\<lambda>g. Lhs \<in> Live g) (yield 1) (parseTupleIndex Lhs TokSpan Text)"
  by (rule specI, unfold parseTupleIndex_def, intro wp) (auto simp: call_simps)

lemma parseDot_spec [THEN WP_spec, wp]:
  "spec (\<lambda>g. inside k g \<and> Look g = {tk_dot} \<and> Lhs \<in> Live g) (gained 4) (parseDot Lhs)"
  by (rule specI, unfold parseDot_def, intro wp) (auto simp: call_simps)

lemma parsePostfixOrCallExpr_spec [THEN WP_spec, wp]:
  "spec (\<lambda>g. inside k g \<and> Lhs \<in> Live g) (yield 0) (parsePostfixOrCallExpr call Lhs)"
proof (rule specI, elim conjE)
  fix g assume "inside k g" "Lhs \<in> Live g"
  then show "WP (parsePostfixOrCallExpr call Lhs) (\<lambda>r h. within h (yield 0 r g)) g"
    unfolding parsePostfixOrCallExpr_def
    by - (rule WP_loop [where J = "\<lambda>_. True" and F = "\<lambda>r. yield 0 r g" and H = "\<lambda>r. yield 0 r g"],
      rule loop_bodyI, unfold parsePostfix_def, intro wp calls, simp_all add: call_simps loop_simps, blast+)
qed

end

section \<open>Expressions\<close>

context parser_calls
begin

lemma parseNameExpr_spec [THEN WP_spec, wp]:
  "spec (\<lambda>g. inside k g \<and> Look g = {tk_identifier}) (gained 3) (parseNameExpr call Tok)"
  by (rule specI, unfold parseNameExpr_def, intro wp calls) (auto simp: call_simps)

lemma parseParenExpr_spec [THEN WP_spec, wp]:
  "spec (\<lambda>g. inside k g \<and> Look g = {tk_l_paren}) (gained 4) (parseParenExpr call Tok)"
  by (rule specI, unfold parseParenExpr_def, intro wp calls) (auto simp: call_simps)

lemma parseUnaryExpr_spec:
  assumes "0 \<le> prefixBindingPower (TokenKind Tok)" "TokenKind Tok \<noteq> tk_eof" "TokenKind Tok \<noteq> tk_unknown"
  shows "spec (\<lambda>g. inside k g \<and> Look g = {TokenKind Tok}) (gained 4) (parseUnaryExpr call Tok)"
  by (rule specI, unfold parseUnaryExpr_def Let_def, intro wp calls)
    (use assms in \<open>auto simp: call_simps\<close>)

lemmas [wp] = parseUnaryExpr_spec [THEN WP_spec]

lemma parseStarExpr_spec [THEN WP_spec, wp]:
  "TokenKind Tok = tk_star \<Longrightarrow>
     spec (\<lambda>g. inside k g \<and> Look g = {tk_star}) (gained 4) (parseStarExpr call Tok)"
  by (rule specI, unfold parseStarExpr_def Let_def, intro wp calls) (auto simp: call_simps)

lemma parsePrefixExpr_spec [THEN WP_spec, wp]:
  "spec (inside k) expr_stride (parsePrefixExpr call)"
  by (rule specI, unfold parsePrefixExpr_def Let_def, intro wp calls)
    (auto simp: call_simps leftKinds_def)

lemma parseExpr_spec [THEN WP_spec, wp]:
  assumes "0 \<le> MinBP"
  shows "spec (inside k) expr_stride (parseExpr call MinBP)"
proof (rule specI)
  fix g assume g: "inside k g"
  have loop: "WP (loopP (\<lambda>LHS. do {
       LHS \<leftarrow> parsePostfixOrCallExpr call LHS;
       parseInfix call MinBP LHS
     }) r) (\<lambda>r h. within h (yield 0 r g)) g" if "inside k g" "r \<in> Live g" for r g
    by (rule WP_loop [where J = "\<lambda>_. True" and F = "\<lambda>r. yield 0 r g" and H = "\<lambda>r. yield 0 r g"],
      rule loop_bodyI, unfold parseInfix_def Let_def, intro wp calls)
      (use that assms in \<open>simp_all add: call_simps loop_simps, auto dest!: infix_known\<close>)
  show "WP (parseExpr call MinBP) (\<lambda>r h. within h (expr_stride r g)) g"
    unfolding parseExpr_def
    by (intro WP_bind wp WP_post [OF loop]) (use g in \<open>auto simp: call_simps\<close>)
qed

end

section \<open>Statements\<close>

context parser_calls
begin

lemma endLetStmt_spec [THEN WP_spec, wp]:
  "spec (\<lambda>g. inside k g \<and> (Cs \<noteq> [] \<longrightarrow> last Cs \<in> Live g)) (\<lambda>_ g. g \<lparr> Look := UNIV \<rparr>) (endLetStmt Cs)"
  by (rule specI, unfold endLetStmt_def Let_def, intro wp) (auto simp: call_simps)

lemma parseLetStmt_spec [THEN WP_spec, wp]:
  "spec (\<lambda>g. inside k g \<and> Look g = {kw_let}) (gained 4) (parseLetStmt call)"
  by (rule specI, unfold parseLetStmt_def Let_def, intro wp calls) (auto simp: call_simps)

lemma parseRetStmt_spec [THEN WP_spec, wp]:
  "spec (\<lambda>g. inside k g \<and> Look g = {kw_ret}) (gained 4) (parseRetStmt call)"
  by (rule specI, unfold parseRetStmt_def, intro wp calls) (auto simp: call_simps)

lemma parseForStmt_spec [THEN WP_spec, wp]:
  "spec (\<lambda>g. inside k g \<and> Look g = {kw_for}) (gained 4) (parseForStmt call)"
  by (rule specI, unfold parseForStmt_def, intro wp calls) (auto simp: call_simps)

lemma parseBreakStmt_spec [THEN WP_spec, wp]:
  "spec (\<lambda>g. inside k g \<and> Look g = {kw_break}) (gained 4) parseBreakStmt"
  by (rule specI, unfold parseBreakStmt_def, intro wp) (auto simp: call_simps)

lemma parseContinueStmt_spec [THEN WP_spec, wp]:
  "spec (\<lambda>g. inside k g \<and> Look g = {kw_continue}) (gained 4) parseContinueStmt"
  by (rule specI, unfold parseContinueStmt_def, intro wp) (auto simp: call_simps)

lemma parseExprStmt_spec [THEN WP_spec, wp]:
  "spec (\<lambda>g. inside k g \<and> Look g \<inter> leftKinds = {}) (gained 2) (parseExprStmt call)"
  by (rule specI, unfold parseExprStmt_def Let_def, intro wp calls) (auto simp: call_simps)

lemma parseStmt_spec [THEN WP_spec, wp]:
  "spec (\<lambda>g. inside k g \<and> Look g \<inter> {tk_r_brace, tk_eof} = {}) (gained 0) (parseStmt call)"
  by (rule specI, unfold parseStmt_def Let_def, intro wp calls) (auto simp: call_simps)

end

end
