(* ===== verification/DeclCalls.thy ===== *)
theory DeclCalls
  imports ExprCalls
begin

text \<open>
  The contracts of the declarations, which close the cycle: \<open>tie\<close> keeps the contracts of
  \<open>parser_calls\<close>.
\<close>

section \<open>Paying for nodes with a consumed token\<close>

text \<open>
  A production that always consumes a token may cost \<open>c\<close> nodes more than its tokens pay for: at
  \<open>c\<close> more nodes a token it costs nothing.
\<close>

lemma spec_pay:
  assumes m: "spec P (gained (- c)) m" and c: "0 \<le> c"
    and pre: "\<And>g b C. \<lbrakk>Q g; b \<le> Bnd g; Prog g \<longrightarrow> b < Bnd g\<rbrakk>
      \<Longrightarrow> P (rebase b g \<lparr> Rate := Rate g - c, Cap := C \<rparr>) \<and> c \<le> Rate g"
  shows "spec Q (gained 0) m"
proof (rule specI, rule WP_I)
  fix g s r s' assume g: "Q g" and s: "meets s g" and run: "run_state m s = (r, s')"
  note a = meetsD [OF s]
  let ?C = "int (size_of s) + (Rate g - c) * int (rem s) + Pot g"
  let ?g = "rebase (rem s) g \<lparr> Rate := Rate g - c, Cap := ?C \<rparr>"
  have p: "P ?g" "c \<le> Rate g" using pre [OF g a(4,5)] by blast+
  have "meets s ?g"
    using a p(2) by (intro meetsI) (simp_all add: rebase_def)
  with m p(1) have "WP m (\<lambda>r h. within h (gained (- c) r ?g)) ?g" unfolding spec_def by blast
  from WP_D [OF this \<open>meets s ?g\<close> run] obtain h where
    h: "frame s s'" "within h (gained (- c) r ?g)" "meets s' h" by blast
  have m': "meets s' (gained (- c) r ?g)" by (rule meets_within [OF h(3,2)])
  have b: "Bnd (gained (- c) r ?g) \<le> Bnd g" using a(4) by (simp add: gained_def yield_def rebase_def)
  note d = meetsD [OF m'] and f = meetsD [OF meets_frame [OF s h(1) m' b]]
  have "meets s' (gained 0 r g)"
  proof (rule meetsI)
    have less: "rem s' < rem s" using d(5) by (simp add: gained_def yield_def rebase_def)
    then have "c * (int (rem s') + 1) \<le> c * int (rem s)"
      using c by (intro mult_left_mono) simp_all
    moreover have "int (size_of s') + (Rate g - c) * int (rem s') + (Pot g - c) \<le> ?C"
      using d(14) by (simp add: gained_def yield_def rebase_def)
    ultimately have "int (size_of s') + Rate g * int (rem s') + Pot g
        \<le> int (size_of s) + Rate g * int (rem s) + Pot g"
      by (simp add: algebra_simps)
    then show "int (size_of s') + Rate (gained 0 r g) * int (rem s') + Pot (gained 0 r g)
        \<le> Cap (gained 0 r g)"
      using a(14) by (simp add: gained_def yield_def)
  qed (use f(1-13) f(16) a(15) in \<open>simp_all add: gained_def yield_def rebase_def\<close>)
  with h(1) show "frame s s' \<and> (\<exists>h. within h (gained 0 r g) \<and> meets s' h)"
    by (auto simp: within_def intro!: exI [of _ "gained 0 r g"])
qed

lemma WP_kind: "(\<And>K. K \<in> Look g \<Longrightarrow> WP m Q (g \<lparr> Look := {K} \<rparr>)) \<Longrightarrow> WP m Q g"
  unfolding WP_def using meets_look meetsD(11) by (metis singletonI)

text \<open>The look at the token after a \<open>::\<close>, and the two tokens consumed when it is a name.\<close>

lemma WP_segment:
  assumes look: "Look g = {tk_colon_colon}" and stop: "WP A Q g"
    and more: "WP B Q (consumed (consumed g \<lparr> Look := {tk_identifier} \<rparr>))"
  shows "WP (do {
       K1 \<leftarrow> pPeek 1;
       if K1 = tk_star \<or> K1 \<noteq> tk_identifier then A
       else do { pAdvance; pAdvance; B }
     }) Q g"
proof (rule WP_I)
  let ?seg = "do {
       K1 \<leftarrow> pPeek 1;
       if K1 = tk_star \<or> K1 \<noteq> tk_identifier then A
       else do { pAdvance; pAdvance; B }
     }"
  fix s r s' assume s: "meets s g" and run: "run_state ?seg s = (r, s')"
  let ?K = "peek 1 (Stream s)" and ?t = "s \<lparr> Stream := snd (advance (Stream s)) \<rparr>"
  show "frame s s' \<and> (\<exists>h. Q r h \<and> meets s' h)"
  proof (cases "?K = tk_identifier")
    case False
    with run have "run_state A s = (r, s')"
      by (simp add: State_Monad.bind_def pPeek_def gets_def)
    with stop s show ?thesis unfolding WP_def by blast
  next
    case True
    with run have run': "run_state (do { pAdvance; B }) ?t = (r, s')"
      by (auto simp: State_Monad.bind_def pPeek_def gets_def pAdvance_def split: prod.splits)
    have c: "next_kind s = tk_colon_colon" using meetsD(11) [OF s] look by simp
    from meetsD(1) [OF s] have "next_kind ?t = ?K"
      by (cases rule: advance_cases) (use c in \<open>simp_all add: peek_def\<close>)
    with True have t: "frame s ?t" "meets ?t (consumed g \<lparr> Look := {tk_identifier} \<rparr>)"
      using advanced [OF s] meets_look by simp_all
    have "WP (do { pAdvance; B }) Q (consumed g \<lparr> Look := {tk_identifier} \<rparr>)"
      by (intro wp) (rule more)
    from WP_D [OF this t(2) run'] obtain h where "frame ?t s'" "Q r h" "meets s' h" .
    with frame_trans [OF t(1)] show ?thesis by blast
  qed
qed

section \<open>Members and parameters\<close>

context parser_calls
begin

lemma parseStructField_spec [THEN WP_spec, wp]: "spec (inside k) (yield 1) (parseStructField call)"
  by (rule specI, unfold parseStructField_def Let_def, intro wp calls) (auto simp: call_simps)

lemma parseEnumVariant_spec [THEN WP_spec, wp]: "spec (inside k) (yield 1) (parseEnumVariant call)"
  by (rule specI, unfold parseEnumVariant_def parseConstExpr_def Let_def, intro wp calls)
    (auto simp: call_simps)

lemma parseParam_spec [THEN WP_spec, wp]: "spec (inside k) (yield 2) (parseParam call)"
  by (rule specI, unfold parseParam_def Let_def, intro wp calls) (auto simp: call_simps)

lemma parseParamList_spec [THEN WP_spec, wp]: "spec (inside k) (yield 3) (parseParamList call)"
  by (rule specI, unfold parseParamList_def, intro wp calls) (auto simp: call_simps)

lemma parseReturnType_spec [THEN WP_spec, wp]:
  "spec (inside k) (\<lambda>Ret g. g \<lparr> Look := UNIV, Live := Live g \<union> set Ret \<rparr>) (parseReturnType call)"
  by (rule specI, unfold parseReturnType_def, intro wp calls) (auto simp: call_simps)

end

section \<open>Declarations\<close>

text \<open>What a declaration is given, and what \<open>parseFnDecl\<close> leaves.\<close>

definition given :: "nat \<Rightarrow> node_index list \<Rightarrow> kind \<Rightarrow> claim \<Rightarrow> bool" where
  "given k Docs K g \<longleftrightarrow> inside k g \<and> nodes_in Docs \<subseteq> Live g \<and> Look g = {K}"

definition after_fn :: "node_index \<Rightarrow> claim \<Rightarrow> claim" where
  "after_fn r g = g \<lparr> Look := UNIV, Live := insert r (Live g),
     Pot := Pot g + (if Look g = {kw_fn} then 3 else -5),
     Prog := Prog g \<or> Look g = {kw_fn} \<or> Look g = {kw_unsafe},
     Toll := max (Toll g) (Suc (Errs g)) \<rparr>"

lemma nodes_genericChild [simp]: "set (genericChild N) = {N} - {NullNode}"
  by (auto simp: genericChild_def)

lemmas decl_simps = call_simps given_def after_fn_def maybe_node_def

context parser_calls
begin

lemma parseConstDecl_const: "spec (given k Docs kw_const) (gained 2) (parseConstDecl call Docs Flags)"
  by (rule specI, unfold parseConstDecl_def parseConstExpr_def, intro wp calls)
    (auto simp: decl_simps)

lemma parseFnDecl_spec [THEN WP_spec, wp]:
  "spec (\<lambda>g. nodes_in Docs \<subseteq> Live g \<and> (ready k g \<or> inside k g \<and> Look g = {kw_fn})) after_fn
     (parseFnDecl call Docs Flags ExpectBody)"
  by (rule specI, unfold parseFnDecl_def Let_def, intro wp calls) (auto simp: decl_simps)

lemma parseBodyDecl_spec:
  assumes "Kw \<noteq> tk_eof" "Kw \<noteq> tk_unknown" "NK \<noteq> nk_Error" "arity NK = UNIV"
    "spec (inside k) (yield 1) Member"
  shows "spec (given k Docs Kw) (gained 2) (parseBodyDecl call Kw What Member NK Docs Flags)"
  by (rule specI, unfold parseBodyDecl_def, intro wp calls WP_spec [OF assms(5)])
    (use assms(1-4) in \<open>auto simp: decl_simps\<close>)

lemma parseStructDecl_spec: "spec (given k Docs kw_struct) (gained 2) (parseStructDecl call Docs Flags)"
  unfolding parseStructDecl_def
  by (rule parseBodyDecl_spec, simp_all add: arity_def)
    (rule specI, intro wp, simp_all add: within_def)

lemma parseEnumDecl_spec: "spec (given k Docs kw_enum) (gained 2) (parseEnumDecl call Docs Flags)"
  unfolding parseEnumDecl_def
  by (rule parseBodyDecl_spec, simp_all add: arity_def)
    (rule specI, intro wp, simp_all add: within_def)

lemma parseUnionDecl_spec: "spec (given k Docs kw_union) (gained 2) (parseUnionDecl call Docs Flags)"
  unfolding parseUnionDecl_def
  by (rule parseBodyDecl_spec, simp_all add: arity_def)
    (rule specI, intro wp, simp_all add: within_def)

lemma parseModDecl_spec:
  "spec (\<lambda>g. given k Docs kw_mod g \<and> 13 \<le> Rate g) (gained 2) (parseModDecl call Docs Flags)"
  by (rule specI, unfold parseModDecl_def, intro wp calls) (auto simp: decl_simps)

end

lemma parseUseSegments_spec [THEN WP_spec, wp]:
  "spec (\<lambda>g. 0 \<le> Rate g) (\<lambda>_ g. g \<lparr> Look := UNIV \<rparr>) (parseUseSegments PathSpan)"
proof (rule specI)
  fix g :: claim assume "0 \<le> Rate g"
  then show "WP (parseUseSegments PathSpan) (\<lambda>_ h. within h (g \<lparr> Look := UNIV \<rparr>)) g"
    unfolding parseUseSegments_def
    by - (rule WP_loop [where J = "\<lambda>_. True" and F = "\<lambda>_. g \<lparr> Look := UNIV \<rparr>"
          and H = "\<lambda>_. g \<lparr> Look := UNIV \<rparr>"],
      rule loop_bodyI, intro WP_segment WP_bind [where m = "pPeek 0"] WP_peek WP_if wp,
      auto simp: loop_simps)
qed

lemma parseUseTail_spec [THEN WP_spec, wp]:
  "spec (\<lambda>g. 0 \<le> Rate g) (\<lambda>_ g. g \<lparr> Look := UNIV \<rparr>) (parseUseTail PathSpan)"
  by (rule specI, unfold parseUseTail_def, intro wp) (auto simp: call_simps)

lemma parseUseDecl_spec: "spec (given k Docs kw_use) (gained 2) (parseUseDecl Docs Flags)"
  by (rule specI, unfold parseUseDecl_def, intro wp) (auto simp: decl_simps)

section \<open>Methods, traits and implementations\<close>

lemma WP_noDocs: "\<lbrakk>tk_doc_comment \<notin> Look g; Q [] g\<rbrakk> \<Longrightarrow> WP parseDocComments Q g"
  unfolding parseDocComments_def parseComments_def
  by (rule WP_loop [where J = "\<lambda>Out. Out = []" and F = "\<lambda>_. g" and H = "\<lambda>_. g"])
    (auto intro!: wp loop_bodyI simp: loop_simps)

definition parseMethod :: "calls \<Rightarrow> bool \<Rightarrow> node_index parser" where
  "parseMethod call ExpectBody = do {
     MethodDocs \<leftarrow> parseDocComments;
     ErrorsBefore \<leftarrow> pErrorCount;
     N \<leftarrow> parseFnDecl call MethodDocs 0 ExpectBody;
     ErrorsAfter \<leftarrow> pErrorCount;
     (if ErrorsAfter \<noteq> ErrorsBefore then skipTo [tk_r_brace, kw_fn, kw_unsafe] else done_with ());
     done_with N
   }"

context parser_calls
begin

lemma parseMethod_progress:
  "spec (\<lambda>g. ready k g \<and> Look g \<inter> {tk_r_brace, tk_eof} = {}) (gained (- 5)) (parseMethod call ExpectBody)"
proof (rule specI, rule WP_kind)
  fix g K assume g: "ready k g \<and> Look g \<inter> {tk_r_brace, tk_eof} = {}" "K \<in> Look g"
  let ?R = "\<lambda>r h. within h (gained (- 5) r (g \<lparr> Look := {K} \<rparr>))"
  have "WP (parseMethod call ExpectBody) ?R (g \<lparr> Look := {K} \<rparr>)"
  proof (cases "K = tk_doc_comment")
    case True
    with g show ?thesis
      by - (rule WP_settle, unfold parseMethod_def, intro wp calls, auto simp: decl_simps)
  next
    case False
    with g show ?thesis
      by - (rule WP_settle, unfold parseMethod_def, intro WP_noDocs wp calls, auto simp: decl_simps)
  qed
  then show "WP (parseMethod call ExpectBody) (\<lambda>r h. within h (gained (- 5) r g)) (g \<lparr> Look := {K} \<rparr>)"
    by (simp add: gained_def yield_def)
qed

lemma parseMethod_spec [THEN WP_spec, wp]:
  "spec (\<lambda>g. ready k g \<and> 13 \<le> Rate g \<and> Look g \<inter> {tk_r_brace, tk_eof} = {}) (gained 0)
     (parseMethod call ExpectBody)"
  by (rule spec_pay [OF parseMethod_progress]) (auto simp: ready_def rebase_def)

lemma parseMethods_spec [THEN WP_spec, wp]:
  "spec (\<lambda>g. ready k g \<and> 13 \<le> Rate g \<and> nodes_in Kids \<subseteq> Live g)
     (\<lambda>Ks g. listed Ks g) (parseMethods call ExpectBody Kids)"
  by (rule specI, unfold parseMethods_def parseMethod_def [symmetric], intro wp)
    (auto simp: decl_simps)

lemma parseTraitDecl_spec:
  "spec (\<lambda>g. given k Docs kw_trait g \<and> 13 \<le> Rate g) (gained 2) (parseTraitDecl call Docs Flags)"
  by (rule specI, unfold parseTraitDecl_def, intro wp) (auto simp: decl_simps)

lemma parseImplDecl_spec:
  "spec (\<lambda>g. given k Docs kw_impl g \<and> 13 \<le> Rate g) (gained 2) (parseImplDecl call Docs Flags)"
  by (rule specI, unfold parseImplDecl_def, intro wp) (auto simp: decl_simps)

end

section \<open>Top-level declarations\<close>

context parser_calls
begin

text \<open>
  An \<open>unsafe\<close> that is not followed by \<open>fn\<close> is parsed as a constant: nothing is consumed up to
  its value, where the block is.
\<close>

lemma parseExpr_home:
  "spec (inside k) (\<lambda>r g. yield 1 r g \<lparr> Prog := Prog g \<or> Home g \<inter> leftKinds = {} \<rparr>) (parseExpr call 0)"
  by (rule specI, rule WP_home; rule parseExpr_spec) (auto simp: call_simps)

lemma parseConstDecl_unsafe: "spec (given k Docs kw_unsafe) (gained (- 4)) (parseConstDecl call Docs Flags)"
  by (rule specI, rule WP_settle, unfold parseConstDecl_def parseConstExpr_def,
      intro WP_expect WP_expectIn WP_expectName WP_previous parseType_spec WP_alloc WP_bind
        parseExpr_home [THEN WP_spec])
    (auto simp: decl_simps leftKinds_def syncTokens_def)

lemma parseConstDecl_spec:
  "spec (\<lambda>g. 13 \<le> Rate g \<and> (given k Docs kw_const g \<or> given k Docs kw_unsafe g)) (gained 0)
     (parseConstDecl call Docs Flags)"
proof -
  have "spec (\<lambda>g. 13 \<le> Rate g \<and> given k Docs kw_unsafe g) (gained 0) (parseConstDecl call Docs Flags)"
    by (rule spec_pay [OF parseConstDecl_unsafe]) (auto simp: given_def inside_def rebase_def)
  moreover have "spec (\<lambda>g. 13 \<le> Rate g \<and> given k Docs kw_const g) (gained 0) (parseConstDecl call Docs Flags)"
    by (rule specI, rule parseConstDecl_const [THEN WP_spec]) (auto simp: decl_simps)
  ultimately show ?thesis using spec_disj unfolding spec_def by blast
qed

lemma parseTopLevelDecl_spec:
  "spec (\<lambda>g. inside k g \<and> 13 \<le> Rate g \<and> tk_eof \<notin> Look g) (gained 0) (parseTopLevelDecl call)"
  by (rule specI, rule WP_settle, unfold parseTopLevelDecl_def Let_def,
      intro wp calls parseConstDecl_spec [THEN WP_spec] parseModDecl_spec [THEN WP_spec]
        parseStructDecl_spec [THEN WP_spec] parseEnumDecl_spec [THEN WP_spec]
        parseUnionDecl_spec [THEN WP_spec] parseUseDecl_spec [THEN WP_spec]
        parseTraitDecl_spec [THEN WP_spec] parseImplDecl_spec [THEN WP_spec])
    (auto simp: decl_simps)

end

end
