(* ===== verification/ParserCycle.thy ===== *)
theory ParserCycle
  imports DeclCalls
begin

text \<open>
  Closing the cycle: by induction on the fuel \<open>tie k\<close> keeps the contracts of \<open>parser_calls\<close> with
  up to \<open>k\<close> tokens left, which interprets the locale on the parser itself, and the contract of
  \<open>parseSourceFile\<close> follows.
\<close>

section \<open>Progress measured from a call\<close>

text \<open>What the claim \<open>h\<close> after a call says in terms of the claim \<open>g\<close> before it.\<close>

definition resumed :: "claim \<Rightarrow> claim \<Rightarrow> claim" where
  "resumed g h = h \<lparr> Bnd := Bnd g, Prog := Prog g \<or> Prog h, Home := Home g, Toll := Toll g,
     Live := Live g \<union> Live h, Errs := max (Errs g) (Errs h), Lax := Lax g \<or> Lax h \<rparr>"

lemma spec_rebase:
  assumes "\<And>g b. \<lbrakk>Q g; b \<le> Bnd g; Prog g \<longrightarrow> b < Bnd g\<rbrakk>
    \<Longrightarrow> WP m (\<lambda>r h. Bnd h \<le> b \<and> within (resumed g h) (R r g)) (rebase b g)"
  shows "spec Q R m"
proof (rule specI, rule WP_I)
  fix g s r s' assume g: "Q g" and s: "meets s g" and run: "run_state m s = (r, s')"
  note a = meetsD(4,5) [OF s]
  from WP_D [OF assms [OF g a] meets_rebase [OF s] run] obtain h where
    h: "frame s s'" "Bnd h \<le> rem s \<and> within (resumed g h) (R r g)" "meets s' h" by blast
  with a(1) have "Bnd h \<le> Bnd g" by linarith
  from meets_frame [OF s h(1,3) this] have "meets s' (resumed g h)" by (simp add: resumed_def)
  with h(1,2) show "frame s s' \<and> (\<exists>h. within h (R r g) \<and> meets s' h)" by blast
qed

lemmas cycle_simps = resumed_def rebase_def within_def yield_def gained_def
  stride_def

lemma ready_inside:
  "\<lbrakk>ready (Suc k) g; b \<le> Bnd g; Prog g \<longrightarrow> b < Bnd g\<rbrakk> \<Longrightarrow> inside k (rebase b g)"
  by (cases "Prog g") (simp_all add: ready_def inside_def rebase_def, linarith+)

section \<open>The cycle\<close>

lemma spec_ready_0: "spec (\<lambda>g. ready 0 g \<and> P g) R m"
proof (rule specI, rule WP_I)
  fix g s r s' assume "ready 0 g \<and> P g" "meets s g"
  then show "frame s s' \<and> (\<exists>h. within h (R r g) \<and> meets s' h)"
    using meetsD(4,5) by (fastforce simp: ready_def)
qed

lemma tie_calls: "parser_calls (tie k) k"
proof (induction k)
  case 0
  show ?case
    using spec_ready_0 [where P = "\<lambda>_. True"] spec_ready_0
    by (intro parser_calls.intro) simp_all
next
  case (Suc k)
  note calls = parser_calls.parseType_spec [OF Suc, THEN WP_spec]
    parser_calls.parsePat_spec [OF Suc, THEN WP_spec] parser_calls.parseStmt_spec [OF Suc, THEN WP_spec]
    parser_calls.parseIfExpr_spec [OF Suc, THEN WP_spec]
    parser_calls.parseTopLevelDecl_spec [OF Suc, THEN WP_spec]
    WP_spec [OF parser_calls.parseExpr_spec [OF Suc]]
  show ?case
    by (rule parser_calls.intro; rule spec_rebase; simp only: tie.simps nonterm.case; rule calls)
      (simp_all add: ready_inside, simp_all add: cycle_simps)
qed

interpretation tied: parser_calls "tie k" k for k
  by (rule tie_calls)

section \<open>Whole files\<close>

context parser_calls
begin

lemma parseSourceFile_spec:
  "spec (\<lambda>g. inside k g \<and> 13 \<le> Rate g)
     (\<lambda>r g. g \<lparr> Look := {tk_eof}, Live := insert r (Live g), Pot := Pot g - 1 \<rparr>)
     (parseSourceFile call)"
  by (rule specI, unfold parseSourceFile_def, intro wp parseTopLevelDecl_spec [THEN WP_spec])
    (auto simp: decl_simps)

end

end
