(* ===== verification/ParserProps.thy ===== *)
theory ParserProps
  imports ParserCycle
begin

text \<open>
  What the contract of \<open>parseSourceFile\<close> gives for \<open>parse\<close>: it always returns, its tree is well
  formed and small, it reads to the end of the file, an error node stands for a reported error, a
  result that is \<open>ok\<close> comes from a file without lexer errors, and names keep their ids.
\<close>

section \<open>The run of the parser\<close>

text \<open>The claim that a new parser meets, and the one its final state meets.\<close>

definition fresh :: "nat \<Rightarrow> claim" where
  "fresh n = \<lparr> Bnd = n, Prog = False, SLit = True, Errs = 0, Toll = 0, Lax = False, Dirt = False,
     Spare = 0, Look = UNIV, Home = UNIV, Live = {}, Pot = 0, Rate = 13, Cap = 1 + 13 * int n \<rparr>"

definition final :: "nat \<Rightarrow> node_index \<Rightarrow> claim" where
  "final n r = fresh n \<lparr> Look := {tk_eof}, Live := {r}, Pot := -1 \<rparr>"

lemma meets_fresh:
  "\<lbrakk>stream_wf TS; Cursor TS = 0\<rbrakk> \<Longrightarrow> meets (newParser TS I) (fresh (remaining TS))"
  using pool_wf_new
  by (intro meetsI)
    (simp_all add: fresh_def newParser_def tree_wf_def dirty_def error_nodes_def node_ok_def
      arity_def Let_def newNodePool_def childSlice_def alloc_def)

lemma parseSourceFile_run:
  assumes "stream_wf TS" "Cursor TS = 0"
    "run_state (parseSourceFile (tie (Suc (remaining TS)))) (newParser TS I) = (root, s)"
  shows "frame (newParser TS I) s" "meets s (final (remaining TS) root)"
proof -
  have "WP (parseSourceFile (tie (Suc (remaining TS)))) (\<lambda>r h. within h (final (remaining TS) r))
      (fresh (remaining TS))"
    by (rule WP_spec [OF tied.parseSourceFile_spec])
      (simp_all add: fresh_def final_def inside_def within_def)
  from WP_D [OF this meets_fresh [OF assms(1,2)] assms(3)] obtain h where
    "frame (newParser TS I) s" "within h (final (remaining TS) root)" "meets s h" .
  then show "frame (newParser TS I) s" "meets s (final (remaining TS) root)"
    using meets_within by blast+
qed

lemma parse_run:
  assumes "parse TS I = Some (R, I')"
  obtains s where "run_state (parseSourceFile (tie (Suc (remaining TS)))) (newParser TS I) = (Root R, s)"
    "\<not> Stuck s" "ResultPool R = Pool s" "ResultErrors R = Errors s" "I' = Interner s"
  using assms by (auto simp: parse_def split: prod.splits if_splits)

lemma parse_claim:
  assumes "stream_wf TS" "Cursor TS = 0" "parse TS I = Some (R, I')"
  obtains s where "frame (newParser TS I) s" "meets s (final (remaining TS) (Root R))"
    "ResultPool R = Pool s" "ResultErrors R = Errors s" "I' = Interner s"
  using parse_run [OF assms(3)] parseSourceFile_run [OF assms(1,2)] by metis

lemma remaining_new: "Cursor TS = 0 \<Longrightarrow> remaining TS = length (Tokens TS)"
  by (simp add: remaining_def)

lemma parse_nodes:
  assumes "stream_wf TS" "Cursor TS = 0" "parse TS I = Some (R, I')"
  shows "length (Nodes (ResultPool R)) \<le> 2 + 13 * length (Tokens TS)"
proof -
  obtain s where s: "meets s (final (remaining TS) (Root R))" "ResultPool R = Pool s"
    using parse_claim [OF assms] by metis
  have "0 \<le> 13 * int (rem s)" by simp
  with meetsD(14) [OF s(1)] have "int (size_of s) \<le> 2 + 13 * int (remaining TS)"
    by (simp add: final_def fresh_def)
  then show ?thesis using s(2) remaining_new [OF assms(2)] by simp
qed

text \<open>The root is the node the parser allocated last.\<close>

lemma parseSourceFile_root:
  assumes "run_state (parseSourceFile call) s = (root, s')"
  shows "\<exists>P S ks. alloc nk_SourceFile S ks 0 0 P = (root, Pool s')"
  using assms
  by (fastforce simp: parseSourceFile_def State_Monad.bind_def pAlloc_def split: prod.splits)

lemma parse_root:
  assumes "parse TS I = Some (R, I')" "length (Nodes (ResultPool R)) \<le> 4294967296"
  shows "unat (Root R) = length (Nodes (ResultPool R)) - 1 \<and> kindOf (ResultPool R) (Root R) = Some nk_SourceFile"
proof -
  obtain s where run: "run_state (parseSourceFile (tie (Suc (remaining TS)))) (newParser TS I) = (Root R, s)"
    and s: "ResultPool R = Pool s" by (rule parse_run [OF assms(1)])
  obtain P S ks where a: "alloc nk_SourceFile S ks 0 0 P = (Root R, Pool s)"
    using parseSourceFile_root [OF run] by blast
  note e = alloc_eqs [OF a]
  have "unat (Root R) = length (Nodes P)"
    using assms(2) by (simp add: s e unat_of_nat take_bit_nat_eq_self)
  then show ?thesis by (simp add: s kindOf_def nodeAt_def e(4))
qed

text \<open>The stream of a source text has at most one token a byte, and the end of file.\<close>

lemma source_stream:
  assumes "length B < 4294967295"
  shows "stream_wf (newTokenStream (lex B) B)" "Cursor (newTokenStream (lex B) B) = 0"
    "length (Tokens (newTokenStream (lex B) B)) \<le> Suc (length B)"
proof -
  have B: "length B < 4294967296" using assms by simp
  have "length (lexLoop B (length B) B) \<le> length B"
    using length_lexLoop [OF window_lexSpan [OF B, of "Span 0 (of_nat (length B))"]] B by simp
  then have l: "length (lex B) \<le> Suc (length B)" by (simp add: lex_snoc_eof [OF B])
  have c: "length (fst (collectItems Is)) \<le> length Is" for Is
    by (induction Is rule: collectItems.induct) (auto split: prod.splits)
  have t: "Tokens (newTokenStream (lex B) B) = fst (collectItems (lex B))"
    "Cursor (newTokenStream (lex B) B) = 0"
    by (simp_all add: newTokenStream_def split: prod.splits)
  from l assms show "stream_wf (newTokenStream (lex B) B)" by (intro stream_wf_new) simp
  show "Cursor (newTokenStream (lex B) B) = 0" by (rule t)
  show "length (Tokens (newTokenStream (lex B) B)) \<le> Suc (length B)"
    using c [of "lex B"] l unfolding t by (rule order_trans)
qed

lemma parseSourceFile_returns:
  assumes "stream_wf TS" "Cursor TS = 0"
  shows "\<exists>R I'. parse TS I = Some (R, I')"
proof -
  obtain root s where
    run: "run_state (parseSourceFile (tie (Suc (remaining TS)))) (newParser TS I) = (root, s)"
    by (metis prod.exhaust)
  then have "\<not> Stuck s" using parseSourceFile_run(2) [OF assms run] by (simp add: meets_def)
  with run show ?thesis by (simp add: parse_def)
qed

lemma source_window: "length B < 4294967296 \<Longrightarrow> window B (length B) B"
  using window_lexSpan [of B "Span 0 (of_nat (length B))"] by simp

lemma source_last:
  assumes "length B < 4294967296"
  shows "Tokens (newTokenStream (lex B) B) = fst (collectItems (lexLoop B (length B) B))
    @ [Token tk_eof (Span (of_nat (length B)) (of_nat (length B)))]"
  using collectItems_snoc_eof [of "Token tk_eof (Span (of_nat (length B)) (of_nat (length B)))"]
  by (simp add: newTokenStream_def lex_snoc_eof [OF assms] split: prod.splits) (metis fst_conv)

text \<open>Only the last token is the end of file, so a parser that stops there has read the others.\<close>

lemma source_eof:
  assumes "length B < 4294967296" "i < length (Tokens (newTokenStream (lex B) B)) - 1"
  shows "TokenKind (Tokens (newTokenStream (lex B) B) ! i) \<noteq> tk_eof"
proof -
  obtain ts es where c: "collectItems (lexLoop B (length B) B) = (ts, es)" by (metis prod.exhaust)
  have i: "i < length ts" "Tokens (newTokenStream (lex B) B) ! i = ts ! i"
    using assms(2) by (simp_all add: source_last [OF assms(1)] c nth_append)
  have "t \<in> set ts \<Longrightarrow> TokenKind t \<noteq> tk_eof" for t
    using collectItems_unknown [OF c] lexLoop_not_eof [OF source_window [OF assms(1)]]
    by (fastforce simp: set_tokens_of)
  with i show ?thesis by simp
qed

lemma final_cursor:
  assumes B: "length B < 4294967296" and "frame (newParser (newTokenStream (lex B) B) I) s"
    "next_kind s = tk_eof"
  shows "Tokens (Stream s) = Tokens (newTokenStream (lex B) B)
    \<and> LexErrors (Stream s) = LexErrors (newTokenStream (lex B) B)
    \<and> length (Tokens (newTokenStream (lex B) B)) \<le> Suc (unat (Cursor (Stream s)))"
proof -
  let ?TS = "newTokenStream (lex B) B"
  have t: "Tokens (Stream s) = Tokens ?TS" "LexErrors (Stream s) = LexErrors ?TS"
    using assms(2) by (auto simp: frame_def newParser_def)
  moreover have "\<not> unat (Cursor (Stream s)) < length (Tokens ?TS) - 1"
  proof
    assume l: "unat (Cursor (Stream s)) < length (Tokens ?TS) - 1"
    then have "next_kind s = TokenKind (Tokens ?TS ! unat (Cursor (Stream s)))"
      by (simp add: peek_def Let_def t)
    with source_eof [OF B l] assms(3) show False by simp
  qed
  ultimately show ?thesis by simp
qed

section \<open>Properties\<close>

text \<open>C2: the parser always comes back.  On any stream of fewer than \<open>2 ^ 32\<close> tokens, read from
  its start, it returns a result: no loop and no recursion runs longer than there are tokens, so
  the fuel given is never used up, and no index used is out of range.\<close>

theorem parse_returns:
  assumes "stream_wf TS" "Cursor TS = 0"
  shows "\<exists>R I'. parse TS I = Some (R, I')"
  by (rule parseSourceFile_returns [OF assms])

theorem parse_returns_witness:
  "\<exists>R I'. parse (newTokenStream (lex ''fn f( {'') ''fn f( {'') newInterner = Some (R, I')"
  by (rule parse_returns) (simp_all add: source_stream)

text \<open>C10: the tree is a tree.  The root is the last node and a source file; every child of a node
  is missing or an earlier node, so that following children ends; every kind with a fixed number
  of children has that many; and the children, spans and payloads of all nodes are in range.\<close>

theorem parse_tree:
  assumes "stream_wf TS" "Cursor TS = 0" "13 * length (Tokens TS) + 2 \<le> 4294967296"
    "parse TS I = Some (R, I')"
  shows "tree_wf (ResultPool R) \<and> unat (Root R) = length (Nodes (ResultPool R)) - 1
    \<and> kindOf (ResultPool R) (Root R) = Some nk_SourceFile"
proof -
  have "tree_wf (ResultPool R)"
    using parse_claim [OF assms(1,2,4)] meetsD(3) by metis
  with parse_root [OF assms(4)] parse_nodes [OF assms(1,2,4)] assms(3) show ?thesis by simp
qed

theorem parse_tree_witness:
  "\<exists>R I'. parse (newTokenStream (lex ''fn f( {'') ''fn f( {'') newInterner = Some (R, I')
     \<and> kindOf (ResultPool R) (Root R) = Some nk_SourceFile"
proof -
  let ?B = "''fn f( {''"
  note src = source_stream [of ?B]
  obtain R I' where r: "parse (newTokenStream (lex ?B) ?B) newInterner = Some (R, I')"
    using parseSourceFile_returns src by force
  from parse_tree [OF _ _ _ r] src r show ?thesis by force
qed

text \<open>C21: the tree is small.  A parse makes at most thirteen nodes for each token, and two more;
  so no node index of a stream of up to 330 million tokens wraps around.\<close>

theorem parse_size:
  assumes "stream_wf TS" "Cursor TS = 0" "parse TS I = Some (R, I')"
  shows "length (Nodes (ResultPool R)) \<le> 2 + 13 * length (Tokens TS)"
  by (rule parse_nodes [OF assms])

theorem parse_size_witness:
  "\<exists>R I'. parse (newTokenStream (lex ''+'') ''+'') newInterner = Some (R, I')
     \<and> length (Nodes (ResultPool R)) \<le> 28"
proof -
  note src = source_stream [of "''+''"]
  obtain R I' where r: "parse (newTokenStream (lex ''+'') ''+'') newInterner = Some (R, I')"
    using parseSourceFile_returns src by force
  from parse_size [OF _ _ r] src r show ?thesis by force
qed

text \<open>C13: errors are not lost in the tree.  Every error node but the sentinel is paid for by a
  recorded error, so the tree of a result that is \<open>ok\<close> has none.\<close>

theorem parse_error_nodes:
  assumes "stream_wf TS" "Cursor TS = 0" "parse TS I = Some (R, I')"
  shows "error_nodes (ResultPool R) \<le> 1 + length (ResultErrors R)
    \<and> (ok R \<longrightarrow> (\<forall>i<length (Nodes (ResultPool R)). NKind (Nodes (ResultPool R) ! i) = nk_Error \<longrightarrow> i = 0))"
proof -
  obtain s where s: "meets s (final (remaining TS) (Root R))" "ResultPool R = Pool s"
    "ResultErrors R = Errors s"
    using parse_claim [OF assms] by metis
  from meetsD(10) [OF s(1)] have e: "error_nodes (ResultPool R) \<le> 1 + length (ResultErrors R)"
    by (simp add: final_def fresh_def s(2,3))
  let ?ns = "Nodes (ResultPool R)"
  let ?E = "{i. i < length ?ns \<and> NKind (?ns ! i) = nk_Error}"
  have z: "0 \<in> ?E" using meetsD(3) [OF s(1)] by (simp add: tree_wf_def s(2))
  have "i = 0" if "ok R" "i \<in> ?E" for i
  proof (rule ccontr)
    assume "i \<noteq> 0"
    then have "card {0, i} \<le> card ?E" using z that(2) by (intro card_mono) auto
    with e \<open>i \<noteq> 0\<close> that(1) show False
      by (simp add: error_nodes_def length_filter_conv_card ok_def)
  qed
  with e show ?thesis by simp
qed

theorem parse_error_nodes_witness:
  "\<exists>R I'. parse (newTokenStream (lex ''+'') ''+'') newInterner = Some (R, I')
     \<and> error_nodes (ResultPool R) \<le> 1 + length (ResultErrors R)"
proof -
  note src = source_stream [of "''+''"]
  obtain R I' where r: "parse (newTokenStream (lex ''+'') ''+'') newInterner = Some (R, I')"
    using parseSourceFile_returns src by force
  from parse_error_nodes [OF _ _ r] src r show ?thesis by force
qed

text \<open>C14: nothing of a file is left unread.  The parser of a source text stops with every token but
  the end of file consumed, the stream otherwise as it was, and struct literals allowed again.\<close>

theorem parse_reaches_end:
  assumes "length B < 4294967295" "TS = newTokenStream (lex B) B"
    "run_state (parseSourceFile (tie (Suc (remaining TS)))) (newParser TS I) = (root, s)"
  shows "Tokens (Stream s) = Tokens TS \<and> length (Tokens TS) \<le> Suc (unat (Cursor (Stream s)))
    \<and> peek 0 (Stream s) = tk_eof \<and> StructLitAllowed s"
proof -
  note r = parseSourceFile_run [OF _ _ assms(3), unfolded assms(2), OF source_stream(1,2) [OF assms(1)]]
  have "next_kind s = tk_eof" "StructLitAllowed s"
    using meetsD(11,6) [OF r(2)] by (simp_all add: final_def fresh_def)
  with final_cursor [OF _ r(1)] assms(1) show ?thesis by (simp add: assms(2))
qed

theorem parse_reaches_end_witness:
  "\<exists>root s. run_state (parseSourceFile (tie (Suc (remaining (newTokenStream (lex '')'') '')'')))))
       (newParser (newTokenStream (lex '')'') '')'') newInterner) = (root, s)
     \<and> peek 0 (Stream s) = tk_eof"
proof -
  let ?TS = "newTokenStream (lex '')'') '')''"
  obtain root s where
    r: "run_state (parseSourceFile (tie (Suc (remaining ?TS)))) (newParser ?TS newInterner) = (root, s)"
    by (metis prod.exhaust)
  have "peek 0 (Stream s) = tk_eof" using parse_reaches_end [OF _ refl r] by simp
  with r show ?thesis by blast
qed

lemma ok_lexed:
  assumes "13 * length B + 15 < 4294967296"
    "parse (newTokenStream (lex B) B) I = Some (R, I')" "ok R"
  shows "LexErrors (newTokenStream (lex B) B) = []"
proof -
  let ?TS = "newTokenStream (lex B) B"
  have B: "length B < 4294967295" "length B < 4294967296" using assms(1) by simp_all
  note src = source_stream [OF B(1)]
  obtain s where s: "frame (newParser ?TS I) s" "meets s (final (remaining ?TS) (Root R))"
    "ResultPool R = Pool s" "ResultErrors R = Errors s"
    using parse_claim [OF src(1,2) assms(2)] by metis
  note m = meetsD [OF s(2)]
  have "size_of s < 4294967296"
    using parse_nodes [OF src(1,2) assms(2)] src(3) assms(1) by (simp add: s(3))
  then have "\<not> lax s" using assms(3) s(4) by (simp add: lax_def ok_def)
  then have d: "\<not> dirty s" using m(9) by (simp add: final_def fresh_def)
  have "next_kind s = tk_eof" using m(11) by (simp add: final_def)
  note c = final_cursor [OF B(2) s(1) this]
  have "TokenKind t \<noteq> tk_unknown" if t: "t \<in> set (Tokens ?TS)" for t
  proof (cases "t \<in> set (butlast (Tokens ?TS))")
    case True
    have "butlast (Tokens ?TS) = take (length (Tokens ?TS) - 1) (Tokens ?TS)"
      by (rule butlast_conv_take)
    with True c have "t \<in> set (take (unat (Cursor (Stream s))) (Tokens (Stream s)))"
      by (metis (no_types) diff_Suc_1 diff_le_mono set_take_subset_set_take subsetD)
    with d show ?thesis by (auto simp: dirty_def)
  next
    case False
    with t show ?thesis by (simp add: source_last [OF B(2)])
  qed
  then show ?thesis
    using collectItems_tokens [of "lex B"] by (auto simp: newTokenStream_def split: prod.splits)
qed

text \<open>C9: a file that parses has no lexer errors.  A token that stands for a lexer error is never
  consumed without a parser error, so the result of a source text with a lexer error is not
  \<open>ok\<close>, whether or not the caller looks at the lexer's own list.\<close>

theorem ok_no_lexer_errors:
  assumes "13 * length B + 15 < 4294967296"
    "parse (newTokenStream (lex B) B) I = Some (R, I')" "ok R"
  shows "LexErrors (newTokenStream (lex B) B) = []"
  by (rule ok_lexed [OF assms])

text \<open>C26: names keep their ids.  An id handed out before the parser ran still has its string
  afterwards, so trees of several files can share one interner.\<close>

theorem parse_keeps_names:
  assumes "stream_wf TS" "Cursor TS = 0" "parse TS I = Some (R, I')" "getStr I j = Some T"
  shows "getStr I' j = Some T"
proof -
  obtain s where "frame (newParser TS I) s" "I' = Interner s"
    using parse_claim [OF assms(1,2,3)] by metis
  with assms(4) show ?thesis by (simp add: frame_def newParser_def)
qed

theorem ok_no_lexer_errors_witness:
  "\<exists>R I'. parse (newTokenStream (lex '''') '''') newInterner = Some (R, I') \<and> ok R
     \<and> LexErrors (newTokenStream (lex '''') '''') = []"
proof -
  have "map_option (\<lambda>(R, _). ok R) (parse (newTokenStream (lex '''') '''') newInterner) = Some True"
    by code_simp
  then obtain R I' where "parse (newTokenStream (lex '''') '''') newInterner = Some (R, I')" "ok R"
    by auto
  with ok_no_lexer_errors [OF _ this] show ?thesis by simp
qed

theorem parse_keeps_names_witness:
  "\<exists>R I'. parse (newTokenStream (lex ''x'') ''x'') (snd (intern ''y'' newInterner)) = Some (R, I')
     \<and> getStr I' 1 = Some ''y''"
proof -
  let ?I = "snd (intern ''y'' newInterner)"
  note src = source_stream [of "''x''"]
  obtain R I' where r: "parse (newTokenStream (lex ''x'') ''x'') ?I = Some (R, I')"
    using parseSourceFile_returns src by force
  have "getStr ?I 1 = Some ''y''" by code_simp
  from parse_keeps_names [OF _ _ r this] src r show ?thesis by force
qed

end
