(* ===== verification/ParserExec.thy ===== *)
theory ParserExec
  imports Parser
begin

text \<open>
  A second logic of the parser, for runs in which nothing goes wrong: a \<open>sight\<close> fixes the tokens
  ahead with their texts, the diagnostics so far, and what is known of the pool and the interner.
  \<open>does m Q k\<close> says that from every state that \<open>sees\<close> \<open>k\<close> the computation \<open>m\<close> ends in a state
  that sees some \<open>h\<close> with \<open>Q r h\<close>.  The rules compute the result from the tokens ahead, so that
  a printed phrase can be followed through the productions that read it.
\<close>

named_theorems exec \<open>introduction rules for does\<close>

section \<open>Sights\<close>

datatype fact =
    Is_node node_index node_kind "node_index list" u32
  | Is_name u32 string

record sight =
  Txt :: string
  Brace :: bool
  Diags :: "phase_diagnostic list"
  Units :: nat
  Ahead :: "(kind \<times> string) list"
  Facts :: "fact set"

definition span_text :: "string \<Rightarrow> span \<Rightarrow> string" where
  "span_text Src S = substr Src (unat (Start S)) (unat (End S - Start S))"

definition ahead :: "token_stream \<Rightarrow> (kind \<times> string) list" where
  "ahead TS = map (\<lambda>t. (TokenKind t, span_text (Source TS) (TokenSpan t))) (rest TS)"

definition front :: "(kind \<times> string) list \<Rightarrow> kind" where
  "front v = (case v of [] \<Rightarrow> tk_eof | (K, x) # _ \<Rightarrow> K)"

lemma front_simps [simp]: "front [] = tk_eof" "front ((K, x) # v) = K"
  by (simp_all add: front_def)

primrec true_in :: "parser_state \<Rightarrow> fact \<Rightarrow> bool" where
  "true_in s (Is_node i K ks p) \<longleftrightarrow> unat i < length (view (Pool s))
     \<and> (case view (Pool s) ! unat i of (K', _, ks', p', _) \<Rightarrow> K' = K \<and> ks' = ks \<and> p' = p)"
| "true_in s (Is_name N x) \<longleftrightarrow> getStr (Interner s) N = Some x \<and> unat N < 1073741824"

text \<open>
  Every token ahead pays for eight more names, nodes or children, and \<open>Units\<close> others are spare; so
  no index, id or payload wraps around.
\<close>

definition weight :: "parser_state \<Rightarrow> nat" where
  "weight s = length (Strings (Interner s)) + length (Nodes (Pool s)) + length (Children (Pool s))"

definition sees :: "parser_state \<Rightarrow> sight \<Rightarrow> bool" where
  "sees s k \<longleftrightarrow> stream_wf (Stream s) \<and> pool_wf (Pool s) \<and> interner_wf (Interner s) \<and> \<not> Stuck s
     \<and> Source (Stream s) = Txt k \<and> StructLitAllowed s = Brace k \<and> Errors s = Diags k
     \<and> ahead (Stream s) = Ahead k
     \<and> weight s + Units k + 8 * length (Ahead k) \<le> 1073741824
     \<and> (\<forall>x\<in>Facts k. true_in s x)"

lemma seesD:
  assumes "sees s k"
  shows "stream_wf (Stream s)" "pool_wf (Pool s)" "interner_wf (Interner s)" "\<not> Stuck s"
    "Source (Stream s) = Txt k" "StructLitAllowed s = Brace k" "Errors s = Diags k"
    "ahead (Stream s) = Ahead k" "weight s + Units k + 8 * length (Ahead k) \<le> 1073741824"
    "\<forall>x\<in>Facts k. true_in s x"
  using assms unfolding sees_def by blast+

lemma seesI:
  assumes "stream_wf (Stream s)" "pool_wf (Pool s)" "interner_wf (Interner s)" "\<not> Stuck s"
    "Source (Stream s) = Txt k" "StructLitAllowed s = Brace k" "Errors s = Diags k"
    "ahead (Stream s) = Ahead k" "weight s + Units k + 8 * length (Ahead k) \<le> 1073741824"
    "\<forall>x\<in>Facts k. true_in s x"
  shows "sees s k"
  using assms unfolding sees_def by blast

lemma length_ahead: "length (ahead TS) = remaining TS"
  by (simp add: ahead_def)

lemma textOf_span: "textOf TS S = span_text (Source TS) S"
  by (simp add: textOf_def span_text_def)

section \<open>The logic\<close>

definition does :: "'a parser \<Rightarrow> ('a \<Rightarrow> sight \<Rightarrow> bool) \<Rightarrow> sight \<Rightarrow> bool" where
  "does m Q k \<longleftrightarrow> (\<forall>s r s'. sees s k \<longrightarrow> run_state m s = (r, s') \<longrightarrow> (\<exists>h. Q r h \<and> sees s' h))"

lemma does_I:
  "(\<And>s r s'. sees s k \<Longrightarrow> run_state m s = (r, s') \<Longrightarrow> \<exists>h. Q r h \<and> sees s' h) \<Longrightarrow> does m Q k"
  by (simp add: does_def)

lemma does_D:
  assumes "does m Q k" "sees s k" "run_state m s = (r, s')"
  obtains h where "Q r h" "sees s' h"
  using assms unfolding does_def by blast

lemma does_return [exec]: "Q x k \<Longrightarrow> does (State_Monad.return x) Q k"
  by (rule does_I) (auto simp: State_Monad.return_def)

lemma does_bind [exec]:
  assumes "does m (\<lambda>r. does (f r) Q) k"
  shows "does (State_Monad.bind m f) Q k"
proof (rule does_I)
  fix s r s' assume s: "sees s k" "run_state (State_Monad.bind m f) s = (r, s')"
  obtain x t where 1: "run_state m s = (x, t)" by (metis prod.exhaust)
  with s(2) have 2: "run_state (f x) t = (r, s')" by (simp add: State_Monad.bind_def)
  obtain h where h: "does (f x) Q h" "sees t h" by (rule does_D [OF assms s(1) 1])
  from does_D [OF h 2] show "\<exists>h. Q r h \<and> sees s' h" by blast
qed

lemma does_if [exec]:
  "\<lbrakk>b \<Longrightarrow> does m Q k; \<not> b \<Longrightarrow> does m' Q k\<rbrakk> \<Longrightarrow> does (if b then m else m') Q k"
  by simp

lemma does_prod [exec]: "(\<And>x y. p = (x, y) \<Longrightarrow> does (f x y) Q k) \<Longrightarrow> does (case p of (x, y) \<Rightarrow> f x y) Q k"
  by (cases p) simp

lemma does_mono: "\<lbrakk>does m Q k; \<And>r h. Q r h \<Longrightarrow> Q' r h\<rbrakk> \<Longrightarrow> does m Q' k"
  unfolding does_def by blast

lemma does_gets:
  assumes "\<And>s. sees s k \<Longrightarrow> Q (f s) k"
  shows "does (gets f) Q k"
  by (rule does_I) (use assms in \<open>auto simp: gets_def\<close>)

section \<open>Tokens\<close>

lemma ahead_cases:
  assumes "ahead TS = (K, x) # v"
  obtains t where "rest TS = t # tl (rest TS)" "TokenKind t = K"
    "span_text (Source TS) (TokenSpan t) = x"
    "map (\<lambda>t. (TokenKind t, span_text (Source TS) (TokenSpan t))) (tl (rest TS)) = v"
  using assms by (cases "rest TS") (auto simp: ahead_def)

lemma peek_front: "stream_wf TS \<Longrightarrow> peek 0 TS = front (ahead TS)"
  by (auto simp: peek_0 front_def ahead_def split: list.splits)

lemma does_peek [exec]: "Q (front (Ahead k)) k \<Longrightarrow> does (pPeek 0) Q k"
  unfolding pPeek_def by (rule does_gets) (simp add: peek_front seesD(1,8))

lemma does_check [exec]: "Q (front (Ahead k) = K) k \<Longrightarrow> does (pCheck K) Q k"
  unfolding pCheck_def check_def by (rule does_gets) (simp add: peek_front seesD(1,8))

lemma does_previous [exec]: "(\<And>t. Q t k) \<Longrightarrow> does pPrevious Q k"
  unfolding pPrevious_def by (rule does_gets) blast

lemma does_brace [exec]: "Q (Brace k) k \<Longrightarrow> does (gets StructLitAllowed) Q k"
  by (rule does_gets) (simp add: seesD(6))

lemma does_errorCount [exec]: "Q (length (Diags k)) k \<Longrightarrow> does pErrorCount Q k"
  unfolding pErrorCount_def by (rule does_gets) (simp add: seesD(7))

text \<open>The token at the front of the tokens ahead.\<close>

definition fronts :: "token \<Rightarrow> sight \<Rightarrow> bool" where
  "fronts t k \<longleftrightarrow> TokenKind t = front (Ahead k)
     \<and> span_text (Txt k) (TokenSpan t) = snd (hd (Ahead k))"

lemma does_peekToken [exec]:
  assumes "Ahead k \<noteq> []" "\<And>t. fronts t k \<Longrightarrow> Q t k"
  shows "does pPeekToken Q k"
  unfolding pPeekToken_def
proof (rule does_gets)
  fix s assume s: "sees s k"
  obtain K x v where k: "Ahead k = (K, x) # v" using assms(1) by (cases "Ahead k") auto
  have "ahead (Stream s) = (K, x) # v" using seesD(8) [OF s] k by simp
  from ahead_cases [OF this] obtain t where t: "rest (Stream s) = t # tl (rest (Stream s))"
    "TokenKind t = K" "span_text (Source (Stream s)) (TokenSpan t) = x" .
  have "peekToken 0 (Stream s) = t" unfolding peekToken_0 by (subst t(1)) simp
  moreover have "Q t k" using assms(2) [of t] t(2,3) seesD(5) [OF s] k by (simp add: fronts_def)
  ultimately show "Q (peekToken 0 (Stream s)) k" by simp
qed

definition moved :: "sight \<Rightarrow> sight" where
  "moved k = k \<lparr> Ahead := tl (Ahead k), Units := Units k + 8 \<rparr>"

lemma advance_ahead:
  assumes s: "sees s k" and "Ahead k \<noteq> []"
  obtains t TS where "advance (Stream s) = (t, TS)" "fronts t k"
    "sees (s \<lparr> Stream := TS \<rparr>) (moved k)" "previous TS = t"
proof -
  obtain K x v where k: "Ahead k = (K, x) # v" using assms(2) by (cases "Ahead k") auto
  note d = seesD [OF s]
  from d(8) k have "ahead (Stream s) = (K, x) # v" by simp
  from ahead_cases [OF this] obtain t where t: "rest (Stream s) = t # tl (rest (Stream s))"
    "TokenKind t = K" "span_text (Source (Stream s)) (TokenSpan t) = x"
    "map (\<lambda>t. (TokenKind t, span_text (Source (Stream s)) (TokenSpan t))) (tl (rest (Stream s))) = v" .
  let ?c = "Cursor (Stream s)" and ?TS = "Stream s \<lparr> Cursor := Cursor (Stream s) + 1 \<rparr>"
  have c: "unat ?c < length (Tokens (Stream s))"
    using t(1) by (metis drop_all list.distinct(1) not_le rest_def)
  then have t': "Tokens (Stream s) ! unat ?c = t"
    using t(1) by (simp add: rest_def) (metis Cons_nth_drop_Suc list.inject)
  have adv: "advance (Stream s) = (t, ?TS)" using c t' by (simp add: advance_def)
  have c1: "unat (?c + 1) = Suc (unat ?c)"
    using c d(1) by (simp add: stream_wf_def unat_Suc32)
  then have "?c + 1 \<noteq> 0" by (metis nat.distinct(1) unat_0)
  then have prev: "previous ?TS = t" using t' by (simp add: previous_def)
  have "rest ?TS = tl (rest (Stream s))" using advance_rest [OF d(1)] adv by simp
  then have "ahead ?TS = v" using t(4) by (simp add: ahead_def)
  moreover have "stream_wf ?TS" using advance_wf [OF d(1)] adv by simp
  moreover have "true_in (s \<lparr> Stream := ?TS \<rparr>) f = true_in s f" for f by (cases f) simp_all
  ultimately have "sees (s \<lparr> Stream := ?TS \<rparr>) (moved k)"
    by (intro seesI) (use d k in \<open>simp_all add: moved_def weight_def\<close>)
  with that adv t(2,3) d(5) prev k show thesis by (simp add: fronts_def)
qed

lemma does_advance [exec]:
  assumes "Ahead k \<noteq> []" "\<And>t. fronts t k \<Longrightarrow> Q t (moved k)"
  shows "does pAdvance Q k"
proof (rule does_I)
  fix s r s' assume s: "sees s k" "run_state pAdvance s = (r, s')"
  from advance_ahead [OF s(1) assms(1)] obtain t TS where
    "advance (Stream s) = (t, TS)" "fronts t k" "sees (s \<lparr> Stream := TS \<rparr>) (moved k)" .
  with s(2) assms(2) show "\<exists>h. Q r h \<and> sees s' h" by (auto simp: pAdvance_def)
qed

lemma does_consume [exec]:
  assumes "Ahead k \<noteq> []" "front (Ahead k) = K \<Longrightarrow> Q True (moved k)" "front (Ahead k) \<noteq> K \<Longrightarrow> Q False k"
  shows "does (pConsume K) Q k"
proof (rule does_I)
  fix s r s' assume s: "sees s k" "run_state (pConsume K) s = (r, s')"
  have p: "peek 0 (Stream s) = front (Ahead k)" using peek_front seesD(1,8) [OF s(1)] by simp
  from advance_ahead [OF s(1) assms(1)] obtain t TS where
    "advance (Stream s) = (t, TS)" "sees (s \<lparr> Stream := TS \<rparr>) (moved k)" .
  with s p assms(2,3) show "\<exists>h. Q r h \<and> sees s' h"
    by (cases "front (Ahead k) = K") (auto simp: pConsume_def consume_def check_def)
qed

lemma does_expectIn [exec]:
  assumes "Ahead k \<noteq> []" "front (Ahead k) = K" "\<And>t. fronts t k \<Longrightarrow> Q t (moved k)"
  shows "does (expectIn K D C) Q k"
proof (rule does_I)
  fix s r s' assume s: "sees s k" "run_state (expectIn K D C) s = (r, s')"
  have p: "peek 0 (Stream s) = K" using peek_front seesD(1,8) [OF s(1)] assms(2) by simp
  from advance_ahead [OF s(1) assms(1)] obtain t TS where a:
    "advance (Stream s) = (t, TS)" "fronts t k" "sees (s \<lparr> Stream := TS \<rparr>) (moved k)"
    "previous TS = t" .
  with s p have "r = t" "s' = s \<lparr> Stream := TS \<rparr>"
    by (auto simp: expectIn_def pConsume_def consume_def check_def State_Monad.bind_def
        pPrevious_def gets_def)
  with assms(3) a show "\<exists>h. Q r h \<and> sees s' h" by auto
qed

lemma does_expect [exec]:
  "\<lbrakk>Ahead k \<noteq> []; front (Ahead k) = K; \<And>t. fronts t k \<Longrightarrow> Q t (moved k)\<rbrakk> \<Longrightarrow> does (expect K D) Q k"
  unfolding expect_def by (rule does_expectIn)

lemma does_textOf [exec]: "Q (span_text (Txt k) S) k \<Longrightarrow> does (pTextOf S) Q k"
  unfolding pTextOf_def by (rule does_gets) (simp add: textOf_span seesD(5))

section \<open>Names and nodes\<close>

definition named :: "u32 \<Rightarrow> string \<Rightarrow> sight \<Rightarrow> sight" where
  "named N x k = k \<lparr> Units := Units k - 1, Facts := insert (Is_name N x) (Facts k) \<rparr>"

definition noded :: "node_index \<Rightarrow> node_kind \<Rightarrow> node_index list \<Rightarrow> u32 \<Rightarrow> sight \<Rightarrow> sight" where
  "noded i K ks p k = k \<lparr> Units := Units k - Suc (length ks),
     Facts := insert (Is_node i K ks p) (Facts k) \<rparr>"

lemma intern_seen:
  assumes s: "sees s k" and u: "0 < Units k" and run: "intern x (Interner s) = (N, I)"
  shows "sees (s \<lparr> Interner := I \<rparr>) (named N x k) \<and> N \<le> 0x3FFFFFFF"
proof -
  note d = seesD [OF s]
  have l: "length (Strings (Interner s)) < 1073741824" using d(9) u by (simp add: weight_def)
  have wf: "interner_wf I" using intern_wf [OF d(3) _ run] l by simp
  have g: "getStr I N = Some x" using intern_get [OF d(3) _ run] l by simp
  from intern_grows [OF run] obtain ts where ts: "Strings I = Strings (Interner s) @ ts" "length ts \<le> 1" .
  have "unat N < length (Strings I)" using g by (simp add: getStr_def split: if_splits)
  then have N: "unat N < 1073741824" using ts l by simp
  have "true_in (s \<lparr> Interner := I \<rparr>) f" if "true_in s f" for f
    using that intern_stable [OF run] by (cases f) simp_all
  with g N have "sees (s \<lparr> Interner := I \<rparr>) (named N x k)"
    by (intro seesI) (use d wf u ts in \<open>auto simp: named_def weight_def\<close>)
  with N show ?thesis by (simp add: word_le_nat_alt)
qed

lemma does_internStr [exec]:
  assumes "0 < Units k" "\<And>N. N \<le> 0x3FFFFFFF \<Longrightarrow> Q N (named N x k)"
  shows "does (internStr x) Q k"
  by (rule does_I) (use assms intern_seen in \<open>fastforce simp: internStr_def split: prod.splits\<close>)

lemma does_internText [exec]:
  assumes "0 < Units k" "\<And>N. N \<le> 0x3FFFFFFF \<Longrightarrow> Q N (named N (span_text (Txt k) S) k)"
  shows "does (internText S) Q k"
proof (rule does_I)
  fix s r s' assume s: "sees s k" "run_state (internText S) s = (r, s')"
  have "textOf (Stream s) S = span_text (Txt k) S" using seesD(5) [OF s(1)] by (simp add: textOf_span)
  with s(2) have "intern (span_text (Txt k) S) (Interner s) = (r, Interner s')"
    "s' = s \<lparr> Interner := Interner s' \<rparr>"
    by (auto simp: internText_def split: prod.splits)
  with intern_seen [OF s(1) assms(1)] assms(2) show "\<exists>h. Q r h \<and> sees s' h" by metis
qed

lemma true_in_alloc:
  assumes "true_in s f" "pool_wf (Pool s)" "room (Pool s) ks" "alloc K S ks p fl (Pool s) = (i, P)"
  shows "true_in (s \<lparr> Pool := P \<rparr>) f"
  using assms(1) alloc_view [OF assms(2-4)] by (cases f) (auto simp: nth_append)

lemma does_alloc [exec]:
  assumes "Suc (length ks) \<le> Units k" "length ks < 65536" "\<And>i. Q i (noded i K ks p k)"
  shows "does (pAlloc K S ks p fl) Q k"
proof (rule does_I)
  fix s i s' assume s: "sees s k" "run_state (pAlloc K S ks p fl) s = (i, s')"
  then obtain P where P: "alloc K S ks p fl (Pool s) = (i, P)" "s' = s \<lparr> Pool := P \<rparr>"
    by (auto simp: pAlloc_def split: prod.splits)
  note d = seesD [OF s(1)]
  have room: "room (Pool s) ks" using d(9) assms(1,2) by (simp add: room_def weight_def)
  note v = alloc_view [OF d(2) room P(1)]
  have wf: "pool_wf P" using alloc_wf [OF d(2), of K S ks p fl] P(1) by simp
  have w: "weight s' = weight s + Suc (length ks)"
    using P by (auto simp: weight_def alloc_def)
  have "true_in s' f" if "f \<in> Facts k" for f
    using true_in_alloc [OF _ d(2) room P(1)] d(10) that P(2) by simp
  moreover have "true_in s' (Is_node i K ks p)" using v P(2) by (simp add: nth_append)
  ultimately have "sees s' (noded i K ks p k)"
    by (intro seesI) (use d wf w assms(1) in \<open>auto simp: noded_def P(2)\<close>)
  with assms(3) show "\<exists>h. Q i h \<and> sees s' h" by blast
qed

lemma does_allocLeaf [exec]:
  "\<lbrakk>0 < Units k; \<And>i. Q i (noded i K [] p k)\<rbrakk> \<Longrightarrow> does (pAllocLeaf K S p) Q k"
  unfolding pAllocLeaf_def by (rule does_alloc) simp_all

lemma node_seen:
  assumes "sees s k" "Is_node i K ks p \<in> Facts k"
  shows "kindOf (Pool s) i = Some K" "spanOf (Pool s) i \<noteq> None"
    "childrenOf (Pool s) i = Some ks" "map_option NPayload (nodeAt (Pool s) i) = Some p"
proof -
  have "true_in s (Is_node i K ks p)" "pool_wf (Pool s)" using assms by (auto simp: sees_def)
  then show "kindOf (Pool s) i = Some K" "spanOf (Pool s) i \<noteq> None"
    "childrenOf (Pool s) i = Some ks" "map_option NPayload (nodeAt (Pool s) i) = Some p"
    by (auto simp: view_def view_node_def Let_def kindOf_def spanOf_def childrenOf_def nodeAt_def pool_wf_def)
qed

text \<open>Something other than an error is known of an index.\<close>

definition is_good :: "node_index \<Rightarrow> fact set \<Rightarrow> bool" where
  "is_good i F \<longleftrightarrow> (\<exists>K ks p. Is_node i K ks p \<in> F \<and> K \<noteq> nk_Error)"

lemma is_good_insert [simp]:
  "is_good i (insert (Is_node j K ks p) F) \<longleftrightarrow> i = j \<and> K \<noteq> nk_Error \<or> is_good i F"
  "is_good i (insert (Is_name N x) F) \<longleftrightarrow> is_good i F"
  by (auto simp: is_good_def)

lemma does_spanOf [exec]:
  assumes "is_good i (Facts k)" "\<And>S. Q S k"
  shows "does (pSpanOf i) Q k"
proof (rule does_I)
  fix s r s' assume s: "sees s k" "run_state (pSpanOf i) s = (r, s')"
  obtain S where "spanOf (Pool s) i = Some S"
    using node_seen(2) [OF s(1)] assms(1) unfolding is_good_def by blast
  with s(2) have "s' = s" by (simp add: pSpanOf_def)
  with s(1) assms(2) show "\<exists>h. Q r h \<and> sees s' h" by blast
qed

lemma does_kindOf [exec]:
  assumes "is_good i (Facts k)" "\<And>K. K \<noteq> nk_Error \<Longrightarrow> Q K k"
  shows "does (pKindOf i) Q k"
proof (rule does_I)
  fix s r s' assume s: "sees s k" "run_state (pKindOf i) s = (r, s')"
  obtain K where "kindOf (Pool s) i = Some K" "K \<noteq> nk_Error"
    using node_seen(1) [OF s(1)] assms(1) unfolding is_good_def by blast
  with s(2) have "s' = s" "r \<noteq> nk_Error" by (auto simp: pKindOf_def)
  with s(1) assms(2) show "\<exists>h. Q r h \<and> sees s' h" by blast
qed

lemma does_withStructLit [exec]:
  assumes "does m (\<lambda>r h. Q r (h \<lparr> Brace := Brace k \<rparr>)) (k \<lparr> Brace := v \<rparr>)"
  shows "does (withStructLit v m) Q k"
proof (rule does_I)
  fix s r s' assume s: "sees s k" "run_state (withStructLit v m) s = (r, s')"
  obtain t where t: "run_state m (s \<lparr> StructLitAllowed := v \<rparr>) = (r, t)"
    "s' = t \<lparr> StructLitAllowed := StructLitAllowed s \<rparr>"
    using s(2) by (auto simp: withStructLit_def gets_def modify_def State_Monad.bind_def
        State_Monad.return_def split: prod.splits)
  have f: "true_in (u \<lparr> StructLitAllowed := b \<rparr>) x = true_in u x" for u b x by (cases x) simp_all
  have "sees (s \<lparr> StructLitAllowed := v \<rparr>) (k \<lparr> Brace := v \<rparr>)"
    using s(1) by (simp add: sees_def weight_def f)
  from does_D [OF assms this t(1)] obtain h where
    h: "Q r (h \<lparr> Brace := Brace k \<rparr>)" "sees t h" by blast
  have "sees s' (h \<lparr> Brace := Brace k \<rparr>)"
    using h(2) seesD(6) [OF s(1)] by (simp add: t(2) sees_def weight_def f)
  with h(1) show "\<exists>h. Q r h \<and> sees s' h" by blast
qed

section \<open>Loops\<close>

text \<open>\<open>laps body x Q k\<close>: the loop goes on with \<open>x\<close>, whatever fuel above the tokens ahead it has.\<close>

definition laps :: "('a \<Rightarrow> (bool \<times> 'a) parser) \<Rightarrow> 'a \<Rightarrow> ('a \<Rightarrow> sight \<Rightarrow> bool) \<Rightarrow> sight \<Rightarrow> bool" where
  "laps body x Q k \<longleftrightarrow> (\<forall>n. length (Ahead k) < n \<longrightarrow> does (loopN n body x) Q k)"

lemma does_loopP: "laps body x Q k \<Longrightarrow> does (loopP body x) Q k"
proof (rule does_I)
  fix s r s' assume l: "laps body x Q k" and s: "sees s k" "run_state (loopP body x) s = (r, s')"
  have "run_state (loopN (Suc (length (Ahead k))) body x) s = (r, s')"
    using s(2) seesD(8) [OF s(1)] length_ahead [of "Stream s"]
    by (simp add: loopP_def gets_def State_Monad.bind_def del: loopN.simps)
  with l s(1) does_D [of "loopN (Suc (length (Ahead k))) body x" Q k]
  show "\<exists>h. Q r h \<and> sees s' h" unfolding laps_def by blast
qed

definition lap :: "('a \<Rightarrow> (bool \<times> 'a) parser) \<Rightarrow> ('a \<Rightarrow> sight \<Rightarrow> bool) \<Rightarrow> nat \<Rightarrow> bool \<times> 'a \<Rightarrow> sight \<Rightarrow> bool" where
  "lap body Q n p h \<longleftrightarrow> (if fst p then length (Ahead h) < n \<and> laps body (snd p) Q h else Q (snd p) h)"

lemma laps_step:
  assumes "does (body x) (lap body Q (length (Ahead k))) k"
  shows "laps body x Q k"
  unfolding laps_def
proof (intro allI impI)
  fix n assume "length (Ahead k) < n"
  then obtain n' where n: "n = Suc n'" "length (Ahead k) \<le> n'" by (cases n) simp_all
  have "does (case p of (again, y) \<Rightarrow> if again then loopN n' body y else done_with y) Q h"
    if "lap body Q (length (Ahead k)) p h" for p h
    using that n(2) by (cases p) (auto simp: lap_def laps_def intro: does_return)
  with assms show "does (loopN n body x) Q k"
    unfolding n(1) loopN.simps by (intro does_bind) (rule does_mono)
qed

text \<open>A loop that goes round once for every element of a list.\<close>

lemma laps_list:
  assumes "\<And>x xs y k. P (x # xs) y k \<Longrightarrow>
      does (body y) (\<lambda>p h. fst p \<and> length (Ahead h) < length (Ahead k) \<and> P xs (snd p) h) k"
    "\<And>y k. P [] y k \<Longrightarrow> does (body y) (\<lambda>p h. \<not> fst p \<and> Q (snd p) h) k"
  shows "P xs y k \<Longrightarrow> laps body y Q k"
proof (induction xs arbitrary: y k)
  case Nil
  then show ?case by (intro laps_step does_mono [OF assms(2)]) (simp_all add: lap_def)
next
  case (Cons x xs)
  show ?case by (rule laps_step, rule does_mono [OF assms(1) [OF Cons.prems]])
      (simp add: lap_def Cons.IH)
qed

lemmas exec_simps = moved_def named_def noded_def fronts_def Let_def

end
