(* ===== verification/ExprSyntax.thy ===== *)
theory ExprSyntax
  imports Parser
begin

text \<open>
  The concrete syntax of expressions, as far as the round trip of the parser covers it: how they
  are printed, when they need no more parentheses than they have by the documented precedences,
  and which trees they stand for.
\<close>

section \<open>Expressions and their tokens\<close>

datatype expr =
    EName string
  | ELit kind string
  | EParen expr
  | ETuple "expr list"
  | EArray "expr list"
  | ERepeat expr expr
  | EUnary kind expr
  | EThrough expr expr
  | EBinary kind expr expr
  | ECall expr "expr list"
  | EIndex expr "expr list"
  | EField expr string
  | EElem expr string
  | ETry expr
  | ECast expr string

text \<open>A token of a kind with one spelling, and a list with commas in between.\<close>

definition sym :: "kind \<Rightarrow> kind \<times> string" where
  "sym K = (K, getTokenName K)"

fun commas :: "(kind \<times> string) list list \<Rightarrow> (kind \<times> string) list" where
  "commas [] = []"
| "commas [x] = x"
| "commas (x # y # xs) = x @ sym tk_comma # commas (y # xs)"

text \<open>The tuple of one expression has a comma after it.\<close>

primrec show_expr :: "expr \<Rightarrow> (kind \<times> string) list" where
  "show_expr (EName x) = [(tk_identifier, x)]"
| "show_expr (ELit K x) = [(K, x)]"
| "show_expr (EParen e) = sym tk_l_paren # show_expr e @ [sym tk_r_paren]"
| "show_expr (ETuple es) = sym tk_l_paren # commas (map show_expr es)
     @ (if length es = 1 then [sym tk_comma] else []) @ [sym tk_r_paren]"
| "show_expr (EArray es) = sym tk_l_square # commas (map show_expr es) @ [sym tk_r_square]"
| "show_expr (ERepeat e n) =
     sym tk_l_square # show_expr e @ sym tk_semi # show_expr n @ [sym tk_r_square]"
| "show_expr (EUnary U e) = sym U # show_expr e"
| "show_expr (EThrough e r) = sym tk_star # show_expr e @ sym tk_eq # show_expr r"
| "show_expr (EBinary B l r) = show_expr l @ sym B # show_expr r"
| "show_expr (ECall f es) =
     show_expr f @ sym tk_l_paren # commas (map show_expr es) @ [sym tk_r_paren]"
| "show_expr (EIndex f es) =
     show_expr f @ sym tk_l_square # commas (map show_expr es) @ [sym tk_r_square]"
| "show_expr (EField e x) = show_expr e @ [sym tk_dot, (tk_identifier, x)]"
| "show_expr (EElem e x) = show_expr e @ [sym tk_dot, (tk_integer_literal, x)]"
| "show_expr (ETry e) = show_expr e @ [sym tk_question]"
| "show_expr (ECast e x) = show_expr e @ [sym kw_as, (tk_identifier, x)]"

section \<open>Precedence\<close>

text \<open>
  The table of precedences in the comment on \<^verbatim>\<open>infixBindingPower\<close> in \<^verbatim>\<open>Parser.h\<close>, line by line:
  operators of a later line bind tighter, those of one line equally, and group to the right when
  the flag is set, to the left otherwise.  The prefix operators bind tighter than all of them.
\<close>

definition precedences :: "(kind list \<times> bool) list" where
  "precedences =
    [([tk_eq, tk_plus_eq, tk_minus_eq, tk_star_eq, tk_slash_eq, tk_percent_eq, tk_amp_eq, tk_pipe_eq,
       tk_caret_eq, tk_less_less_eq, tk_greater_greater_eq], True),
     ([tk_pipe_pipe], False),
     ([tk_amp_amp], False),
     ([tk_eq_eq, tk_bang_eq, tk_less, tk_greater, tk_less_eq, tk_greater_eq], False),
     ([tk_pipe], False),
     ([tk_caret], False),
     ([tk_amp], False),
     ([tk_less_less, tk_greater_greater], False),
     ([tk_plus, tk_minus], False),
     ([tk_star, tk_slash, tk_percent], False)]"

fun line_of :: "nat \<Rightarrow> (kind list \<times> bool) list \<Rightarrow> kind \<Rightarrow> (nat \<times> bool) option" where
  "line_of n [] K = None"
| "line_of n ((Ks, right) # ls) K = (if K \<in> set Ks then Some (n, right) else line_of (Suc n) ls K)"

text \<open>The line of an operator, counted from 1, and the loosest lines that its right operand and the
  operand of a prefix operator can have.\<close>

definition level :: "kind \<Rightarrow> (nat \<times> bool) option" where
  "level = line_of 1 precedences"

definition right_operand :: "nat \<Rightarrow> bool \<Rightarrow> nat" where
  "right_operand n right = (if right then n else Suc n)"

definition prefix_operand :: nat where
  "prefix_operand = Suc (length precedences)"

section \<open>Parentheses\<close>

text \<open>
  \<open>ends c K\<close>: an expression whose operators may be as loose as line \<open>c\<close> ends before a token of
  kind \<open>K\<close>.  \<open>fits e c K\<close>: where operators as loose as line \<open>c\<close> may stand, and with a token of kind
  \<open>K\<close> behind it, \<open>e\<close> needs no more parentheses than it has.
\<close>

definition ends :: "nat \<Rightarrow> kind \<Rightarrow> bool" where
  "ends c K \<longleftrightarrow> (case level K of None \<Rightarrow> True | Some (n, _) \<Rightarrow> n < c)
     \<and> K \<notin> {tk_l_paren, tk_dot, tk_l_square, tk_question, kw_as}"

primrec fits :: "expr \<Rightarrow> nat \<Rightarrow> kind \<Rightarrow> bool" where
  "fits (EName x) c K \<longleftrightarrow> K \<noteq> tk_colon_colon \<and> K \<noteq> tk_l_brace"
| "fits (ELit L x) c K \<longleftrightarrow> L \<in> set literalKinds"
| "fits (EParen e) c K \<longleftrightarrow> fits e 0 tk_r_paren"
| "fits (ETuple es) c K \<longleftrightarrow> length es < 65536
     \<and> list_all (\<lambda>e. fits e 0 tk_comma \<and> fits e 0 tk_r_paren) es"
| "fits (EArray es) c K \<longleftrightarrow> length es < 65536
     \<and> list_all (\<lambda>e. fits e 0 tk_comma \<and> fits e 0 tk_r_square) es"
| "fits (ERepeat e n) c K \<longleftrightarrow> fits e 0 tk_semi \<and> fits n 0 tk_r_square"
| "fits (EUnary U e) c K \<longleftrightarrow> U \<in> {tk_bang, tk_minus, tk_amp, tk_star} \<and> fits e prefix_operand K
     \<and> ends prefix_operand K \<and> (U = tk_star \<longrightarrow> K \<noteq> tk_eq)"
| "fits (EThrough e r) c K \<longleftrightarrow> fits e prefix_operand tk_eq \<and> fits r 0 K \<and> ends 0 K"
| "fits (EBinary B l r) c K \<longleftrightarrow> (case level B of None \<Rightarrow> False | Some (n, right) \<Rightarrow> c \<le> n
     \<and> fits l c B \<and> fits r (right_operand n right) K \<and> ends (right_operand n right) K)"
| "fits (ECall f es) c K \<longleftrightarrow> fits f c tk_l_paren \<and> length es < 65536
     \<and> list_all (\<lambda>e. fits e 0 tk_comma \<and> fits e 0 tk_r_paren) es"
| "fits (EIndex f es) c K \<longleftrightarrow> fits f c tk_l_square \<and> es \<noteq> [] \<and> length es < 65535
     \<and> list_all (\<lambda>e. fits e 0 tk_comma \<and> fits e 0 tk_r_square) es"
| "fits (EField e x) c K \<longleftrightarrow> fits e c tk_dot"
| "fits (EElem e x) c K \<longleftrightarrow> fits e c tk_dot"
| "fits (ETry e) c K \<longleftrightarrow> fits e c tk_question"
| "fits (ECast e x) c K \<longleftrightarrow> fits e c kw_as \<and> K \<noteq> tk_colon_colon"

section \<open>Trees\<close>

text \<open>
  The tree at an index, where \<open>node i K ks p\<close> says what node \<open>i\<close> is and \<open>name N x\<close> that \<open>N\<close> is
  the id of \<open>x\<close>.  Parentheses leave no node.
\<close>

inductive tree :: "(node_index \<Rightarrow> node_kind \<Rightarrow> node_index list \<Rightarrow> u32 \<Rightarrow> bool)
    \<Rightarrow> (u32 \<Rightarrow> string \<Rightarrow> bool) \<Rightarrow> node_index \<Rightarrow> expr \<Rightarrow> bool"
  for node :: "node_index \<Rightarrow> node_kind \<Rightarrow> node_index list \<Rightarrow> u32 \<Rightarrow> bool"
    and name :: "u32 \<Rightarrow> string \<Rightarrow> bool" where
  Name: "\<lbrakk>node i nk_IdentExpr [] N; name N x\<rbrakk> \<Longrightarrow> tree node name i (EName x)"
| Lit: "\<lbrakk>node i nk_LitExpr [] p; name (payloadStr p) x\<rbrakk> \<Longrightarrow> tree node name i (ELit K x)"
| Paren: "tree node name i e \<Longrightarrow> tree node name i (EParen e)"
| Tuple: "\<lbrakk>node i nk_TupleExpr ks 0; list_all2 (tree node name) ks es\<rbrakk>
    \<Longrightarrow> tree node name i (ETuple es)"
| Array: "\<lbrakk>node i nk_ArrayLitExpr ks 0; list_all2 (tree node name) ks es\<rbrakk>
    \<Longrightarrow> tree node name i (EArray es)"
| Repeat: "\<lbrakk>node i nk_ArrayRepeatExpr [a, b] 0; tree node name a e; tree node name b n\<rbrakk>
    \<Longrightarrow> tree node name i (ERepeat e n)"
| Unary: "\<lbrakk>node i nk_UnaryExpr [a] (opPayload U); tree node name a e\<rbrakk>
    \<Longrightarrow> tree node name i (EUnary U e)"
| Through: "\<lbrakk>node i nk_ProjAssignExpr [a, b] 0; tree node name a e; tree node name b r\<rbrakk>
    \<Longrightarrow> tree node name i (EThrough e r)"
| Binary: "\<lbrakk>node i nk_BinaryExpr [a, b] (opPayload B); tree node name a l; tree node name b r\<rbrakk>
    \<Longrightarrow> tree node name i (EBinary B l r)"
| Call: "\<lbrakk>node i nk_CallExpr [a, b] 0; node b nk_ArgList ks 0; tree node name a f;
      list_all2 (tree node name) ks es\<rbrakk> \<Longrightarrow> tree node name i (ECall f es)"
| Index: "\<lbrakk>node i nk_IndexExpr [a, b] 0; tree node name a f; tree node name b e\<rbrakk>
    \<Longrightarrow> tree node name i (EIndex f [e])"
| Indices: "\<lbrakk>node i nk_TensorIndexExpr (a # ks) 0; tree node name a f; 2 \<le> length es;
      list_all2 (tree node name) ks es\<rbrakk> \<Longrightarrow> tree node name i (EIndex f es)"
| Field: "\<lbrakk>node i nk_FieldExpr [a] p; name (payloadStr p) x; tree node name a e\<rbrakk>
    \<Longrightarrow> tree node name i (EField e x)"
| Elem: "\<lbrakk>node i nk_TupleIndexExpr [a] N; name N x; tree node name a e\<rbrakk>
    \<Longrightarrow> tree node name i (EElem e x)"
| Try: "\<lbrakk>node i nk_PropagateExpr [a] 0; tree node name a e\<rbrakk> \<Longrightarrow> tree node name i (ETry e)"
| Cast: "\<lbrakk>node i nk_CastExpr [a, b] 0; node b nk_NamedType [] N; name N x; tree node name a e\<rbrakk>
    \<Longrightarrow> tree node name i (ECast e x)"

lemma tree_mono:
  assumes "tree node name i e" "\<And>i K ks p. node i K ks p \<Longrightarrow> node' i K ks p"
    "\<And>N x. name N x \<Longrightarrow> name' N x"
  shows "tree node' name' i e"
  using assms(1)
  by induction (auto intro: tree.intros assms(2,3) elim!: list_all2_mono)

lemma tree_node:
  "tree node name i e \<Longrightarrow> \<exists>K ks p. node i K ks p \<and> K \<noteq> nk_Error"
  by (induction rule: tree.induct) auto

text \<open>The tree that the pool and the interner hold.\<close>

definition represents :: "node_pool \<Rightarrow> interner \<Rightarrow> node_index \<Rightarrow> expr \<Rightarrow> bool" where
  "represents P I = tree
     (\<lambda>i K ks p. kindOf P i = Some K \<and> childrenOf P i = Some ks
        \<and> map_option NPayload (nodeAt P i) = Some p)
     (\<lambda>N x. getStr I N = Some x)"

end
