(* ===== verification/ExprRound.thy ===== *)
theory ExprRound
  imports ParserExec ExprSyntax
begin

text \<open>
  The parser reads back every printed expression.  The loop over binding powers is followed with
  \<open>goes_on\<close>: what is left to do once the tokens of an operand have been read.
\<close>

section \<open>Binding powers\<close>

text \<open>
  What the parser goes by: \<open>stops m K\<close> says that an expression read with the least binding power
  \<open>m\<close> ends before a token of kind \<open>K\<close>, \<open>groups e m K\<close> that, read with \<open>m\<close> and with a token of kind
  \<open>K\<close> behind it, the tokens of \<open>e\<close> group the way \<open>e\<close> does.
\<close>

definition stops :: "int \<Rightarrow> kind \<Rightarrow> bool" where
  "stops m K \<longleftrightarrow> fst (infixBindingPower K) < m
     \<and> K \<notin> {tk_l_paren, tk_dot, tk_l_square, tk_question, kw_as}"

primrec groups :: "expr \<Rightarrow> int \<Rightarrow> kind \<Rightarrow> bool" where
  "groups (EName x) m K \<longleftrightarrow> K \<noteq> tk_colon_colon \<and> K \<noteq> tk_l_brace"
| "groups (ELit L x) m K \<longleftrightarrow> L \<in> set literalKinds"
| "groups (EParen e) m K \<longleftrightarrow> groups e 0 tk_r_paren"
| "groups (ETuple es) m K \<longleftrightarrow> length es < 65536
     \<and> list_all (\<lambda>e. groups e 0 tk_comma \<and> groups e 0 tk_r_paren) es"
| "groups (EArray es) m K \<longleftrightarrow> length es < 65536
     \<and> list_all (\<lambda>e. groups e 0 tk_comma \<and> groups e 0 tk_r_square) es"
| "groups (ERepeat e n) m K \<longleftrightarrow> groups e 0 tk_semi \<and> groups n 0 tk_r_square"
| "groups (EUnary U e) m K \<longleftrightarrow> U \<in> {tk_bang, tk_minus, tk_amp, tk_star} \<and> groups e 110 K \<and> stops 110 K
     \<and> (U = tk_star \<longrightarrow> K \<noteq> tk_eq)"
| "groups (EThrough e r) m K \<longleftrightarrow> groups e 110 tk_eq \<and> groups r 0 K \<and> stops 0 K"
| "groups (EBinary B l r) m K \<longleftrightarrow> m \<le> fst (infixBindingPower B) \<and> 0 \<le> fst (infixBindingPower B)
     \<and> groups l m B \<and> groups r (snd (infixBindingPower B)) K \<and> stops (snd (infixBindingPower B)) K"
| "groups (ECall f es) m K \<longleftrightarrow> groups f m tk_l_paren \<and> length es < 65536
     \<and> list_all (\<lambda>e. groups e 0 tk_comma \<and> groups e 0 tk_r_paren) es"
| "groups (EIndex f es) m K \<longleftrightarrow> groups f m tk_l_square \<and> es \<noteq> [] \<and> length es < 65535
     \<and> list_all (\<lambda>e. groups e 0 tk_comma \<and> groups e 0 tk_r_square) es"
| "groups (EField e x) m K \<longleftrightarrow> groups e m tk_dot"
| "groups (EElem e x) m K \<longleftrightarrow> groups e m tk_dot"
| "groups (ETry e) m K \<longleftrightarrow> groups e m tk_question"
| "groups (ECast e x) m K \<longleftrightarrow> groups e m kw_as \<and> K \<noteq> tk_colon_colon"

text \<open>The binding powers agree with the precedences: \<open>m\<close> lets pass what line \<open>c\<close> lets pass.\<close>

definition power_of :: "nat \<Rightarrow> int \<Rightarrow> bool" where
  "power_of c m \<longleftrightarrow> (\<forall>K. fst (infixBindingPower K) < m \<longleftrightarrow> (case level K of None \<Rightarrow> True | Some (n, _) \<Rightarrow> n < c))"

lemma level_eq:
  "level K =
     (if K \<in> set assignKinds then Some (1, True)
      else if K = tk_pipe_pipe then Some (2, False)
      else if K = tk_amp_amp then Some (3, False)
      else if K \<in> set compareKinds then Some (4, False)
      else if K = tk_pipe then Some (5, False)
      else if K = tk_caret then Some (6, False)
      else if K = tk_amp then Some (7, False)
      else if K = tk_less_less \<or> K = tk_greater_greater then Some (8, False)
      else if K = tk_plus \<or> K = tk_minus then Some (9, False)
      else if K = tk_star \<or> K = tk_slash \<or> K = tk_percent then Some (10, False)
      else None)"
  by (simp add: level_def precedences_def assignKinds_def compareKinds_def)

lemma power_of_0: "power_of 0 0"
  by (simp add: power_of_def infixBindingPower_def level_eq)

lemma power_of_prefix: "power_of prefix_operand 110"
  by (simp add: power_of_def infixBindingPower_def level_eq prefix_operand_def precedences_def)

lemma level_operator:
  assumes "level B = Some (n, right)"
  shows "power_of (right_operand n right) (snd (infixBindingPower B))" "0 \<le> fst (infixBindingPower B)"
proof -
  have *: "power_of 1 9" "power_of 3 21" "power_of 4 31" "power_of 5 41" "power_of 6 51" "power_of 7 61"
    "power_of 8 71" "power_of 9 81" "power_of 10 91" "power_of 11 101"
    by (simp_all add: power_of_def infixBindingPower_def level_eq)
  with assms show "power_of (right_operand n right) (snd (infixBindingPower B))" "0 \<le> fst (infixBindingPower B)"
    by (auto simp: level_eq infixBindingPower_def right_operand_def eval_nat_numeral split: if_splits)
qed

lemma not_operator: "level B = None \<Longrightarrow> fst (infixBindingPower B) < 0"
  by (simp add: level_eq infixBindingPower_def split: if_splits)

lemma power_ofD: "power_of c m \<Longrightarrow> fst (infixBindingPower K) < m \<longleftrightarrow> (case level K of None \<Rightarrow> True | Some (n, _) \<Rightarrow> n < c)"
  by (simp add: power_of_def)

lemma stops_ends: "power_of c m \<Longrightarrow> stops m K \<longleftrightarrow> ends c K"
  by (simp add: stops_def ends_def power_ofD)

lemma groups_fits: "power_of c m \<Longrightarrow> groups e m K \<longleftrightarrow> fits e c K"
proof (induction e arbitrary: c m K)
  case (EUnary U e)
  then show ?case using EUnary.IH [OF power_of_prefix] stops_ends [OF power_of_prefix] by simp
next
  case (EThrough e r)
  then show ?case
    using EThrough.IH(1) [OF power_of_prefix] EThrough.IH(2) [OF power_of_0] stops_ends [OF power_of_0] by simp
next
  case (EBinary B l r)
  show ?case
  proof (cases "level B")
    case None
    then show ?thesis using not_operator [of B] by simp
  next
    case (Some p)
    then obtain n right where B: "level B = Some (n, right)" by (cases p) auto
    have "m \<le> fst (infixBindingPower B) \<longleftrightarrow> c \<le> n"
      using power_ofD [OF EBinary.prems, of B] B by auto
    then show ?thesis
      using EBinary level_operator [OF B] stops_ends [OF level_operator(1) [OF B]] by (simp add: B)
  qed
qed (simp_all add: power_of_0 list_all_iff, (metis power_of_0)+)

section \<open>Known trees\<close>

abbreviation knows :: "fact set \<Rightarrow> node_index \<Rightarrow> expr \<Rightarrow> bool" where
  "knows F \<equiv> tree (\<lambda>i K ks p. Is_node i K ks p \<in> F) (\<lambda>N x. Is_name N x \<in> F)"

lemma knows_mono: "knows F i e \<Longrightarrow> F \<subseteq> G \<Longrightarrow> knows G i e"
  by (erule tree_mono) auto

lemma all_knows_mono: "list_all2 (knows F) ks es \<Longrightarrow> F \<subseteq> G \<Longrightarrow> list_all2 (knows G) ks es"
  by (erule list_all2_mono) (rule knows_mono)

lemma knows_good: "knows F i e \<Longrightarrow> is_good i F"
  using tree_node unfolding is_good_def by fast

lemma good_later: "knows F i e \<Longrightarrow> F \<subseteq> G \<Longrightarrow> is_good i G"
  using knows_mono knows_good by blast

lemma knows_represents: "sees s k \<Longrightarrow> knows (Facts k) i e \<Longrightarrow> represents (Pool s) (Interner s) i e"
  unfolding represents_def
  by (erule tree_mono) (use node_seen in \<open>auto simp: sees_def\<close>)

section \<open>The loop over binding powers\<close>

definition expr_round :: "calls \<Rightarrow> int \<Rightarrow> node_index \<Rightarrow> (bool \<times> node_index) parser" where
  "expr_round call m = (\<lambda>LHS. do {
     LHS \<leftarrow> parsePostfixOrCallExpr call LHS;
     parseInfix call m LHS
   })"

definition goes_on :: "calls \<Rightarrow> int \<Rightarrow> (node_index \<Rightarrow> sight \<Rightarrow> bool) \<Rightarrow> node_index \<Rightarrow> sight \<Rightarrow> bool" where
  "goes_on call m Q i k \<longleftrightarrow> laps (parsePostfix call) i
     (\<lambda>L. does (parseInfix call m L) (lap (expr_round call m) Q (length (Ahead k)))) k"

lemma goes_on_round: "goes_on call m Q i k \<Longrightarrow> laps (expr_round call m) i Q k"
  unfolding goes_on_def
  by (rule laps_step, subst expr_round_def, unfold parsePostfixOrCallExpr_def,
      rule does_bind, rule does_loopP)

lemma parseExpr_goes_on:
  "does (parsePrefixExpr call) (goes_on call m Q) k \<Longrightarrow> does (parseExpr call m) Q k"
  unfolding parseExpr_def expr_round_def [symmetric]
  by (rule does_bind, erule does_mono, rule does_loopP, rule goes_on_round)

lemma laps_mono:
  assumes "laps body x Q k" "\<And>y h. Q y h \<Longrightarrow> Q' y h"
  shows "laps body x Q' k"
  using assms does_mono unfolding laps_def by blast

lemma goes_on_postfix:
  assumes "does (parsePostfix call i)
    (\<lambda>p h. fst p \<and> length (Ahead h) < length (Ahead k) \<and> goes_on call m Q (snd p) h) k"
  shows "goes_on call m Q i k"
  unfolding goes_on_def
proof (rule laps_step, rule does_mono [OF assms])
  fix p h assume h: "fst p \<and> length (Ahead h) < length (Ahead k) \<and> goes_on call m Q (snd p) h"
  have "laps (parsePostfix call) (snd p)
      (\<lambda>L. does (parseInfix call m L) (lap (expr_round call m) Q (length (Ahead k)))) h"
    using h unfolding goes_on_def
    by (elim conjE, elim laps_mono does_mono) (auto simp: lap_def split: if_splits)
  with h show "lap (parsePostfix call) (\<lambda>L. does (parseInfix call m L)
      (lap (expr_round call m) Q (length (Ahead k)))) (length (Ahead k)) p h"
    by (simp add: lap_def)
qed

lemma goes_on_infix:
  assumes "front (Ahead k) \<notin> {tk_l_paren, tk_dot, tk_l_square, tk_question, kw_as}"
    "does (parseInfix call m i) (\<lambda>p h. if fst p
       then length (Ahead h) < length (Ahead k) \<and> goes_on call m Q (snd p) h else Q (snd p) h) k"
  shows "goes_on call m Q i k"
proof -
  have "does (parseInfix call m i) (lap (expr_round call m) Q (length (Ahead k))) k"
    by (rule does_mono [OF assms(2)]) (auto simp: lap_def goes_on_round split: if_splits)
  then show ?thesis
    unfolding goes_on_def
    by (intro laps_step, unfold parsePostfix_def, intro exec) (use assms(1) in \<open>auto simp: lap_def\<close>)
qed

lemma goes_on_end:
  assumes "stops m (front (Ahead k))" "Q i k"
  shows "goes_on call m Q i k"
  by (rule goes_on_infix, use assms(1) in \<open>simp add: stops_def\<close>, unfold parseInfix_def Let_def, intro exec)
    (use assms in \<open>auto simp: stops_def\<close>)

section \<open>What it means to be read back\<close>

text \<open>The sight after an expression, with the facts \<open>F\<close> known and \<open>U\<close> units spare.\<close>

definition past :: "(kind \<times> string) list \<Rightarrow> nat \<Rightarrow> fact set \<Rightarrow> sight \<Rightarrow> sight" where
  "past v U F k = k \<lparr> Ahead := v, Units := U, Facts := F \<rparr>"

lemma past_simps [simp]:
  "Ahead (past v U F k) = v" "Units (past v U F k) = U" "Facts (past v U F k) = F"
  "Txt (past v U F k) = Txt k" "Brace (past v U F k) = Brace k" "Diags (past v U F k) = Diags k"
  "past v' U' F' (past v U F k) = past v' U' F' k"
  "moved (past (x # v) U F k) = past v (U + 8) F k"
  "Ahead (moved k) = tl (Ahead k)" "Units (moved k) = Units k + 8" "Facts (moved k) = Facts k"
  "past v U F (moved k) = past v U F k"
  by (simp_all add: past_def moved_def)

definition reads :: "expr \<Rightarrow> bool" where
  "reads e \<longleftrightarrow> (\<forall>N m v k Q. 0 \<le> m \<longrightarrow> groups e m (front v) \<longrightarrow> v \<noteq> [] \<longrightarrow> Ahead k = show_expr e @ v
     \<longrightarrow> length (show_expr e) \<le> N
     \<longrightarrow> (\<forall>i F U. Facts k \<subseteq> F \<longrightarrow> Units k \<le> U \<longrightarrow> knows F i e \<longrightarrow> goes_on (tie N) m Q i (past v U F k))
     \<longrightarrow> does (parseExpr (tie N) m) Q k)"

lemma readsI:
  assumes "\<And>N m v k Q. \<lbrakk>0 \<le> m; groups e m (front v); v \<noteq> []; Ahead k = show_expr e @ v;
      length (show_expr e) \<le> N;
      \<And>i F U. \<lbrakk>Facts k \<subseteq> F; Units k \<le> U; knows F i e\<rbrakk> \<Longrightarrow> goes_on (tie N) m Q i (past v U F k)\<rbrakk>
    \<Longrightarrow> does (parseExpr (tie N) m) Q k"
  shows "reads e"
  using assms unfolding reads_def by simp

lemma readsD:
  assumes "reads e" "0 \<le> m" "groups e m (front v)" "v \<noteq> []" "Ahead k = show_expr e @ v"
    "length (show_expr e) \<le> N"
    "\<And>i F U. \<lbrakk>Facts k \<subseteq> F; Units k \<le> U; knows F i e\<rbrakk> \<Longrightarrow> goes_on (tie N) m Q i (past v U F k)"
  shows "does (parseExpr (tie N) m) Q k"
  using assms unfolding reads_def by simp

text \<open>An operand of its own, read to its end by a call.\<close>

lemma does_call:
  assumes "reads e" "0 \<le> m" "groups e m (front v)" "stops m (front v)" "v \<noteq> []"
    "Ahead k = show_expr e @ v" "length (show_expr e) < N"
    "\<And>i F U. \<lbrakk>Facts k \<subseteq> F; Units k \<le> U; knows F i e\<rbrakk> \<Longrightarrow> Q i (past v U F k)"
  shows "does (tie N (CExpr m)) Q k"
proof -
  obtain N' where N: "N = Suc N'" using assms(7) by (cases N) simp_all
  have "does (parseExpr (tie N') m) Q k"
    by (rule readsD [OF assms(1,2,3,5,6)])
      (use assms(4,7,8) in \<open>simp_all add: N goes_on_end past_def\<close>)
  then show ?thesis by (simp add: N)
qed

text \<open>What an expression starts with.\<close>

definition starters :: "kind set" where
  "starters = insert tk_identifier (set literalKinds
     \<union> {tk_l_paren, tk_l_square, tk_bang, tk_minus, tk_amp, tk_star})"

lemma starters_in [simp]:
  "tk_identifier \<in> starters" "tk_l_paren \<in> starters" "tk_l_square \<in> starters" "tk_bang \<in> starters"
  "tk_minus \<in> starters" "tk_amp \<in> starters" "tk_star \<in> starters" "K \<in> set literalKinds \<Longrightarrow> K \<in> starters"
  by (simp_all add: starters_def)

lemma starters_out [simp]:
  "tk_r_paren \<notin> starters" "tk_r_square \<notin> starters" "tk_comma \<notin> starters" "tk_semi \<notin> starters"
  by (simp_all add: starters_def literalKinds_def)

lemma show_front: "groups e m K \<Longrightarrow> show_expr e \<noteq> [] \<and> front (show_expr e @ v) \<in> starters"
proof (induction e arbitrary: m K v)
  case (EBinary B l r)
  from EBinary.IH(1) [of m B "sym B # show_expr r @ v"] EBinary.prems show ?case by simp
next
  case (ECall f es)
  from ECall.IH(1) [of m tk_l_paren "sym tk_l_paren # commas (map show_expr es) @ sym tk_r_paren # v"]
    ECall.prems show ?case by simp
next
  case (EIndex f es)
  from EIndex.IH(1) [of m tk_l_square "sym tk_l_square # commas (map show_expr es) @ sym tk_r_square # v"]
    EIndex.prems show ?case by simp
next
  case (EField e x)
  from EField.IH [of m tk_dot "sym tk_dot # (tk_identifier, x) # v"] EField.prems show ?case by simp
next
  case (EElem e x)
  from EElem.IH [of m tk_dot "sym tk_dot # (tk_integer_literal, x) # v"] EElem.prems show ?case by simp
next
  case (ETry e)
  from ETry.IH [of m tk_question "sym tk_question # v"] ETry.prems show ?case by simp
next
  case (ECast e x)
  from ECast.IH [of m kw_as "sym kw_as # (tk_identifier, x) # v"] ECast.prems show ?case by simp
qed (auto simp: sym_def)

lemma stops_eq [simp]: "stops 110 tk_eq"
  by (simp add: stops_def infixBindingPower_def assignKinds_def)

section \<open>Lists of expressions\<close>

lemma stops_simps [simp]: "stops m K" if "K \<in> {tk_comma, tk_semi, tk_r_paren, tk_r_square}" "0 \<le> m"
  using that by (auto simp: stops_def infixBindingPower_def assignKinds_def compareKinds_def)

lemma show_commas:
  "commas (map show_expr (e # es)) = show_expr e @ concat (map (\<lambda>e. sym tk_comma # show_expr e) es)"
  by (induction es arbitrary: e) simp_all

lemma does_more:
  assumes "\<forall>e\<in>set es. reads e \<and> groups e 0 tk_comma \<and> groups e 0 (front v)"
    "Ahead k = concat (map (\<lambda>e. sym tk_comma # show_expr e) es) @ v"
    "v \<noteq> []" "front v \<noteq> tk_comma" "stops 0 (front v)" "set Stops \<inter> starters = {}"
    "length (concat (map (\<lambda>e. sym tk_comma # show_expr e) es)) \<le> N"
    and post: "\<And>ks F U. \<lbrakk>list_all2 (knows F) ks es; length ks = length es; Facts k \<subseteq> F;
      Units k + 8 * length es \<le> U\<rbrakk>
      \<Longrightarrow> Q (ks0 @ ks) (past v U F k)"
  shows "does (parseMore Stops (tie N (CExpr 0)) ks0) Q k"
proof -
  let ?tail = "\<lambda>es. concat (map (\<lambda>e. sym tk_comma # show_expr e) es)"
  define P where "P es' ys h \<longleftrightarrow> (\<exists>ds ks F U. es = ds @ es' \<and> ys = ks0 @ ks
      \<and> list_all2 (knows F) ks ds \<and> Facts k \<subseteq> F \<and> Units k + 8 * length ds \<le> U
      \<and> h = past (?tail es' @ v) U F k)" for es' ys h
  have "laps (\<lambda>Elems. do {
     more \<leftarrow> pConsume tk_comma;
     if \<not> more then done_with (False, Elems)
     else do {
       K \<leftarrow> pPeek 0;
       if K \<in> set Stops then done_with (False, Elems)
       else do {
         N \<leftarrow> tie N (CExpr 0);
         done_with (True, Elems @ [N])
       }
     }
   }) ks0 Q k" (is "laps ?body _ _ _")
  proof (rule laps_list [where P = P and xs = es])
    show "P es ks0 k" unfolding P_def
      by (intro exI [of _ "[]"] exI [of _ "Facts k"] exI [of _ "Units k"])
        (simp add: past_def assms(2) [symmetric])
  next
    fix ys h assume "P [] ys h"
    then obtain ks F U where h: "ys = ks0 @ ks" "list_all2 (knows F) ks es" "Facts k \<subseteq> F"
      "Units k + 8 * length es \<le> U" "h = past v U F k" "length ks = length es"
      unfolding P_def by (auto dest: list_all2_lengthD)
    show "does (?body ys) (\<lambda>p h. \<not> fst p \<and> Q (snd p) h) h"
      by (intro exec) (use h assms(3,4) post in \<open>auto simp: past_def\<close>)
  next
    fix e es' ys h assume "P (e # es') ys h"
    then obtain ds ks F U where h: "es = ds @ e # es'" "ys = ks0 @ ks"
      "list_all2 (knows F) ks ds" "Facts k \<subseteq> F" "Units k + 8 * length ds \<le> U"
      "h = past (?tail (e # es') @ v) U F k" unfolding P_def by auto
    let ?w = "?tail es' @ v"
    have w: "?w \<noteq> []" "groups e 0 (front ?w)" "stops 0 (front ?w)" "reads e"
      "front (show_expr e @ ?w) \<in> starters"
      using assms(1,3,5) h(1) show_front [of e 0 tk_comma] by (cases es'; simp add: sym_def)+
    have N: "length (show_expr e) < N" using assms(7) h(1) by simp
    have go: "P es' (ys @ [i]) (past ?w V G h)"
      if "F \<subseteq> G" "U + 8 \<le> V" "knows G i e" for i G V
      unfolding P_def
      by (intro exI [of _ "ds @ [e]"] exI [of _ "ks @ [i]"] exI [of _ G] exI [of _ V])
        (use that h all_knows_mono [OF h(3)] in \<open>auto intro: list_all2_appendI\<close>)
    show "does (?body ys) (\<lambda>p h'. fst p \<and> length (Ahead h') < length (Ahead h) \<and> P es' (snd p) h') h"
    proof (intro exec)
      show "does (tie N (CExpr 0)) (\<lambda>r. does (done_with (True, ys @ [r]))
          (\<lambda>p h'. fst p \<and> length (Ahead h') < length (Ahead h) \<and> P es' (snd p) h')) (moved h)"
      proof (rule does_call [OF w(4) _ w(2,3,1) _ N])
        fix i G V assume "Facts (moved h) \<subseteq> G" "Units (moved h) \<le> V" "knows G i e"
        with go h(6) show "does (done_with (True, ys @ [i]))
          (\<lambda>p h'. fst p \<and> length (Ahead h') < length (Ahead h) \<and> P es' (snd p) h') (past ?w V G (moved h))"
          by (intro does_return) simp
      qed (simp_all add: h(6))
    qed (use w h(6) assms(6) in \<open>auto simp: sym_def\<close>)
  qed
  then show ?thesis unfolding parseMore_def by (rule does_loopP)
qed

lemma front_commas:
  assumes "es \<noteq> []" "\<forall>e\<in>set es. \<exists>m K. groups e m K"
  shows "front (commas (map show_expr es) @ v) \<in> starters" "commas (map show_expr es) \<noteq> []"
proof -
  obtain e es' where es: "es = e # es'" using assms(1) by (cases es) auto
  with assms(2) obtain m K where "groups e m K" by auto
  from show_front [OF this] show "front (commas (map show_expr es) @ v) \<in> starters"
    "commas (map show_expr es) \<noteq> []"
    unfolding es show_commas by simp_all
qed

lemma does_more_trailing:
  "\<lbrakk>Ahead k = sym tk_comma # v; v \<noteq> []; front v \<in> set Stops; Q ks0 (moved k)\<rbrakk>
     \<Longrightarrow> does (parseMore Stops E ks0) Q k"
  unfolding parseMore_def
  by (rule does_loopP, rule laps_step, intro exec) (auto simp: lap_def sym_def)

text \<open>One expression and more after commas: the elements of every list but the empty one.\<close>

lemma does_elements:
  assumes "\<forall>e\<in>set (e # es). reads e \<and> groups e 0 tk_comma \<and> groups e 0 (front v)"
    "Ahead k = commas (map show_expr (e # es)) @ v" "v \<noteq> []" "stops 0 (front v)"
    "front v \<noteq> tk_comma" "set Stops \<inter> starters = {}"
    "length (commas (map show_expr (e # es))) < N"
    and post: "\<And>j ks F U. \<lbrakk>knows F j e; list_all2 (knows F) ks es; length ks = length es; Facts k \<subseteq> F;
      Units k + 8 * length es \<le> U\<rbrakk>
      \<Longrightarrow> Q (f j @ ks) (past v U F k)"
  shows "does (do { i \<leftarrow> tie N (CExpr 0); parseMore Stops (tie N (CExpr 0)) (f i) }) Q k"
proof (rule does_bind)
  let ?w = "concat (map (\<lambda>e. sym tk_comma # show_expr e) es) @ v"
  have w: "?w \<noteq> []" "groups e 0 (front ?w)" "stops 0 (front ?w)" "reads e"
    using assms(1,3,4) by (cases es; simp add: sym_def)+
  have k: "Ahead k = show_expr e @ ?w" using assms(2) unfolding show_commas by simp
  have N: "length (show_expr e) < N" "length (concat (map (\<lambda>e. sym tk_comma # show_expr e) es)) \<le> N"
    using assms(7) unfolding show_commas length_append by linarith+
  show "does (tie N (CExpr 0)) (\<lambda>r. does (parseMore Stops (tie N (CExpr 0)) (f r)) Q) k"
  proof (rule does_call [OF w(4) _ w(2,3,1) k N(1)])
    fix i F U assume i: "Facts k \<subseteq> F" "Units k \<le> U" "knows F i e"
    show "does (parseMore Stops (tie N (CExpr 0)) (f i)) Q (past ?w U F k)"
    proof (rule does_more [where v = v and es = es])
      fix ks G V assume g: "list_all2 (knows G) ks es" "length ks = length es" "Facts (past ?w U F k) \<subseteq> G"
        "Units (past ?w U F k) + 8 * length es \<le> V"
      have "knows G i e" using knows_mono [OF i(3)] g(3) by simp
      then show "Q (f i @ ks) (past v V G (past ?w U F k))"
        unfolding past_simps by (rule post [OF _ g(1,2)]) (use i g in simp_all)
    qed (use assms(1,3-6) N(2) in simp_all)
  qed simp
qed

section \<open>Every printed expression is read back\<close>

text \<open>The sights after an expression, put so that they need not be written down.\<close>

definition after :: "sight \<Rightarrow> (kind \<times> string) list \<Rightarrow> sight \<Rightarrow> bool" where
  "after k v h \<longleftrightarrow> Txt h = Txt k \<and> Brace h = Brace k \<and> Diags h = Diags k \<and> Ahead h = v
     \<and> Facts k \<subseteq> Facts h \<and> Units k \<le> Units h"

lemma after_past: "after k v h \<Longrightarrow> past v (Units h) (Facts h) k = h"
  by (auto simp: after_def past_def)

lemma reads_after:
  assumes "\<And>N m v k Q. \<lbrakk>0 \<le> m; groups e m (front v); v \<noteq> []; Ahead k = show_expr e @ v;
      length (show_expr e) \<le> N; \<And>i h. \<lbrakk>knows (Facts h) i e; after k v h\<rbrakk> \<Longrightarrow> goes_on (tie N) m Q i h\<rbrakk>
    \<Longrightarrow> does (parseExpr (tie N) m) Q k"
  shows "reads e"
proof (rule readsI, rule assms)
  fix N m v k Q i h
  assume "\<And>i F U. \<lbrakk>Facts k \<subseteq> F; Units k \<le> U; knows F i e\<rbrakk> \<Longrightarrow> goes_on (tie N) m Q i (past v U F k)"
    and a: "knows (Facts h) i e" "after k v h"
  from this(1) [of "Facts h" "Units h" i] a after_past [OF a(2)] show "goes_on (tie N) m Q i h"
    by (simp add: after_def)
qed

lemma reads_prefix:
  assumes "\<And>N m v k Q. \<lbrakk>0 \<le> m; groups e m (front v); v \<noteq> []; Ahead k = show_expr e @ v;
      length (show_expr e) \<le> N; \<And>i h. \<lbrakk>knows (Facts h) i e; after k v h\<rbrakk> \<Longrightarrow> Q i h\<rbrakk>
    \<Longrightarrow> does (parsePrefixExpr (tie N)) Q k"
  shows "reads e"
  by (rule reads_after, rule parseExpr_goes_on, rule assms) simp_all

lemma reads_postfix:
  assumes f: "reads f" and e: "show_expr e = show_expr f @ w" "w \<noteq> []"
    "\<And>m v. groups e m (front v) \<Longrightarrow> groups f m (front (w @ v))"
    and step: "\<And>N m v k Q i. \<lbrakk>0 \<le> m; groups e m (front v); v \<noteq> []; Ahead k = w @ v; length w \<le> N;
      knows (Facts k) i f; \<And>j h. \<lbrakk>knows (Facts h) j e; after k v h\<rbrakk> \<Longrightarrow> Q (True, j) h\<rbrakk>
    \<Longrightarrow> does (parsePostfix (tie N) i) Q k"
  shows "reads e"
proof (rule reads_after)
  fix N m v k Q
  assume a: "0 \<le> m" "groups e m (front v)" "v \<noteq> []" "Ahead k = show_expr e @ v" "length (show_expr e) \<le> N"
    and go: "\<And>i h. \<lbrakk>knows (Facts h) i e; after k v h\<rbrakk> \<Longrightarrow> goes_on (tie N) m Q i h"
  show "does (parseExpr (tie N) m) Q k"
  proof (rule readsD [OF f a(1) e(3) [OF a(2)]])
    fix i F U assume i: "Facts k \<subseteq> F" "Units k \<le> U" "knows F i f"
    let ?k = "past (w @ v) U F k"
    show "goes_on (tie N) m Q i ?k"
    proof (rule goes_on_postfix, rule step [OF a(1,2,3)])
      fix j h assume h: "knows (Facts h) j e" "after ?k v h"
      then have "after k v h" using i by (auto simp: after_def)
      with h e(2) go show "fst (True, j) \<and> length (Ahead h) < length (Ahead ?k)
          \<and> goes_on (tie N) m Q (snd (True, j)) h"
        by (simp add: after_def)
    qed (use i a(5) e(1) in simp_all)
  qed (use a(3-5) e in simp_all)
qed

lemmas round_simps = exec_simps sym_def past_def after_def

lemma does_path:
  "\<lbrakk>front (Ahead k) \<noteq> tk_colon_colon; Q (False, S) k\<rbrakk> \<Longrightarrow> does (parsePathSegments S) Q k"
  unfolding parsePathSegments_def
  by (rule does_loopP, rule laps_step, intro exec) (auto simp: lap_def)

lemma reads_EName: "reads (EName x)"
  apply (rule reads_prefix)
  subgoal premises a for N m v k Q
    unfolding parsePrefixExpr_def parseNameExpr_def Let_def
    by (intro exec does_path)
      (use a(2-4) in \<open>auto simp: round_simps literalKinds_def intro!: a(6) tree.intros\<close>)
  done

lemma reads_ELit: "reads (ELit K x)"
  apply (rule reads_prefix)
  subgoal premises a for N m v k Q
    unfolding parsePrefixExpr_def parseLitExpr_def Let_def
    by (intro exec)
      (use a(2-4) in \<open>auto simp: round_simps payloadStr_makePayload intro!: a(6) tree.intros\<close>)
  done

lemma reads_EParen:
  assumes r: "reads e"
  shows "reads (EParen e)"
  apply (rule reads_prefix)
  subgoal premises a for N m v k Q
    unfolding parsePrefixExpr_def parseParenExpr_def Let_def
    by (intro exec does_call [OF r, where v = "sym tk_r_paren # v"])
      (use a(2-5) show_front [of e 0 tk_r_paren "sym tk_r_paren # v"] in
        \<open>auto simp: round_simps literalKinds_def intro!: a(6) tree.intros\<close>)
  done

lemma reads_EUnary:
  assumes r: "reads e"
  shows "reads (EUnary U e)"
  apply (rule reads_prefix)
  subgoal premises a for N m v k Q
    unfolding parsePrefixExpr_def parseUnaryExpr_def parseStarExpr_def Let_def
    by (intro exec does_call [OF r, where v = v])
      (insert a(2-5), auto simp: round_simps literalKinds_def prefixBindingPower_def knows_good
        intro!: a(6) tree.intros elim: tree_mono)
  done

lemma reads_EThrough:
  assumes r: "reads e" "reads r"
  shows "reads (EThrough e r)"
  apply (rule reads_prefix)
  subgoal premises a for N m v k Q
    unfolding parsePrefixExpr_def parseStarExpr_def Let_def
    by (intro exec; (rule does_call [OF r(1), where v = "sym tk_eq # show_expr r @ v"])?; (intro exec)?;
        (rule does_call [OF r(2), where v = v])?; (intro exec)?)
      (insert a(2-5), auto simp: round_simps literalKinds_def prefixBindingPower_def knows_good
        intro!: a(6) tree.intros,
        ((erule tree_mono, blast, blast | blast | linarith)+)?)
  done

lemma reads_ERepeat:
  assumes r: "reads e" "reads n"
  shows "reads (ERepeat e n)"
  apply (rule reads_prefix)
  subgoal premises a for N m v k Q
    unfolding parsePrefixExpr_def parseArrayLitExpr_def parseConstExpr_def Let_def
    by (intro exec; (rule does_call [OF r(1), where v = "sym tk_semi # show_expr n @ sym tk_r_square # v"])?;
        (intro exec)?; (rule does_call [OF r(2), where v = "sym tk_r_square # v"])?; (intro exec)?)
      (insert a(2-5) show_front [of e 0 tk_semi "sym tk_semi # show_expr n @ sym tk_r_square # v"], auto simp: round_simps literalKinds_def intro!: a(6) tree.intros,
        ((erule tree_mono, blast, blast | blast | linarith)+)?)
  done

lemma reads_EField:
  assumes r: "reads e"
  shows "reads (EField e x)"
  apply (rule reads_postfix [OF r, where w = "[sym tk_dot, (tk_identifier, x)]"], simp, simp, simp add: sym_def)
  subgoal premises a for N m v k Q i
    unfolding parsePostfix_def parseDot_def parseFieldAccess_def expectAndIntern_def Let_def
    by (intro exec)
      (insert a(2-6), auto simp: round_simps knows_good payloadStr_makePayload
        intro!: a(7) tree.intros elim: tree_mono)
  done

lemma reads_EElem:
  assumes r: "reads e"
  shows "reads (EElem e x)"
  apply (rule reads_postfix [OF r, where w = "[sym tk_dot, (tk_integer_literal, x)]"], simp, simp, simp add: sym_def)
  subgoal premises a for N m v k Q i
    unfolding parsePostfix_def parseDot_def parseTupleIndex_def Let_def
    by (intro exec)
      (insert a(2-6), auto simp: round_simps knows_good intro!: a(7) tree.intros elim: tree_mono)
  done

lemma reads_ETry:
  assumes r: "reads e"
  shows "reads (ETry e)"
  apply (rule reads_postfix [OF r, where w = "[sym tk_question]"], simp, simp, simp add: sym_def)
  subgoal premises a for N m v k Q i
    unfolding parsePostfix_def Let_def
    by (intro exec)
      (insert a(2-6), auto simp: round_simps knows_good intro!: a(7) tree.intros elim: tree_mono)
  done

lemma reads_ECast:
  assumes r: "reads e"
  shows "reads (ECast e x)"
  apply (rule reads_postfix [OF r, where w = "[sym kw_as, (tk_identifier, x)]"], simp, simp, simp add: sym_def)
  subgoal premises a for N m v k Q i
    unfolding parsePostfix_def parseType_def parseNamedType_def Let_def
    by (intro exec does_path)
      (insert a(2-6), auto simp: round_simps knows_good intro!: a(7) tree.intros elim: tree_mono)
  done

lemma infix_facts:
  assumes "0 \<le> fst (infixBindingPower B)"
  shows "B \<notin> {tk_l_paren, tk_dot, tk_l_square, tk_question, kw_as}" "0 \<le> snd (infixBindingPower B)"
  using assms by (auto simp: infixBindingPower_def assignKinds_def compareKinds_def split: if_splits)

lemma reads_EBinary:
  assumes r: "reads l" "reads r"
  shows "reads (EBinary B l r)"
proof (rule reads_after)
  fix N m v k Q
  assume a: "0 \<le> m" "groups (EBinary B l r) m (front v)" "v \<noteq> []" "Ahead k = show_expr (EBinary B l r) @ v"
      "length (show_expr (EBinary B l r)) \<le> N"
    and go: "\<And>i h. \<lbrakk>knows (Facts h) i (EBinary B l r); after k v h\<rbrakk> \<Longrightarrow> goes_on (tie N) m Q i h"
  have B: "0 \<le> fst (infixBindingPower B)" using a(2) by simp
  show "does (parseExpr (tie N) m) Q k"
  proof (rule readsD [OF r(1) a(1), where v = "sym B # show_expr r @ v"])
    fix i F U assume i: "Facts k \<subseteq> F" "Units k \<le> U" "knows F i l"
    show "goes_on (tie N) m Q i (past (sym B # show_expr r @ v) U F k)"
    proof (rule goes_on_infix)
      show "does (parseInfix (tie N) m i) (\<lambda>p h. if fst p
          then length (Ahead h) < length (Ahead (past (sym B # show_expr r @ v) U F k))
            \<and> goes_on (tie N) m Q (snd p) h else Q (snd p) h) (past (sym B # show_expr r @ v) U F k)"
        unfolding parseInfix_def Let_def
        by (intro exec; (rule does_call [OF r(2), where v = v])?; (intro exec)?)
          (insert a(2,3,5) i infix_facts [OF B], auto simp: round_simps knows_good intro!: go tree.intros,
           (erule tree_mono, blast, blast | erule good_later, blast | blast | linarith)+)
    qed (use infix_facts(1) [OF B] in \<open>simp add: sym_def\<close>)
  qed (use a in \<open>simp_all add: sym_def\<close>)
qed

lemma reads_ECall:
  assumes r: "reads f" "\<forall>e\<in>set es. reads e"
  shows "reads (ECall f es)"
  apply (rule reads_postfix [OF r(1), where w = "sym tk_l_paren # commas (map show_expr es) @ [sym tk_r_paren]"],
      simp, simp, simp add: sym_def)
  subgoal premises a for N m v k Q i
  proof (cases es)
    case Nil
    with a(2-6) show ?thesis
      unfolding parsePostfix_def parseArgList_def Let_def
      by (intro exec) (auto simp: round_simps knows_good intro!: a(7) tree.intros elim: tree_mono)
  next
    case (Cons e es')
    have c: "front (commas (map show_expr (e # es')) @ sym tk_r_paren # v) \<in> starters"
      by (rule front_commas) (use a(2) in \<open>auto simp: Cons list_all_iff\<close>)
    show ?thesis
      unfolding parsePostfix_def parseArgList_def Let_def
      by (intro does_elements [where e = e and es = es' and v = "sym tk_r_paren # v" and f = "\<lambda>i. [i]"] exec)
        (insert r(2) a(2-6) c, simp_all add: Cons list_all_iff round_simps knows_good del: commas.simps,
         (auto simp: Cons round_simps intro!: a(7) tree.intros simp del: commas.simps)[2],
         ((erule tree_mono, blast, blast | erule list_all2_mono, erule tree_mono, blast, blast
          | erule notE, erule good_later, blast | blast | linarith)+))
  qed
  done

lemma reads_EIndex:
  assumes r: "reads f" "\<forall>e\<in>set es. reads e"
  shows "reads (EIndex f es)"
  apply (rule reads_postfix [OF r(1), where w = "sym tk_l_square # commas (map show_expr es) @ [sym tk_r_square]"],
      simp, simp, simp add: sym_def)
  subgoal premises a for N m v k Q i
  proof -
    obtain e es' where es: "es = e # es'" using a(2) by (cases es) auto
    show ?thesis
      unfolding parsePostfix_def parsePostfixIndex_def Let_def
      by (intro does_elements [where e = e and es = es' and v = "sym tk_r_square # v" and f = "\<lambda>j. [i, j]"] exec)
        (insert r(2) a(2-6), simp_all add: es list_all_iff round_simps knows_good del: commas.simps,
         (auto simp: es round_simps Suc_le_eq intro!: a(7) tree.Indices)[1],
         ((erule tree_mono, blast, blast | erule list_all2_mono, erule tree_mono, blast, blast
          | erule notE, erule good_later, blast | blast | linarith)+),
         (auto simp: es round_simps intro!: a(7) tree.Index)[1],
         ((erule tree_mono, blast, blast | erule list_all2_mono, erule tree_mono, blast, blast
          | erule notE, erule good_later, blast | blast | linarith)+))
  qed
  done

lemma reads_EArray:
  assumes r: "\<forall>e\<in>set es. reads e"
  shows "reads (EArray es)"
  apply (rule reads_prefix)
  subgoal premises a for N m v k Q
  proof (cases es)
    case Nil
    with a(2-5) show ?thesis
      unfolding parsePrefixExpr_def parseArrayLitExpr_def Let_def
      by (intro exec) (auto simp: round_simps literalKinds_def intro!: a(6) tree.intros)
  next
    case (Cons e es')
    let ?v = "sym tk_r_square # v" and ?w = "concat (map (\<lambda>e. sym tk_comma # show_expr e) es')"
    have f: "groups e 0 (front (?w @ ?v))" "stops 0 (front (?w @ ?v))" "front (?w @ ?v) \<noteq> tk_semi"
      using a(2) by (cases es'; simp add: Cons sym_def)+
    have c: "front (show_expr e @ ?w @ ?v) \<in> starters" using show_front [OF f(1)] by simp
    have e: "reads e" "\<forall>e\<in>set es'. reads e" using r by (simp_all add: Cons)
    have l: "length (show_expr e) + length ?w = length (commas (map show_expr es))"
      unfolding Cons show_commas by simp
    have k: "Ahead k = sym tk_l_square # show_expr e @ ?w @ ?v"
      using a(4) unfolding Cons show_expr.simps show_commas by simp
    show ?thesis
      unfolding parsePrefixExpr_def parseArrayLitExpr_def Let_def
      by (intro exec; (rule does_call [OF e(1), where v = "?w @ ?v"])?; (intro exec)?;
          (rule does_more [where es = es' and v = ?v])?; (intro exec)?)
        (insert a(2,3,5) f c e(2) k l,
         simp_all add: Cons list_all_iff round_simps literalKinds_def del: commas.simps,
         auto simp: Cons round_simps intro!: a(6) tree.Array,
         ((erule tree_mono, blast, blast | erule list_all2_mono, erule tree_mono, blast, blast
          | erule notE, erule good_later, blast | blast | linarith)+))
  qed
  done

lemma reads_ETuple:
  assumes r: "\<forall>e\<in>set es. reads e"
  shows "reads (ETuple es)"
  apply (rule reads_prefix)
  subgoal premises a for N m v k Q
  proof (cases es)
    case Nil
    with a(2-5) show ?thesis
      unfolding parsePrefixExpr_def parseParenExpr_def Let_def
      by (intro exec) (auto simp: round_simps literalKinds_def intro!: a(6) tree.intros)
  next
    case (Cons e es')
    let ?v = "sym tk_r_paren # v" and ?w = "concat (map (\<lambda>e. sym tk_comma # show_expr e) es')"
    have e: "reads e" "\<forall>e\<in>set es'. reads e" using r by (simp_all add: Cons)
    show ?thesis
    proof (cases "es' = []")
      case True
      have c: "front (show_expr e @ sym tk_comma # ?v) \<in> starters"
        using show_front [of e 0 tk_comma] a(2) by (simp add: Cons)
      show ?thesis
        unfolding parsePrefixExpr_def parseParenExpr_def Let_def
        by (intro exec; (rule does_call [OF e(1), where v = "sym tk_comma # ?v"])?; (intro exec)?;
            (rule does_more_trailing [where v = ?v])?; (intro exec)?)
          (insert a(2-5) c, simp_all add: Cons True round_simps literalKinds_def,
           auto simp: Cons True round_simps intro!: a(6) tree.Tuple elim: tree_mono)
    next
      case False
      have f: "groups e 0 (front (?w @ ?v))" "stops 0 (front (?w @ ?v))" "front (?w @ ?v) = tk_comma"
        using a(2) False by (cases es'; simp add: Cons sym_def)+
      have c: "front (show_expr e @ ?w @ ?v) \<in> starters" using show_front [OF f(1)] by simp
      have l: "length (show_expr e) + length ?w = length (commas (map show_expr es))"
        unfolding Cons show_commas by simp
      have k: "Ahead k = sym tk_l_paren # show_expr e @ ?w @ ?v"
        using a(4) False unfolding Cons show_expr.simps show_commas by simp
      show ?thesis
        unfolding parsePrefixExpr_def parseParenExpr_def Let_def
        by (intro exec; (rule does_call [OF e(1), where v = "?w @ ?v"])?; (intro exec)?;
            (rule does_more [where es = es' and v = ?v])?; (intro exec)?)
          (insert a(2,3,5) f c e(2) k l,
           simp_all add: Cons False list_all_iff round_simps literalKinds_def del: commas.simps,
           auto simp: Cons round_simps intro!: a(6) tree.Tuple,
           ((erule tree_mono, blast, blast | erule list_all2_mono, erule tree_mono, blast, blast
            | erule notE, erule good_later, blast | blast | linarith)+))
    qed
  qed
  done

lemma reads_all: "reads e"
  by (induction e)
    (blast intro: reads_EName reads_ELit reads_EParen reads_ETuple reads_EArray reads_ERepeat
      reads_EUnary reads_EThrough reads_EBinary reads_ECall reads_EIndex reads_EField reads_EElem
      reads_ETry reads_ECast)+

end
