(* ===== verification/ParserRound.thy ===== *)
theory ParserRound
  imports ExprRound ParserProps
begin

text \<open>
  The round trip of the parser: an expression, and a source file of constants and modules, is
  printed, and what the parser makes of the tokens stands for it.
\<close>

section \<open>Source files of constants and modules\<close>

text \<open>A constant has a name, the name of a type and a value; a module in its own file has a name.\<close>

datatype decl = DConst string string expr | DMod string

primrec show_decl :: "decl \<Rightarrow> (kind \<times> string) list" where
  "show_decl (DConst n t e) = sym kw_const # (tk_identifier, n) # sym tk_colon # (tk_identifier, t)
     # sym tk_eq # show_expr e @ [sym tk_semi]"
| "show_decl (DMod n) = [sym kw_mod, (tk_identifier, n), sym tk_semi]"

definition show_file :: "decl list \<Rightarrow> (kind \<times> string) list" where
  "show_file ds = concat (map show_decl ds)"

primrec written :: "decl \<Rightarrow> bool" where
  "written (DConst n t e) \<longleftrightarrow> fits e 0 tk_semi"
| "written (DMod n) \<longleftrightarrow> True"

primrec decl_tree :: "(node_index \<Rightarrow> node_kind \<Rightarrow> node_index list \<Rightarrow> u32 \<Rightarrow> bool)
    \<Rightarrow> (u32 \<Rightarrow> string \<Rightarrow> bool) \<Rightarrow> node_index \<Rightarrow> decl \<Rightarrow> bool" where
  "decl_tree node name i (DConst n t e) \<longleftrightarrow> (\<exists>ty v N T. node i nk_ConstDecl [ty, v] N \<and> name N n
     \<and> node ty nk_NamedType [] T \<and> name T t \<and> tree node name v e)"
| "decl_tree node name i (DMod n) \<longleftrightarrow> (\<exists>N. node i nk_ModDeclFile [] N \<and> name N n)"

definition declares :: "node_pool \<Rightarrow> interner \<Rightarrow> node_index \<Rightarrow> decl \<Rightarrow> bool" where
  "declares P I = decl_tree
     (\<lambda>i K ks p. kindOf P i = Some K \<and> childrenOf P i = Some ks
        \<and> map_option NPayload (nodeAt P i) = Some p)
     (\<lambda>N x. getStr I N = Some x \<and> payloadStr N = N)"

abbreviation knows_decl :: "fact set \<Rightarrow> node_index \<Rightarrow> decl \<Rightarrow> bool" where
  "knows_decl F \<equiv> decl_tree (\<lambda>i K ks p. Is_node i K ks p \<in> F) (\<lambda>N x. Is_name N x \<in> F)"

lemma decl_tree_mono:
  assumes "decl_tree node name i d" "\<And>i K ks p. node i K ks p \<Longrightarrow> node' i K ks p"
    "\<And>N x. name N x \<Longrightarrow> name' N x"
  shows "decl_tree node' name' i d"
proof (cases d)
  case (DConst n t e)
  with assms(1) obtain ty v N T where "node i nk_ConstDecl [ty, v] N" "name N n"
    "node ty nk_NamedType [] T" "name T t" "tree node name v e" by auto
  moreover from this(5) assms(2,3) have "tree node' name' v e" by (rule tree_mono)
  ultimately show ?thesis using assms(2,3) unfolding DConst decl_tree.simps by blast
next
  case (DMod n)
  with assms show ?thesis unfolding DMod decl_tree.simps by blast
qed

lemma const_I:
  "\<lbrakk>node i nk_ConstDecl [ty, v] N; name N n; node ty nk_NamedType [] T; name T t; tree node name v e\<rbrakk>
     \<Longrightarrow> decl_tree node name i (DConst n t e)"
  by auto

lemma knows_declares:
  "sees s k \<Longrightarrow> knows_decl (Facts k) i d \<Longrightarrow> declares (Pool s) (Interner s) i d"
  unfolding declares_def
  by (erule decl_tree_mono)
    (use node_seen in \<open>auto simp: sees_def payloadStr_def word_le_nat_alt intro!: name_is_masked\<close>)

section \<open>Reading a declaration\<close>

lemma does_peek_any: "(\<And>K. Q K k) \<Longrightarrow> does (pPeek n) Q k"
  unfolding pPeek_def by (rule does_gets) blast

lemma does_expectName [exec]:
  assumes "Ahead k \<noteq> []" "front (Ahead k) = K"
    "\<And>N. N \<le> 0x3FFFFFFF \<Longrightarrow> Q N (named N (snd (hd (Ahead k))) (moved k))"
  shows "does (expectName K C) Q k"
proof (rule does_I)
  fix s r s' assume s: "sees s k" "run_state (expectName K C) s = (r, s')"
  have p: "peek 0 (Stream s) = K" using peek_front seesD(1,8) [OF s(1)] assms(2) by simp
  from advance_ahead [OF s(1) assms(1)] obtain t TS where a:
    "advance (Stream s) = (t, TS)" "fronts t k" "sees (s \<lparr> Stream := TS \<rparr>) (moved k)"
    "previous TS = t" .
  with s p have "run_state (internText (TokenSpan t)) (s \<lparr> Stream := TS \<rparr>) = (r, s')"
    by (auto simp: expectName_def pConsume_def consume_def check_def State_Monad.bind_def
        pPrevious_def gets_def)
  moreover have "does (internText (TokenSpan t)) Q (moved k)"
    by (rule does_internText) (use assms(3) a(2) in \<open>auto simp: moved_def fronts_def\<close>)
  ultimately show "\<exists>h. Q r h \<and> sees s' h" using a(3) does_D by metis
qed

lemma does_noComments:
  "\<lbrakk>front (Ahead k) \<noteq> K; Q [] k\<rbrakk> \<Longrightarrow> does (parseComments K NK) Q k"
  unfolding parseComments_def
  by (rule does_loopP, rule laps_step, intro exec) (auto simp: lap_def)

lemma does_expr:
  assumes "0 \<le> m" "groups e m (front v)" "stops m (front v)" "v \<noteq> []"
    "Ahead k = show_expr e @ v" "length (show_expr e) \<le> N"
    "\<And>i h. \<lbrakk>knows (Facts h) i e; after k v h\<rbrakk> \<Longrightarrow> Q i h"
  shows "does (parseExpr (tie N) m) Q k"
  by (rule readsD [OF reads_all assms(1,2,4,5,6)], rule goes_on_end)
    (use assms(3,7) in \<open>simp_all add: after_def\<close>)

lemma does_const:
  assumes "Ahead k = show_decl (DConst n t e) @ v" "v \<noteq> []" "fits e 0 tk_semi"
    "length (show_decl (DConst n t e)) \<le> N"
    "\<And>i h. \<lbrakk>knows_decl (Facts h) i (DConst n t e); after k v h; Units k + 8 \<le> Units h\<rbrakk> \<Longrightarrow> Q i h"
  shows "does (parseTopLevelDecl (tie N)) Q k"
  unfolding parseTopLevelDecl_def parseDocComments_def parseConstDecl_def parseType_def
    parseNamedType_def parseConstExpr_def Let_def
  apply (intro exec does_noComments; (rule does_peek_any)?; (intro exec does_path)?;
      (rule does_expr [where e = e and v = "sym tk_semi # v"])?; (intro exec)?)
  using assms(1-4)
  by (auto simp: round_simps groups_fits [OF power_of_0] intro!: assms(5) const_I simp del: decl_tree.simps elim: tree_mono)

lemma does_mod:
  assumes "Ahead k = show_decl (DMod n) @ v"
    "\<And>i h. \<lbrakk>knows_decl (Facts h) i (DMod n); after k v h; Units k + 8 \<le> Units h\<rbrakk> \<Longrightarrow> Q i h"
  shows "does (parseTopLevelDecl (tie N)) Q k"
  unfolding parseTopLevelDecl_def parseDocComments_def parseModDecl_def Let_def
  apply (intro exec does_noComments; (rule does_peek_any)?; (intro exec)?)
  using assms(1) by (auto simp: round_simps intro!: assms(2))

lemma does_decl:
  assumes "Ahead k = show_decl d @ v" "v \<noteq> []" "written d" "length (show_decl d) \<le> N"
    "\<And>i h. \<lbrakk>knows_decl (Facts h) i d; after k v h; Units k + 8 \<le> Units h\<rbrakk> \<Longrightarrow> Q i h"
  shows "does (parseTopLevelDecl (tie N)) Q k"
proof (cases d)
  case (DConst n t e)
  show ?thesis by (rule does_const [of k n t e v]) (use assms DConst in simp_all)
next
  case (DMod n)
  show ?thesis by (rule does_mod [of k n v]) (use assms DMod in simp_all)
qed

section \<open>Reading a file\<close>

lemma show_decl_front [simp]: "front (show_decl d @ v) = (case d of DConst n t e \<Rightarrow> kw_const | DMod n \<Rightarrow> kw_mod)" "show_decl d \<noteq> []"
  by (cases d; simp add: sym_def)+

lemma does_decls:
  assumes "Ahead k = show_file ds @ [(tk_eof, x)]" "\<forall>d\<in>set ds. written d"
    "length (show_file ds) \<le> N"
    and post: "\<And>is h. \<lbrakk>list_all2 (knows_decl (Facts h)) is ds; after k [(tk_eof, x)] h;
      Units k + 8 * length ds \<le> Units h\<rbrakk> \<Longrightarrow> Q is h"
  shows "does (parseUntil tk_eof (parseTopLevelDecl (tie N)) []) Q k"
proof -
  define P where "P es ys h \<longleftrightarrow> (\<exists>cs. ds = cs @ es \<and> list_all2 (knows_decl (Facts h)) ys cs
      \<and> Units k + 8 * length cs \<le> Units h \<and> after k (show_file es @ [(tk_eof, x)]) h)" for es ys h
  have P0: "P ds [] k" using assms(1) by (auto simp: P_def after_def)
  show ?thesis
    unfolding parseUntil_def
  proof (rule does_loopP, rule laps_list [where P = P, OF _ _ P0])
    fix ys h assume "P [] ys h"
    then have h: "list_all2 (knows_decl (Facts h)) ys ds" "Units k + 8 * length ds \<le> Units h"
      "after k [(tk_eof, x)] h" by (auto simp: P_def show_file_def)
    then show "does (do {
         K \<leftarrow> pPeek 0;
         if K = tk_eof \<or> K = tk_eof then done_with (False, ys)
         else do { N \<leftarrow> parseTopLevelDecl (tie N); done_with (True, ys @ [N]) }
       }) (\<lambda>p h. \<not> fst p \<and> Q (snd p) h) h"
      by (intro exec) (auto simp: after_def intro: post)
  next
    fix d es ys h assume "P (d # es) ys h"
    then obtain cs where h: "ds = cs @ d # es" "list_all2 (knows_decl (Facts h)) ys cs"
      "Units k + 8 * length cs \<le> Units h" "after k (show_decl d @ show_file es @ [(tk_eof, x)]) h"
      by (auto simp: P_def show_file_def)
    let ?v = "show_file es @ [(tk_eof, x)]"
    have a: "Ahead h = show_decl d @ ?v" "written d" "length (show_decl d) \<le> N"
      using h(4) assms(2,3) by (auto simp: after_def h(1) show_file_def)
    show "does (do {
         K \<leftarrow> pPeek 0;
         if K = tk_eof \<or> K = tk_eof then done_with (False, ys)
         else do { N \<leftarrow> parseTopLevelDecl (tie N); done_with (True, ys @ [N]) }
       }) (\<lambda>p h'. fst p \<and> length (Ahead h') < length (Ahead h) \<and> P es (snd p) h') h"
    proof (intro exec)
      show "does (parseTopLevelDecl (tie N)) (\<lambda>r. does (done_with (True, ys @ [r]))
          (\<lambda>p h'. fst p \<and> length (Ahead h') < length (Ahead h) \<and> P es (snd p) h')) h"
      proof (rule does_decl [OF a(1) _ a(2,3)])
        fix i g assume g: "knows_decl (Facts g) i d" "after h ?v g" "Units h + 8 \<le> Units g"
        have "list_all2 (knows_decl (Facts g)) ys cs"
          using h(2) by (rule list_all2_mono) (use g(2) in \<open>auto simp: after_def elim: decl_tree_mono\<close>)
        with g h have "P es (ys @ [i]) g"
          unfolding P_def by (intro exI [of _ "cs @ [d]"]) (auto simp: after_def intro: list_all2_appendI)
        with g(2) a(1) show "does (done_with (True, ys @ [i]))
            (\<lambda>p h'. fst p \<and> length (Ahead h') < length (Ahead h) \<and> P es (snd p) h') g"
          by (intro does_return) (simp add: after_def)
      qed simp
    qed (simp add: a(1) split: decl.splits)
  qed
qed

lemma does_file:
  assumes "Ahead k = show_file ds @ [(tk_eof, x)]" "\<forall>d\<in>set ds. written d"
    "length (show_file ds) \<le> N" "length ds < 65536" "0 < Units k"
    and post: "\<And>is r h. \<lbrakk>list_all2 (knows_decl (Facts h)) is ds; Is_node r nk_SourceFile is 0 \<in> Facts h;
      Diags h = Diags k; Units k \<le> Suc (Units h)\<rbrakk> \<Longrightarrow> Q r h"
  shows "does (parseSourceFile (tie N)) Q k"
proof -
  have front: "front (Ahead k) \<in> {kw_const, kw_mod, tk_eof}"
    unfolding assms(1) by (cases ds) (simp_all add: show_file_def split: decl.split)
  show ?thesis
    unfolding parseSourceFile_def parseFileDocComments_def
    by (intro exec does_noComments does_decls [where ds = ds and x = x])
      (use assms(1-5) front in \<open>auto simp: round_simps intro!: post dest: list_all2_lengthD
        elim!: list_all2_mono decl_tree_mono\<close>)
qed

section \<open>The tokens of a printed text\<close>

lemma span_text_place:
  assumes "length (pre @ print_lines ls) < 4294967296"
  shows "map (\<lambda>t. (TokenKind t, span_text (pre @ print_lines ls) (TokenSpan t))) (place (length pre) ls) = ls"
  using assms
proof (induction ls arbitrary: pre rule: print_lines.induct)
  case (2 K x ls)
  have u: "unat (of_nat n :: u32) = n" if "n \<le> length pre + length x" for n
    using 2(2) that by (simp add: unat_of_nat take_bit_nat_eq_self)
  have "unat (of_nat (length pre + length x) - of_nat (length pre) :: u32) = length x"
    using u [of "length x"] by simp
  then have "span_text (pre @ print_lines ((K, x) # ls))
      (Span (of_nat (length pre)) (of_nat (length pre + length x))) = x"
    using u [of "length pre"] by (simp add: span_text_def substr_def)
  with 2(1) [of "pre @ x @ [ch_lf]"] 2(2) show ?case by (simp add: ac_simps)
qed simp

lemma collect_tokens:
  "\<forall>t\<in>set ts. TokenKind t \<noteq> tk_comment \<Longrightarrow> collectItems (map ItemToken ts) = (ts, [])"
  by (induction ts) simp_all

lemma kind_place: "t \<in> set (place n ls) \<Longrightarrow> TokenKind t \<in> fst ` set ls"
  by (induction ls arbitrary: n rule: print_lines.induct) auto

definition printed :: "(kind \<times> string) list \<Rightarrow> token_stream" where
  "printed ls = newTokenStream (lex (print_lines ls)) (print_lines ls)"

lemma printed_stream:
  assumes "\<forall>(k, s)\<in>set ls. plain k s \<and> k \<noteq> tk_comment" "length (print_lines ls) < 4294967295"
  shows "ahead (printed ls) = ls @ [(tk_eof, [])]" "stream_wf (printed ls)"
    "Cursor (printed ls) = 0" "Source (printed ls) = print_lines ls"
proof -
  let ?B = "print_lines ls" and ?e = "Token tk_eof (Span (of_nat (length (print_lines ls))) (of_nat (length (print_lines ls))))"
  note src = source_stream [OF assms(2)]
  show "stream_wf (printed ls)" "Cursor (printed ls) = 0" "Source (printed ls) = ?B"
    using src by (simp_all add: printed_def newTokenStream_def split: prod.splits)
  have "\<forall>(k, s)\<in>set ls. plain k s" "length ?B < 4294967296" using assms by auto
  from lex_printed [OF this] have l: "lex ?B = map ItemToken (place 0 ls @ [?e])" by simp
  have "\<forall>t\<in>set (place 0 ls @ [?e]). TokenKind t \<noteq> tk_comment"
    using assms(1) by (auto dest!: kind_place)
  then have "Tokens (printed ls) = place 0 ls @ [?e]"
    unfolding printed_def newTokenStream_def l by (simp add: collect_tokens del: map_append)
  then have "rest (printed ls) = place 0 ls @ [?e]"
    using src(2) by (simp add: rest_def printed_def)
  then show "ahead (printed ls) = ls @ [(tk_eof, [])]"
    using span_text_place [of "[]" ls] assms(2) \<open>Source (printed ls) = ?B\<close>
    by (simp add: ahead_def span_text_def substr_def)
qed

section \<open>A parser on printed tokens\<close>

lemma fits_no_comment: "fits e m K \<Longrightarrow> (k, s) \<in> set (show_expr e) \<Longrightarrow> k \<noteq> tk_comment"
proof -
  have c: "(k, s) \<in> set (commas xs) \<Longrightarrow> k \<noteq> tk_comma \<Longrightarrow> \<exists>x\<in>set xs. (k, s) \<in> set x" for xs
    by (induction xs rule: commas.induct) (auto simp: sym_def)
  show "fits e m K \<Longrightarrow> (k, s) \<in> set (show_expr e) \<Longrightarrow> k \<noteq> tk_comment"
  proof (induction e arbitrary: m K)
    case (EBinary B l r)
    have "level tk_comment = None" by (simp add: level_eq assignKinds_def compareKinds_def)
    with EBinary show ?case by (fastforce simp: sym_def split: option.splits prod.splits)
  next
    case (ETuple es)
    then show ?case using c [of "map show_expr es"] by (fastforce simp: sym_def list_all_iff split: if_splits)
  next
    case (EArray es)
    then show ?case using c [of "map show_expr es"] by (fastforce simp: sym_def list_all_iff)
  next
    case (ECall f es)
    then show ?case using c [of "map show_expr es"] by (fastforce simp: sym_def list_all_iff)
  next
    case (EIndex f es)
    then show ?case using c [of "map show_expr es"] by (fastforce simp: sym_def list_all_iff)
  qed (auto simp: sym_def literalKinds_def)
qed

lemma sees_new:
  assumes "\<forall>(k, s)\<in>set ls. plain k s \<and> k \<noteq> tk_comment" "length (print_lines ls) < 4294967295"
    "interner_wf I" "length (Strings I) + 8 * length ls + U + 9 \<le> 1073741824"
  shows "sees (newParser (printed ls) I)
    \<lparr> Txt = print_lines ls, Brace = True, Diags = [], Units = U, Ahead = ls @ [(tk_eof, [])], Facts = {} \<rparr>"
  using printed_stream [OF assms(1,2)] assms(3,4) pool_wf_new
  by (simp add: sees_def newParser_def weight_def newNodePool_def alloc_def childSlice_def)

section \<open>Parentheses everywhere\<close>



lemma level_paren: "level tk_r_paren = None"
  by (simp add: level_eq assignKinds_def compareKinds_def)

lemma ends_paren [simp]: "ends c tk_r_paren"
  by (simp add: ends_def level_paren)






section \<open>Lexemes of the examples\<close>

lemma plain_identifier:
  assumes "word_lexeme s" "keywordKind s = tk_identifier" "\<not> isReservedKeyword s"
  shows "plain tk_identifier s"
  using assms by (auto simp: plain_def isReservedKeyword_iff keyword_spelling_def)

lemma plain_names: "plain tk_identifier ''a''" "plain tk_identifier ''b''" "plain tk_identifier ''T''"
  by (rule plain_identifier; code_simp)+

lemma plain_one: "plain tk_integer_literal ''1''"
  by (simp add: plain_def integer_lexeme_def digits_of_def isdigit_def byte_def)

lemma plain_spelling [simp]:
  "plain (Delimiter d) s \<longleftrightarrow> s = delimiter_name d" "plain (Operator b) s \<longleftrightarrow> s = operator_name b"
  "plain (Keyword k) s \<longleftrightarrow> s = keyword_name k"
  by (simp_all add: plain_def)

lemma sees_example:
  assumes "\<forall>(k, s)\<in>set ls. plain k s \<and> k \<noteq> tk_comment" "length (print_lines ls) < 4294967295"
    "length ls < 1000"
  shows "sees (newParser (printed ls) newInterner)
    \<lparr> Txt = print_lines ls, Brace = True, Diags = [], Units = 0, Ahead = ls @ [(tk_eof, [])], Facts = {} \<rparr>"
  using assms by (intro sees_new interner_wf_new) (simp_all add: newInterner_def)

text \<open>A parser that has a whole file ahead.\<close>

lemma file_run:
  assumes "\<forall>d\<in>set ds. written d" "\<forall>(k, s)\<in>set (show_file ds). plain k s"
    "length ds < 65536" "length (print_lines (show_file ds)) < 4294967295"
    "interner_wf I" "length (Strings I) + 8 * length (show_file ds) + 10 \<le> 1073741824"
  obtains R I' "is" where "parse (printed (show_file ds)) I = Some (R, I')" "ok R"
    "kindOf (ResultPool R) (Root R) = Some nk_SourceFile" "childrenOf (ResultPool R) (Root R) = Some is"
    "list_all2 (declares (ResultPool R) I') is ds"
    "length (Nodes (ResultPool R)) + length (Children (ResultPool R)) \<le> length (Strings I) + 8 * length (show_file ds) + 10"
proof -
  let ?ls = "show_file ds" and ?TS = "printed (show_file ds)"
  let ?U = "1073741824 - (length (Strings I) + 8 * length ?ls + 9)"
  let ?k = "\<lparr> Txt = print_lines ?ls, Brace = True, Diags = [], Units = ?U,
    Ahead = ?ls @ [(tk_eof, [])], Facts = {} \<rparr>"
  have "k \<noteq> tk_comment" if "(k, s) \<in> set (show_decl d)" "d \<in> set ds" for k s d
    using assms(1) that fits_no_comment by (cases d) (fastforce simp: sym_def)+
  then have c: "\<forall>(k, s)\<in>set ?ls. plain k s \<and> k \<noteq> tk_comment"
    using assms(2) by (fastforce simp: show_file_def)
  have s: "sees (newParser ?TS I) ?k"
    using assms(4-6) by (intro sees_new [OF c]) simp_all
  obtain r s' where run: "run_state (parseSourceFile (tie (Suc (remaining ?TS)))) (newParser ?TS I) = (r, s')"
    by (metis prod.exhaust)
  have n: "length ?ls \<le> Suc (remaining ?TS)"
    using seesD(8) [OF s] length_ahead [of ?TS] by (simp add: newParser_def)
  have "does (parseSourceFile (tie (Suc (remaining ?TS)))) (\<lambda>r h. \<exists>is. list_all2 (knows_decl (Facts h)) is ds
      \<and> Is_node r nk_SourceFile is 0 \<in> Facts h \<and> Diags h = [] \<and> ?U \<le> Suc (Units h)) ?k"
    by (rule does_file [OF _ assms(1) n assms(3)]) (use assms(6) in auto)
  from does_D [OF this s run] obtain h "is" where h: "list_all2 (knows_decl (Facts h)) is ds"
    "Is_node r nk_SourceFile is 0 \<in> Facts h" "Diags h = []" "sees s' h" "?U \<le> Suc (Units h)" by blast
  have "list_all2 (declares (Pool s') (Interner s')) is ds"
    using h(1) by (rule list_all2_mono) (rule knows_declares [OF h(4)])
  moreover have "weight s' + Units h \<le> 1073741824" using h(4) by (simp add: sees_def)
  then have "length (Nodes (Pool s')) + length (Children (Pool s')) \<le> length (Strings I) + 8 * length ?ls + 10"
    using h(5) assms(6) by (simp add: weight_def)
  ultimately show thesis
    using that [of "\<lparr> ResultPool = Pool s', Root = r, ResultErrors = Errors s' \<rparr>" "Interner s'" "is"]
      node_seen [OF h(4,2)] seesD(4,7) [OF h(4)] h(3) run
    by (simp add: parse_def ok_def)
qed

section \<open>Properties\<close>

text \<open>A parser that has an expression ahead, and the sight of it.\<close>

lemma expr_run:
  assumes "stream_wf (Stream s)" "pool_wf (Pool s)" "interner_wf (Interner s)" "\<not> Stuck s"
    "ahead (Stream s) = show_expr e @ v" "v \<noteq> []" "fits e 0 (front v)" "ends 0 (front v)"
    "length (show_expr e) \<le> n" "weight s + 8 * length (show_expr e @ v) \<le> 1073741824"
    "run_state (parseExpr (tie n) 0) s = (i, s')"
  shows "represents (Pool s') (Interner s') i e \<and> ahead (Stream s') = v \<and> Errors s' = Errors s \<and> \<not> Stuck s'"
proof -
  let ?k = "\<lparr> Txt = Source (Stream s), Brace = StructLitAllowed s, Diags = Errors s, Units = 0,
    Ahead = show_expr e @ v, Facts = {} \<rparr>"
  have s: "sees s ?k" using assms by (simp add: sees_def)
  have "does (parseExpr (tie n) 0) (\<lambda>i h. knows (Facts h) i e \<and> after ?k v h) ?k"
    by (rule does_expr [OF order_refl _ _ assms(6) _ assms(9)])
      (use assms(7,8) in \<open>simp_all add: groups_fits [OF power_of_0] stops_ends [OF power_of_0]\<close>)
  from does_D [OF this s assms(11)] obtain h where "knows (Facts h) i e" "after ?k v h" "sees s' h" by blast
  then show ?thesis using knows_represents seesD [of s' h] by (auto simp: after_def)
qed

text \<open>C5: precedence and associativity.  Whenever the tokens ahead are the print of an expression
  that, by the table of precedences in \<^verbatim>\<open>Parser.h\<close>, needs no more parentheses than it has, and a
  token follows that ends it, \<open>parseExpr\<close> reads exactly those tokens, reports nothing, and returns
  an index whose tree is the expression: operators of a later line of the table bind tighter,
  assignments group to the right, the others to the left, prefix operators bind tighter than all
  of them and postfix operators tighter still.  The expressions are those of the type \<open>expr\<close>.\<close>

theorem parseExpr_reads_back:
  assumes "stream_wf (Stream s)" "pool_wf (Pool s)" "interner_wf (Interner s)" "\<not> Stuck s"
    "ahead (Stream s) = show_expr e @ v" "v \<noteq> []" "fits e 0 (front v)" "ends 0 (front v)"
    "length (show_expr e) \<le> n" "weight s + 8 * length (show_expr e @ v) \<le> 1073741824"
    "run_state (parseExpr (tie n) 0) s = (i, s')"
  shows "represents (Pool s') (Interner s') i e \<and> ahead (Stream s') = v \<and> Errors s' = Errors s \<and> \<not> Stuck s'"
  by (rule expr_run [OF assms])

theorem parseExpr_reads_back_witness:
  "\<exists>s s' i. ahead (Stream s) = [(tk_identifier, ''a''), (tk_minus, ''-''), (tk_identifier, ''b''),
       (tk_minus, ''-''), (tk_identifier, ''a''), (tk_star, ''*''), (tk_identifier, ''b''), (tk_semi, '';''), (tk_eof, [])]
     \<and> run_state (parseExpr (tie 7) 0) s = (i, s')
     \<and> represents (Pool s') (Interner s') i
         (EBinary tk_minus (EBinary tk_minus (EName ''a'') (EName ''b''))
           (EBinary tk_star (EName ''a'') (EName ''b'')))"
proof -
  let ?e = "EBinary tk_minus (EBinary tk_minus (EName ''a'') (EName ''b''))
      (EBinary tk_star (EName ''a'') (EName ''b''))"
  let ?s = "newParser (printed (show_expr ?e @ [sym tk_semi])) newInterner"
  have p: "\<forall>(k, s)\<in>set (show_expr ?e @ [sym tk_semi]). plain k s \<and> k \<noteq> tk_comment"
    using plain_names by (simp add: sym_def)
  have s: "sees ?s \<lparr> Txt = print_lines (show_expr ?e @ [sym tk_semi]), Brace = True, Diags = [], Units = 0,
      Ahead = (show_expr ?e @ [sym tk_semi]) @ [(tk_eof, [])], Facts = {} \<rparr>"
    by (rule sees_example [OF p]) (simp_all add: sym_def)
  obtain i s' where r: "run_state (parseExpr (tie 7) 0) ?s = (i, s')" by (metis prod.exhaust)
  have f: "fits ?e 0 (front [sym tk_semi, (tk_eof, [])])" "ends 0 (front [sym tk_semi, (tk_eof, [])])"
    by (simp_all add: sym_def ends_def level_def precedences_def right_operand_def)
  have "represents (Pool s') (Interner s') i ?e"
    using parseExpr_reads_back [OF seesD(1-4) [OF s] _ _ f _ _ r] seesD(8,9) [OF s]
    by (simp add: sym_def)
  with r seesD(8) [OF s] show ?thesis by (intro exI [of _ ?s] exI [of _ s'] exI [of _ i]) (simp add: sym_def)
qed



text \<open>C1: a whole file is read back.  A list of declarations, each a constant or a module in a
  file of its own, printed one lexeme to a line, goes through the lexer, the token stream and
  the parser without an error, and the children of the root stand for the declarations, in
  order, with their names, their types and their values.\<close>

theorem parse_file_back:
  assumes "\<forall>d\<in>set ds. written d" "\<forall>(k, s)\<in>set (show_file ds). plain k s"
    "length ds < 65536" "B = print_lines (show_file ds)" "length B < 4294967295"
    "interner_wf I" "length (Strings I) + 8 * length (show_file ds) + 10 \<le> 1073741824"
  shows "\<exists>R I' is. parse (newTokenStream (lex B) B) I = Some (R, I') \<and> ok R
    \<and> kindOf (ResultPool R) (Root R) = Some nk_SourceFile
    \<and> childrenOf (ResultPool R) (Root R) = Some is
    \<and> list_all2 (declares (ResultPool R) I') is ds"
  unfolding assms(4) printed_def [symmetric]
  using file_run [OF assms(1-3) _ assms(6,7)] assms(4,5) by metis

theorem parse_file_back_witness:
  "\<exists>R I' is. parse (newTokenStream
       (lex (print_lines (show_file [DMod ''b'', DConst ''a'' ''T'' (EBinary tk_plus (ELit tk_integer_literal ''1'') (EName ''b''))])))
       (print_lines (show_file [DMod ''b'', DConst ''a'' ''T'' (EBinary tk_plus (ELit tk_integer_literal ''1'') (EName ''b''))])))
       newInterner = Some (R, I')
     \<and> ok R \<and> kindOf (ResultPool R) (Root R) = Some nk_SourceFile
     \<and> childrenOf (ResultPool R) (Root R) = Some is
     \<and> list_all2 (declares (ResultPool R) I') is
         [DMod ''b'', DConst ''a'' ''T'' (EBinary tk_plus (ELit tk_integer_literal ''1'') (EName ''b''))]"
proof -
  let ?ds = "[DMod ''b'', DConst ''a'' ''T'' (EBinary tk_plus (ELit tk_integer_literal ''1'') (EName ''b''))]"
  have f: "\<forall>d\<in>set ?ds. written d"
    by (simp add: ends_def level_def precedences_def right_operand_def literalKinds_def)
  have p: "\<forall>(k, s)\<in>set (show_file ?ds). plain k s"
    using plain_names plain_one by (simp add: show_file_def sym_def)
  from parse_file_back [OF f p _ refl _ interner_wf_new] show ?thesis
    by (simp add: show_file_def sym_def newInterner_def)
qed

end
