(* ===== verification/ChildKinds.thy ===== *)
theory ChildKinds
  imports ParserRound
begin

text \<open>
  The kinds of children.  What may stand under a node of each kind, as the comments of
  \<^verbatim>\<open>NodeKinds.def\<close> and the productions have it: an expression under a return, a type and an
  expression under a cast, doc comments, then declarations, under a module.  A logic of what every
  production yields, whatever the tokens are.  The function \<open>f\<close> gives the kind of every node of the
  final pool, so that what is known of a node is a plain proposition on \<open>f\<close>: \<open>yields f m Q V\<close> says
  that from a state in which \<open>V\<close> is known, \<open>m\<close> ends in one in which some \<open>W\<close> with \<open>Q r W\<close> is.
\<close>

named_theorems yield_rule \<open>introduction rules for yields\<close>

section \<open>Layouts\<close>

type_synonym child_kinds = "node_kind option set"

definition exprs :: child_kinds where
  "exprs = Some ` {nk_BlockExpr, nk_IfExpr, nk_MatchExpr, nk_BinaryExpr, nk_UnaryExpr, nk_CastExpr,
     nk_ProjAssignExpr, nk_CallExpr, nk_IndexExpr, nk_TensorIndexExpr, nk_FieldExpr, nk_TupleIndexExpr,
     nk_StructLitExpr, nk_ArrayLitExpr, nk_ArrayRepeatExpr, nk_TensorLitExpr, nk_TupleExpr,
     nk_IdentExpr, nk_PathExpr, nk_LitExpr, nk_PropagateExpr, nk_WhileStmt, nk_UnsafeBlock, nk_Error}"

definition types :: child_kinds where
  "types = Some ` {nk_NamedType, nk_ArrayType, nk_TensorType, nk_TupleType, nk_Error}"

definition pats :: child_kinds where
  "pats = Some ` {nk_WildcardPat, nk_LiteralPat, nk_IdentPat, nk_StructPat, nk_TuplePat, nk_Error}"

definition stmts :: child_kinds where
  "stmts = exprs \<union> Some ` {nk_LetStmt, nk_RetStmt, nk_ForStmt, nk_BreakStmt, nk_ContinueStmt}"

definition decls :: child_kinds where
  "decls = Some ` {nk_FnDecl, nk_StructDecl, nk_EnumDecl, nk_UnionDecl, nk_ModDecl, nk_ModDeclFile,
     nk_UseDecl, nk_ConstDecl, nk_TraitDecl, nk_ImplDecl, nk_Error}"

definition either_error :: "node_kind set \<Rightarrow> child_kinds" where
  "either_error Ks = Some ` insert nk_Error Ks"

definition just :: "node_kind \<Rightarrow> child_kinds" where
  "just K = {Some K}"

datatype slot = One child_kinds | Opt child_kinds | Many child_kinds

text \<open>A list of kinds, \<open>None\<close> for \<open>NullNode\<close>, fits a list of slots.\<close>

fun matches :: "slot list \<Rightarrow> node_kind option list \<Rightarrow> bool" where
  "matches [] ks \<longleftrightarrow> ks = []"
| "matches (One C # ss) [] \<longleftrightarrow> False"
| "matches (One C # ss) (k # ks) \<longleftrightarrow> k \<in> C \<and> matches ss ks"
| "matches (Opt C # ss) [] \<longleftrightarrow> matches ss []"
| "matches (Opt C # ss) (k # ks) \<longleftrightarrow> matches ss (k # ks) \<or> k \<in> C \<and> matches ss ks"
| "matches (Many C # ss) [] \<longleftrightarrow> matches ss []"
| "matches (Many C # ss) (k # ks) \<longleftrightarrow> matches ss (k # ks) \<or> k \<in> C \<and> matches (Many C # ss) ks"

abbreviation docs :: slot where
  "docs \<equiv> Many (just nk_DocComment)"

abbreviation generics :: slot where
  "generics \<equiv> Opt (just nk_GenericParamList)"

fun general_layout :: "general_node \<Rightarrow> slot list" where
  "general_layout G_SourceFile = [Many (just nk_FileDocComment), Many decls]"
| "general_layout G_ArgList = [Many exprs]"
| "general_layout K = []"

fun decl_layout :: "decl_node \<Rightarrow> slot list" where
  "decl_layout D_FnDecl = [docs, generics, One (just nk_ParamList), Opt types, One {Some nk_BlockExpr, None}]"
| "decl_layout D_StructDecl = [docs, generics, Many (either_error {nk_StructField})]"
| "decl_layout D_EnumDecl = [docs, generics,
     Many (either_error {nk_EnumVariantUnit, nk_EnumVariantTuple, nk_EnumVariantStruct})]"
| "decl_layout D_UnionDecl = [docs, generics, Many (either_error {nk_StructField})]"
| "decl_layout D_ModDecl = [docs, Many decls]"
| "decl_layout D_ModDeclFile = [docs]"
| "decl_layout D_UseDecl = [docs]"
| "decl_layout D_ConstDecl = [docs, One types, One exprs]"
| "decl_layout D_TraitDecl = [docs, generics, Many (just nk_FnDecl)]"
| "decl_layout D_ImplDecl = [docs, generics, One (insert None types), One types, Many (just nk_FnDecl)]"
| "decl_layout D_StructField = [One types]"
| "decl_layout D_EnumVariantUnit = [Opt exprs]"
| "decl_layout D_EnumVariantTuple = [Many types]"
| "decl_layout D_EnumVariantStruct = [Many (either_error {nk_StructField})]"
| "decl_layout D_Param = [One types]"
| "decl_layout D_ParamList = [Many (just nk_Param)]"

fun generic_layout :: "generic_node \<Rightarrow> slot list" where
  "generic_layout N_GenericParam = [One (insert None types)]"
| "generic_layout N_GenericParamList = [Many (either_error {nk_GenericParam})]"
| "generic_layout N_GenericArgList = [Many types]"

fun stmt_layout :: "stmt_node \<Rightarrow> slot list" where
  "stmt_layout S_LetStmt = [Opt types, Opt exprs]"
| "stmt_layout S_RetStmt = [One exprs]"
| "stmt_layout S_ForStmt = [One exprs, One (just nk_BlockExpr)]"
| "stmt_layout S_WhileStmt = [One exprs, One (just nk_BlockExpr)]"
| "stmt_layout S_UnsafeBlock = [Many stmts]"
| "stmt_layout K = []"

fun expr_layout :: "expr_node \<Rightarrow> slot list" where
  "expr_layout E_BlockExpr = [Many stmts]"
| "expr_layout E_IfExpr = [One exprs, One (just nk_BlockExpr), Opt (Some ` {nk_BlockExpr, nk_IfExpr})]"
| "expr_layout E_MatchExpr = [One exprs, Many (just nk_MatchArm)]"
| "expr_layout E_MatchArm = [One pats, One exprs]"
| "expr_layout E_BinaryExpr = [One exprs, One (exprs - {Some nk_Error})]"
| "expr_layout E_UnaryExpr = [One exprs]"
| "expr_layout E_CastExpr = [One exprs, One types]"
| "expr_layout E_ProjAssignExpr = [One exprs, One exprs]"
| "expr_layout E_CallExpr = [One exprs, One (just nk_ArgList)]"
| "expr_layout E_IndexExpr = [One exprs, One exprs]"
| "expr_layout E_TensorIndexExpr = [One exprs, One exprs, One exprs, Many exprs]"
| "expr_layout E_FieldExpr = [One exprs]"
| "expr_layout E_TupleIndexExpr = [One exprs]"
| "expr_layout E_StructLitExpr = [Many (either_error {nk_FieldInit})]"
| "expr_layout E_ArrayLitExpr = [Many exprs]"
| "expr_layout E_ArrayRepeatExpr = [One exprs, One exprs]"
| "expr_layout E_TensorLitExpr = [One exprs, Many exprs]"
| "expr_layout E_TupleExpr = [Many exprs]"
| "expr_layout E_FieldInit = [One exprs]"
| "expr_layout E_PropagateExpr = [One exprs]"
| "expr_layout K = []"

fun type_layout :: "type_node \<Rightarrow> slot list" where
  "type_layout T_ArrayType = [One types, One exprs]"
| "type_layout T_TensorType = [One types, Many exprs]"
| "type_layout T_TupleType = [Many types]"
| "type_layout K = []"

fun pat_layout :: "pat_node \<Rightarrow> slot list" where
  "pat_layout P_StructPat = [Many (either_error {nk_FieldPat})]"
| "pat_layout P_TuplePat = [Many pats]"
| "pat_layout P_FieldPat = [Opt pats]"
| "pat_layout K = []"

primrec layout :: "node_kind \<Rightarrow> slot list" where
  "layout (General K) = general_layout K"
| "layout (Decl K) = decl_layout K"
| "layout (Generic K) = generic_layout K"
| "layout (Stmt K) = stmt_layout K"
| "layout (Expr K) = expr_layout K"
| "layout (Typ K) = type_layout K"
| "layout (Pat K) = pat_layout K"

definition nodes_ok :: "(node_index \<Rightarrow> node_kind option) \<Rightarrow> node_pool \<Rightarrow> bool" where
  "nodes_ok f P \<longleftrightarrow> (\<forall>N\<in>set (Nodes P). matches (layout (NKind N)) (map f (childSlice P N)))"

definition kinds_ok :: "node_pool \<Rightarrow> bool" where
  "kinds_ok P \<longleftrightarrow> nodes_ok (kindOf P) P"

text \<open>No index wrapped around, and no number of children was cut to 16 bits.\<close>

definition slots :: "node_pool \<Rightarrow> nat" where
  "slots P = sum_list (map (\<lambda>N. unat (ChildCount N)) (Nodes P))"

definition fits_words :: "node_pool \<Rightarrow> bool" where
  "fits_words P \<longleftrightarrow> length (Nodes P) < 4294967296 \<and> length (Children P) < 4294967296
     \<and> slots P = length (Children P)"

section \<open>The logic\<close>

definition kinds_of_pool :: "(node_index \<Rightarrow> node_kind option) \<Rightarrow> node_pool \<Rightarrow> bool" where
  "kinds_of_pool f P \<longleftrightarrow> f NullNode = None \<and> (\<forall>j<length (Nodes P). f (of_nat j) = Some (NKind (Nodes P ! j)))"

definition fine :: "(node_index \<Rightarrow> node_kind option) \<Rightarrow> parser_state \<Rightarrow> bool" where
  "fine f s \<longleftrightarrow> \<not> Stuck s \<and> fits_words (Pool s) \<and> kinds_of_pool f (Pool s)"

definition sized :: "parser_state \<Rightarrow> bool" where
  "sized s \<longleftrightarrow> pool_wf (Pool s) \<and> slots (Pool s) \<le> length (Children (Pool s))
     \<and> (length (Children (Pool s)) < 65536 \<longrightarrow> slots (Pool s) = length (Children (Pool s)))"

definition tracks :: "(node_index \<Rightarrow> node_kind option) \<Rightarrow> parser_state \<Rightarrow> bool \<Rightarrow> bool" where
  "tracks f s V \<longleftrightarrow> sized s \<and> (fine f s \<longrightarrow> V \<and> nodes_ok f (Pool s))"

definition yields ::
    "(node_index \<Rightarrow> node_kind option) \<Rightarrow> 'a parser \<Rightarrow> ('a \<Rightarrow> bool \<Rightarrow> bool) \<Rightarrow> bool \<Rightarrow> bool" where
  "yields f m Q V \<longleftrightarrow> (\<forall>s r s'. tracks f s V \<longrightarrow> run_state m s = (r, s') \<longrightarrow> (\<exists>W. Q r W \<and> tracks f s' W))"

lemma yields_I:
  "(\<And>s r s'. \<lbrakk>tracks f s V; run_state m s = (r, s')\<rbrakk> \<Longrightarrow> \<exists>W. Q r W \<and> tracks f s' W) \<Longrightarrow> yields f m Q V"
  by (simp add: yields_def)

lemma yields_D:
  assumes "yields f m Q V" "tracks f s V" "run_state m s = (r, s')"
  obtains W where "Q r W" "tracks f s' W"
  using assms unfolding yields_def by blast

lemma tracks_less: "tracks f s V \<Longrightarrow> (V \<Longrightarrow> W) \<Longrightarrow> tracks f s W"
  by (auto simp: tracks_def)

lemma yields_return [yield_rule]: "Q x V \<Longrightarrow> yields f (State_Monad.return x) Q V"
  by (rule yields_I) (auto simp: State_Monad.return_def)

lemma yields_bind [yield_rule]:
  assumes "yields f m (\<lambda>x. yields f (n x) Q) V"
  shows "yields f (State_Monad.bind m n) Q V"
proof (rule yields_I)
  fix s r s' assume s: "tracks f s V" "run_state (State_Monad.bind m n) s = (r, s')"
  obtain x t where 1: "run_state m s = (x, t)" by (metis prod.exhaust)
  with s(2) have 2: "run_state (n x) t = (r, s')" by (simp add: State_Monad.bind_def)
  obtain W where W: "yields f (n x) Q W" "tracks f t W" by (rule yields_D [OF assms s(1) 1])
  from yields_D [OF W 2] show "\<exists>W. Q r W \<and> tracks f s' W" by blast
qed

lemma yields_if [yield_rule]:
  "\<lbrakk>b \<Longrightarrow> yields f m Q V; \<not> b \<Longrightarrow> yields f m' Q V\<rbrakk> \<Longrightarrow> yields f (if b then m else m') Q V"
  by simp

lemma yields_prod [yield_rule]:
  "(\<And>x y. p = (x, y) \<Longrightarrow> yields f (g x y) Q V) \<Longrightarrow> yields f (case p of (x, y) \<Rightarrow> g x y) Q V"
  by (cases p) simp

lemma yields_option [yield_rule]:
  "\<lbrakk>yields f m Q V; \<And>x. yields f (g x) Q V\<rbrakk> \<Longrightarrow> yields f (case p of None \<Rightarrow> m | Some x \<Rightarrow> g x) Q V"
  by (cases p) simp_all

lemma yields_pre: "yields f m Q W \<Longrightarrow> (V \<Longrightarrow> W) \<Longrightarrow> yields f m Q V"
  unfolding yields_def using tracks_less by blast

lemma yields_mono: "\<lbrakk>yields f m Q V; \<And>r W. Q r W \<Longrightarrow> Q' r W\<rbrakk> \<Longrightarrow> yields f m Q' V"
  unfolding yields_def by blast

lemma yields_forget:
  assumes "yields f m (\<lambda>r W. W \<longrightarrow> V \<and> R r) V" "\<And>r. Q r (V \<and> R r)"
  shows "yields f m Q V"
  using assms tracks_less unfolding yields_def by metis

text \<open>Computations that do not change the pool.\<close>

lemma yields_same:
  assumes "\<And>s r s'. run_state m s = (r, s') \<Longrightarrow> Pool s' = Pool s \<and> (Stuck s \<longrightarrow> Stuck s')"
    and "\<And>r. Q r V"
  shows "yields f m Q V"
proof (rule yields_I)
  fix s r s' assume s: "tracks f s V" "run_state m s = (r, s')"
  have "tracks f s' V" using s(1) assms(1) [OF s(2)] by (auto simp: tracks_def fine_def sized_def)
  with assms(2) show "\<exists>W. Q r W \<and> tracks f s' W" by blast
qed

lemma yields_gets [yield_rule]: "(\<And>x. Q x V) \<Longrightarrow> yields f (gets g) Q V"
  by (rule yields_same) (auto simp: gets_def)

lemma yields_reads [yield_rule]:
  "(\<And>r. Q r V) \<Longrightarrow> yields f (pPeek n) Q V" "(\<And>r. Q' r V) \<Longrightarrow> yields f pPeekToken Q' V"
  "(\<And>r. Q' r V) \<Longrightarrow> yields f pPrevious Q' V" "(\<And>r. Q'' r V) \<Longrightarrow> yields f (pCheck K) Q'' V"
  "(\<And>r. Q'' r V) \<Longrightarrow> yields f pAtEof Q'' V" "(\<And>r. Q3 r V) \<Longrightarrow> yields f pErrorCount Q3 V"
  "(\<And>r. Q4 r V) \<Longrightarrow> yields f (pTextOf S) Q4 V"
  unfolding pPeek_def pPeekToken_def pPrevious_def pCheck_def pAtEof_def pErrorCount_def pTextOf_def
  by (rule yields_gets, blast)+

lemma yields_advance [yield_rule]: "(\<And>r. Q r V) \<Longrightarrow> yields f pAdvance Q V"
  by (rule yields_same) (auto simp: pAdvance_def split: prod.splits)

lemma yields_consume [yield_rule]: "(\<And>r. Q r V) \<Longrightarrow> yields f (pConsume K) Q V"
  by (rule yields_same) (auto simp: pConsume_def split: prod.splits)

lemma yields_diag [yield_rule]: "(\<And>r. Q r V) \<Longrightarrow> yields f (pDiag D) Q V"
  by (rule yields_same) (auto simp: pDiag_def modify_def)

lemma yields_addError [yield_rule]: "(\<And>r. Q r V) \<Longrightarrow> yields f (addError S D) Q V"
  unfolding addError_def by (rule yields_diag)

lemma yields_spanOf [yield_rule]: "(\<And>r. Q r V) \<Longrightarrow> yields f (pSpanOf i) Q V"
  by (rule yields_same) (auto simp: pSpanOf_def split: option.splits)

lemma yields_intern [yield_rule]:
  "(\<And>r. Q r V) \<Longrightarrow> yields f (internText S) Q V" "(\<And>r. Q r V) \<Longrightarrow> yields f (internStr x) Q V"
  by (rule yields_same; auto simp: internText_def internStr_def split: prod.splits)+

text \<open>After \<open>stuck\<close> everything is known.\<close>

lemma yields_stuck [yield_rule]: "Q x W \<Longrightarrow> yields f (stuck x) Q V"
  by (rule yields_I) (auto simp: stuck_def tracks_def fine_def sized_def)

lemma yields_kindOf [yield_rule]:
  assumes "\<And>K. Q K (V \<and> f i = Some K)"
  shows "yields f (pKindOf i) Q V"
proof (rule yields_I)
  fix s K s' assume s: "tracks f s V" "run_state (pKindOf i) s = (K, s')"
  have "tracks f s' (V \<and> f i = Some K)"
  proof (cases "kindOf (Pool s) i")
    case None
    with s show ?thesis by (auto simp: pKindOf_def tracks_def fine_def sized_def)
  next
    case (Some K')
    then have "K' = K" "s' = s" using s(2) by (simp_all add: pKindOf_def)
    moreover have "f i = Some K'" if "fine f s"
    proof -
      have "unat i < length (Nodes (Pool s))" "NKind (Nodes (Pool s) ! unat i) = K'"
        using Some by (auto simp: kindOf_def nodeAt_def split: if_splits)
      with that have "f (of_nat (unat i)) = Some K'" unfolding fine_def kinds_of_pool_def by blast
      then show ?thesis by simp
    qed
    ultimately show ?thesis using s(1) by (auto simp: tracks_def)
  qed
  with assms show "\<exists>W. Q K W \<and> tracks f s' W" by blast
qed

text \<open>A new node: its children are exactly those it was given, as long as nothing was cut off.\<close>

lemma alloc_slots:
  assumes "alloc K S ks p fl P = (i, P')"
  shows "slots P' = slots P + unat (of_nat (length ks) :: u16)"
  using alloc_eqs(4) [OF assms] by (simp add: slots_def)

lemma childSlice_old:
  assumes "pool_wf P" "alloc K S ks p fl P = (i, P')" "N \<in> set (Nodes P)"
  shows "childSlice P' N = childSlice P N"
proof -
  have "unat (ChildrenBegin N) + unat (ChildCount N) \<le> length (Children P)"
    using assms(1,3) unfolding pool_wf_def by blast
  then show ?thesis by (simp add: childSlice_def alloc_eqs(2) [OF assms(2)])
qed

lemma tracks_alloc:
  assumes "tracks f s V" "alloc K S ks p fl (Pool s) = (i, P)"
    "\<lbrakk>V; f NullNode = None\<rbrakk> \<Longrightarrow> matches (layout K) (map f ks)"
  shows "tracks f (s \<lparr> Pool := P \<rparr>) (V \<and> f i = Some K)"
proof -
  let ?P = "Pool s" and ?t = "s \<lparr> Pool := P \<rparr>"
  note e = alloc_eqs [OF assms(2)]
  have wf: "pool_wf ?P" "slots ?P \<le> length (Children ?P)" using assms(1) by (simp_all add: tracks_def sized_def)
  have cut: "unat (of_nat (length ks) :: u16) \<le> length ks" by (rule unat_of_nat16_le)
  have sz: "sized ?t"
    using assms(1) cut alloc_wf [OF wf(1), of K S ks p fl] assms(2)
    by (auto simp: tracks_def sized_def alloc_slots [OF assms(2)] e(2) unat_of_nat take_bit_nat_eq_self)
  have "f i = Some K \<and> fine f s \<and> (V \<longrightarrow> nodes_ok f ?P \<longrightarrow> nodes_ok f P)" if t: "fine f ?t"
  proof -
    have w: "length (Nodes P) < 4294967296" "length (Children P) < 4294967296" "slots P = length (Children P)"
      "\<And>j. j < length (Nodes P) \<Longrightarrow> f (of_nat j) = Some (NKind (Nodes P ! j))" "f NullNode = None"
      using t by (simp_all add: fine_def fits_words_def kinds_of_pool_def)
    have exact: "unat (of_nat (length ks) :: u16) = length ks" "slots ?P = length (Children ?P)"
      using w(3) wf(2) cut by (simp_all add: alloc_slots [OF assms(2)] e(2))
    have i: "f i = Some K" using w(4) [of "length (Nodes ?P)"] by (simp add: e(1,4))
    have "f (of_nat j) = Some (NKind (Nodes ?P ! j))" if "j < length (Nodes ?P)" for j
      using w(4) [of j] that by (simp add: e(4) nth_append)
    then have s: "fine f s"
      using t exact(2) w by (simp add: fine_def fits_words_def kinds_of_pool_def e)
    let ?N = "\<lparr> NKind = K, ChildCount = of_nat (length ks), ChildrenBegin = of_nat (length (Children ?P)),
       NPayload = p, NFlags = fl \<rparr>"
    have "unat (of_nat (length (Children ?P)) :: u32) = length (Children ?P)"
      using w(2) by (simp add: e(2) unat_of_nat take_bit_nat_eq_self)
    then have "childSlice P ?N = ks" using exact(1) by (simp add: childSlice_def e(2))
    then have "nodes_ok f P" if "V" "nodes_ok f ?P"
      using that assms(3) w(5) childSlice_old [OF wf(1) assms(2)] by (auto simp: nodes_ok_def e(4))
    with i s show ?thesis by blast
  qed
  with assms(1) sz show ?thesis by (auto simp: tracks_def)
qed

lemma yields_alloc [yield_rule]:
  assumes "\<lbrakk>V; f NullNode = None\<rbrakk> \<Longrightarrow> matches (layout K) (map f ks)" "\<And>i. Q i (V \<and> f i = Some K)"
  shows "yields f (pAlloc K S ks p fl) Q V"
proof (rule yields_I)
  fix s i s' assume s: "tracks f s V" "run_state (pAlloc K S ks p fl) s = (i, s')"
  then obtain P where "alloc K S ks p fl (Pool s) = (i, P)" "s' = s \<lparr> Pool := P \<rparr>"
    by (auto simp: pAlloc_def split: prod.splits)
  with tracks_alloc [OF s(1) _ assms(1)] assms(2) show "\<exists>W. Q i W \<and> tracks f s' W" by blast
qed

lemma yields_allocLeaf [yield_rule]:
  "\<lbrakk>matches (layout K) []; \<And>i. Q i (V \<and> f i = Some K)\<rbrakk> \<Longrightarrow> yields f (pAllocLeaf K S p) Q V"
  unfolding pAllocLeaf_def by (rule yields_alloc) simp_all

lemma yields_error [yield_rule]:
  "(\<And>i. Q i (V \<and> f i = Some nk_Error)) \<Longrightarrow> yields f (makeErrorNode S) Q V"
  unfolding makeErrorNode_def by (rule yields_allocLeaf) simp_all

lemma yields_withStructLit [yield_rule]:
  assumes "yields f m Q V"
  shows "yields f (withStructLit v m) Q V"
proof (rule yields_I)
  fix s r s' assume s: "tracks f s V" "run_state (withStructLit v m) s = (r, s')"
  obtain t where t: "run_state m (s \<lparr> StructLitAllowed := v \<rparr>) = (r, t)"
    "s' = t \<lparr> StructLitAllowed := StructLitAllowed s \<rparr>"
    using s(2) by (auto simp: withStructLit_def gets_def modify_def State_Monad.bind_def
        State_Monad.return_def split: prod.splits)
  have same: "tracks f (u \<lparr> StructLitAllowed := b \<rparr>) W = tracks f u W" for u b W
    by (simp add: tracks_def sized_def fine_def)
  from yields_D [OF assms _ t(1)] s(1) same obtain W where "Q r W" "tracks f t W" by metis
  then show "\<exists>W. Q r W \<and> tracks f s' W" unfolding t(2) same by blast
qed

text \<open>A loop keeps what is known and an invariant of its variable.\<close>

lemma yields_loopN:
  fixes body :: "'a \<Rightarrow> (bool \<times> 'a) parser"
  assumes "\<And>x. yields f (body x) (\<lambda>p W. W \<longrightarrow> V \<and> J (snd p)) (V \<and> J x)" "\<And>y. Q y (V \<and> J y)"
  shows "yields f (loopN n body x) Q (V \<and> J x)"
proof (induction n arbitrary: x)
  case 0
  show ?case unfolding loopN.simps by (rule yields_stuck) (rule assms(2))
next
  case (Suc n)
  show ?case
    unfolding loopN.simps
  proof (rule yields_bind, rule yields_mono [OF assms(1)], rule yields_pre)
    fix p :: "bool \<times> 'a" and W assume W: "W \<longrightarrow> V \<and> J (snd p)"
    show "yields f (case p of (again, y) \<Rightarrow> if again then loopN n body y else State_Monad.return y) Q (V \<and> J (snd p))"
      by (cases p) (simp add: Suc.IH yields_return assms(2))
    show "V \<and> J (snd p)" if W using W that by blast
  qed
qed

lemma yields_loopP:
  assumes "\<And>x. yields f (body x) (\<lambda>p W. W \<longrightarrow> V \<and> J (snd p)) (V \<and> J x)" "V \<Longrightarrow> J x"
    "\<And>y. Q y (V \<and> J y)"
  shows "yields f (loopP body x) Q V"
proof -
  have "yields f (loopP body x) Q (V \<and> J x)"
    unfolding loopP_def by (intro yields_bind yields_gets yields_loopN [OF assms(1)] assms(3))
  then show ?thesis by (rule yields_pre) (use assms(2) in blast)
qed

section \<open>Children in lists\<close>

definition all_in :: "(node_index \<Rightarrow> node_kind option) \<Rightarrow> child_kinds \<Rightarrow> node_index list \<Rightarrow> bool" where
  "all_in f C ks \<longleftrightarrow> (\<forall>k\<in>set ks. f k \<in> C)"

definition longer :: "(node_index \<Rightarrow> node_kind option) \<Rightarrow> child_kinds \<Rightarrow> node_index list \<Rightarrow> node_index list \<Rightarrow> bool" where
  "longer f C Kids Ks \<longleftrightarrow> (\<exists>more. Ks = Kids @ more \<and> all_in f C more)"

lemma all_in_simps [simp]:
  "all_in f C []" "all_in f C (k # ks) \<longleftrightarrow> f k \<in> C \<and> all_in f C ks"
  "all_in f C (ks @ ls) \<longleftrightarrow> all_in f C ks \<and> all_in f C ls"
  by (auto simp: all_in_def)

lemma longer_Nil [simp]: "longer f C [] Ks \<longleftrightarrow> all_in f C Ks"
  by (simp add: longer_def)

lemma longer_refl [simp]: "longer f C Kids Kids"
  by (simp add: longer_def)

lemma longer_snoc [simp]: "longer f C Kids Ks \<Longrightarrow> f k \<in> C \<Longrightarrow> longer f C Kids (Ks @ [k])"
  unfolding longer_def by (metis all_in_simps append.assoc)

lemma matches_none [simp]: "matches ss ks \<Longrightarrow> matches (Many C # ss) ks" "matches ss ks \<Longrightarrow> matches (Opt C # ss) ks"
  by (cases ks; simp)+

lemma matches_many [simp]:
  "all_in f C ks \<Longrightarrow> matches (Many C # ss) xs \<Longrightarrow> matches (Many C # ss) (map f ks @ xs)"
  by (induction ks) simp_all

lemma matches_many_end [simp]: "all_in f C ks \<Longrightarrow> matches (Many C # []) (map f ks)"
  using matches_many [of f C ks "[]" "[]"] by simp

lemma matches_some [simp]:
  "\<lbrakk>ks \<noteq> []; all_in f C ks\<rbrakk> \<Longrightarrow> matches (One C # Many C # []) (map f ks)"
  by (cases ks) simp_all

lemma matches_generic [simp]:
  "\<lbrakk>g = NullNode \<or> f g \<in> C; matches ss xs\<rbrakk> \<Longrightarrow> matches (Opt C # ss) (map f (genericChild g) @ xs)"
  by (auto simp: genericChild_def)

lemma yields_parseUntil:
  assumes "\<And>W. yields f E (\<lambda>r W'. W' \<longrightarrow> W \<and> f r \<in> C) W" "\<And>Ks. Q Ks (V \<and> longer f C Kids Ks)"
  shows "yields f (parseUntil Close E Kids) Q V"
  unfolding parseUntil_def
  by (rule yields_loopP [where J = "longer f C Kids"]; (intro yield_rule yields_mono [OF assms(1)])?)
    (auto intro: assms(2) yields_return)

lemma yields_parseMore:
  assumes "\<And>W. yields f E (\<lambda>r W'. W' \<longrightarrow> W \<and> f r \<in> C) W" "\<And>Ks. Q Ks (V \<and> longer f C Kids Ks)"
  shows "yields f (parseMore Stops E Kids) Q V"
  unfolding parseMore_def
  by (rule yields_loopP [where J = "longer f C Kids"]; (intro yield_rule yields_mono [OF assms(1)])?)
    (auto intro: assms(2) yields_return)

lemma yields_loop_plain:
  assumes "\<And>x. yields f (body x) (\<lambda>p W. W \<longrightarrow> V) V" "\<And>y. Q y V"
  shows "yields f (loopP body x) Q V"
  by (rule yields_loopP [where J = "\<lambda>_. True"]) (use assms in simp_all)

section \<open>Helpers of the parser\<close>

lemma yields_expectIn [yield_rule]: "(\<And>r. Q r V) \<Longrightarrow> yields f (expectIn K D C) Q V"
  unfolding expectIn_def Let_def by (intro yield_rule)

lemma yields_expect [yield_rule]: "(\<And>r. Q r V) \<Longrightarrow> yields f (expect K D) Q V"
  unfolding expect_def by (rule yields_expectIn)

lemma yields_expectAndIntern [yield_rule]: "(\<And>r. Q r V) \<Longrightarrow> yields f (expectAndIntern K D) Q V"
  unfolding expectAndIntern_def by (intro yield_rule)

lemma yields_expectName [yield_rule]: "(\<And>r. Q r V) \<Longrightarrow> yields f (expectName K C) Q V"
  unfolding expectName_def Let_def by (intro yield_rule)

lemma yields_skipTo [yield_rule]: "(\<And>r. Q r V) \<Longrightarrow> yields f (skipTo Ks) Q V"
  unfolding skipTo_def by (rule yields_loop_plain; (intro yield_rule)?) simp_all

lemma yields_skipSeparators [yield_rule]: "(\<And>r. Q r V) \<Longrightarrow> yields f skipSeparators Q V"
  unfolding skipSeparators_def by (rule yields_loop_plain; (intro yield_rule)?) simp_all

lemma yields_path [yield_rule]: "(\<And>r. Q r V) \<Longrightarrow> yields f (parsePathSegments S) Q V"
  unfolding parsePathSegments_def by (rule yields_loop_plain; (intro yield_rule)?) simp_all

lemma yields_synchronize [yield_rule]: "(\<And>r. Q r V) \<Longrightarrow> yields f synchronize Q V"
  unfolding synchronize_def by (intro yield_rule yields_loop_plain) simp_all

lemma yields_regime [yield_rule]: "(\<And>r. Q r V) \<Longrightarrow> yields f parseRegime Q V"
  unfolding parseRegime_def by (intro yield_rule)

lemma yields_comma:
  assumes "\<And>W. yields f E (\<lambda>r W'. W' \<longrightarrow> W \<and> f r \<in> C) W" "\<And>Ks. Q Ks (V \<and> longer f C Kids Ks)"
  shows "yields f (parseCommaSeparated Kids Close E) Q V"
  unfolding parseCommaSeparated_def using assms(2) [of Kids]
  by (intro yield_rule yields_loopP [where J = "longer f C Kids"] yields_mono [OF assms(1)];
      (intro yield_rule)?)
    (auto intro: assms(2) yields_pre [OF yields_return])

lemma in_just: "x \<in> just K \<longleftrightarrow> x = Some K"
  by (simp add: just_def)

lemma yields_comments:
  assumes "layout NK = []" "\<And>Ks. Q Ks (V \<and> all_in f (just NK) Ks)"
  shows "yields f (parseComments K NK) Q V"
  unfolding parseComments_def
  by (rule yields_loopP [where J = "all_in f (just NK)"]; (intro yield_rule)?)
    (auto simp: assms(1) in_just intro: assms(2))

lemma yields_docs [yield_rule]:
  "(\<And>Ks. Q Ks (V \<and> all_in f (just nk_DocComment) Ks)) \<Longrightarrow> yields f parseDocComments Q V"
  "(\<And>Ks. Q Ks (V \<and> all_in f (just nk_FileDocComment) Ks)) \<Longrightarrow> yields f parseFileDocComments Q V"
  unfolding parseDocComments_def parseFileDocComments_def by (rule yields_comments; simp)+

section \<open>Productions\<close>

primrec kinds_of :: "nonterm \<Rightarrow> child_kinds" where
  "kinds_of (CExpr m) = exprs"
| "kinds_of CType = types"
| "kinds_of CPat = pats"
| "kinds_of CStmt = stmts"
| "kinds_of CIf = just nk_IfExpr"
| "kinds_of CTopLevel = decls"

definition calls_yield :: "(node_index \<Rightarrow> node_kind option) \<Rightarrow> calls \<Rightarrow> bool" where
  "calls_yield f call \<longleftrightarrow> (\<forall>nt Q V. (\<forall>i. Q i (V \<and> f i \<in> kinds_of nt)) \<longrightarrow> yields f (call nt) Q V)"

lemma yields_call: "\<lbrakk>calls_yield f call; \<And>i. Q i (V \<and> f i \<in> kinds_of nt)\<rbrakk> \<Longrightarrow> yields f (call nt) Q V"
  by (simp add: calls_yield_def)

lemma in_kinds [simp]:
  "Some K \<in> exprs \<longleftrightarrow> K \<in> {nk_BlockExpr, nk_IfExpr, nk_MatchExpr, nk_BinaryExpr, nk_UnaryExpr, nk_CastExpr,
     nk_ProjAssignExpr, nk_CallExpr, nk_IndexExpr, nk_TensorIndexExpr, nk_FieldExpr, nk_TupleIndexExpr,
     nk_StructLitExpr, nk_ArrayLitExpr, nk_ArrayRepeatExpr, nk_TensorLitExpr, nk_TupleExpr,
     nk_IdentExpr, nk_PathExpr, nk_LitExpr, nk_PropagateExpr, nk_WhileStmt, nk_UnsafeBlock, nk_Error}"
  "Some K \<in> types \<longleftrightarrow> K \<in> {nk_NamedType, nk_ArrayType, nk_TensorType, nk_TupleType, nk_Error}"
  "Some K \<in> pats \<longleftrightarrow> K \<in> {nk_WildcardPat, nk_LiteralPat, nk_IdentPat, nk_StructPat, nk_TuplePat, nk_Error}"
  "Some K \<in> decls \<longleftrightarrow> K \<in> {nk_FnDecl, nk_StructDecl, nk_EnumDecl, nk_UnionDecl, nk_ModDecl, nk_ModDeclFile,
     nk_UseDecl, nk_ConstDecl, nk_TraitDecl, nk_ImplDecl, nk_Error}"
  "Some K \<in> either_error Ks \<longleftrightarrow> K = nk_Error \<or> K \<in> Ks"
  "x \<in> stmts \<longleftrightarrow> x \<in> exprs \<or> x \<in> Some ` {nk_LetStmt, nk_RetStmt, nk_ForStmt, nk_BreakStmt, nk_ContinueStmt}"
  "x \<in> just K \<longleftrightarrow> x = Some K"
  by (auto simp: exprs_def types_def pats_def decls_def either_error_def stmts_def just_def)

text \<open>A type.\<close>

lemma yields_class:
  "\<lbrakk>\<And>r. Q r (V \<and> R r); yields f m (\<lambda>r W. W \<longrightarrow> V \<and> R r) V\<rbrakk> \<Longrightarrow> yields f m Q V"
  by (rule yields_forget)

lemma yields_parseTupleType [yield_rule]:
  "\<lbrakk>calls_yield f call; \<And>r. Q r (V \<and> f r \<in> types)\<rbrakk> \<Longrightarrow> yields f (parseTupleType call) Q V"
  unfolding parseTupleType_def
  by (erule yields_class, intro yield_rule yields_comma [where C = types] yields_call [of f call]) auto

lemma yields_parseNamedType [yield_rule]:
  "(\<And>r. Q r (V \<and> f r \<in> types)) \<Longrightarrow> yields f parseNamedType Q V"
  unfolding parseNamedType_def
  by (erule yields_class, intro yield_rule) auto

lemma yields_parseArrayType [yield_rule]:
  "\<lbrakk>calls_yield f call; \<And>r. Q r (V \<and> f r \<in> types)\<rbrakk> \<Longrightarrow> yields f (parseArrayType call) Q V"
  unfolding parseArrayType_def parseConstExpr_def
  by (erule yields_class, intro yield_rule yields_call [of f call]) auto

lemma yields_parseTensorType [yield_rule]:
  "\<lbrakk>calls_yield f call; \<And>r. Q r (V \<and> f r \<in> types)\<rbrakk> \<Longrightarrow> yields f (parseTensorType call) Q V"
  unfolding parseTensorType_def parseConstExpr_def
  by (erule yields_class, intro yield_rule yields_comma [where C = exprs] yields_call [of f call]) (auto simp: longer_def)

lemma yields_parseType [yield_rule]:
  "\<lbrakk>calls_yield f call; \<And>r. Q r (V \<and> f r \<in> types)\<rbrakk> \<Longrightarrow> yields f (parseType call) Q V"
  unfolding parseType_def by (intro yield_rule)

text \<open>Generic parameters.\<close>

lemma yields_parseGenericParam [yield_rule]:
  "\<lbrakk>calls_yield f call; \<And>r. Q r (V \<and> f r \<in> either_error {nk_GenericParam})\<rbrakk> \<Longrightarrow> yields f (parseGenericParam call) Q V"
  unfolding parseGenericParam_def
  by (erule yields_class, intro yield_rule yields_call [of f call]) auto

lemma yields_parseGenericParams [yield_rule]:
  "\<lbrakk>calls_yield f call; \<And>r. Q r (V \<and> (r = NullNode \<or> f r = Some nk_GenericParamList))\<rbrakk> \<Longrightarrow> yields f (parseGenericParams call) Q V"
  unfolding parseGenericParams_def
  by (erule yields_class, intro yield_rule yields_parseMore [where C = "either_error {nk_GenericParam}"] yields_call [of f call]) (auto simp: longer_def)

lemma yields_parseGenericArgs [yield_rule]:
  "\<lbrakk>calls_yield f call; \<And>r. Q r (V \<and> f r \<in> just nk_GenericArgList)\<rbrakk> \<Longrightarrow> yields f (parseGenericArgs call) Q V"
  unfolding parseGenericArgs_def
  by (erule yields_class, intro yield_rule yields_parseMore [where C = types] yields_call [of f call]) (auto simp: longer_def)

text \<open>Patterns.\<close>

lemma yields_parseFieldPat [yield_rule]:
  "\<lbrakk>calls_yield f call; \<And>r. Q r (V \<and> f r \<in> either_error {nk_FieldPat})\<rbrakk> \<Longrightarrow> yields f (parseFieldPat call) Q V"
  unfolding parseFieldPat_def
  by (erule yields_class, intro yield_rule yields_call [of f call]) auto

lemma yields_parseStructPat [yield_rule]:
  "\<lbrakk>calls_yield f call; \<And>r. Q r (V \<and> f r \<in> pats)\<rbrakk> \<Longrightarrow> yields f (parseStructPat call N S) Q V"
  unfolding parseStructPat_def
  by (erule yields_class, intro yield_rule yields_comma [where C = "either_error {nk_FieldPat}"] yields_call [of f call]) auto

lemma yields_parseTuplePat [yield_rule]:
  "\<lbrakk>calls_yield f call; \<And>r. Q r (V \<and> f r \<in> pats)\<rbrakk> \<Longrightarrow> yields f (parseTuplePat call N S) Q V"
  unfolding parseTuplePat_def
  by (erule yields_class, intro yield_rule yields_comma [where C = pats] yields_call [of f call]) auto

lemma yields_parsePat [yield_rule]:
  "\<lbrakk>calls_yield f call; \<And>r. Q r (V \<and> f r \<in> pats)\<rbrakk> \<Longrightarrow> yields f (parsePat call) Q V"
  unfolding parsePat_def
  by (erule yields_class, intro yield_rule yields_call [of f call]) auto

text \<open>Blocks.\<close>

lemma yields_parseBlockExpr [yield_rule]:
  "\<lbrakk>calls_yield f call; \<And>r. Q r (V \<and> f r \<in> just nk_BlockExpr)\<rbrakk> \<Longrightarrow> yields f (parseBlockExpr call) Q V"
  unfolding parseBlockExpr_def
  by (erule yields_class, intro yield_rule yields_parseUntil [where C = stmts] yields_call [of f call]) auto

lemma yields_parseUnsafeBlock [yield_rule]:
  "\<lbrakk>calls_yield f call; \<And>r. Q r (V \<and> f r \<in> just nk_UnsafeBlock)\<rbrakk> \<Longrightarrow> yields f (parseUnsafeBlock call) Q V"
  unfolding parseUnsafeBlock_def
  by (erule yields_class, intro yield_rule yields_parseUntil [where C = stmts] yields_call [of f call]) auto

lemma yields_parseIfExpr [yield_rule]:
  "\<lbrakk>calls_yield f call; \<And>r. Q r (V \<and> f r \<in> just nk_IfExpr)\<rbrakk> \<Longrightarrow> yields f (parseIfExpr call) Q V"
  unfolding parseIfExpr_def
  by (erule yields_class, intro yield_rule yields_call [of f call]) auto

lemma yields_parseWhileStmt [yield_rule]:
  "\<lbrakk>calls_yield f call; \<And>r. Q r (V \<and> f r \<in> just nk_WhileStmt)\<rbrakk> \<Longrightarrow> yields f (parseWhileStmt call) Q V"
  unfolding parseWhileStmt_def
  by (erule yields_class, intro yield_rule yields_call [of f call]) auto

lemma yields_parseMatchArm [yield_rule]:
  "\<lbrakk>calls_yield f call; \<And>r. Q r (V \<and> f r \<in> just nk_MatchArm)\<rbrakk> \<Longrightarrow> yields f (parseMatchArm call) Q V"
  unfolding parseMatchArm_def
  by (erule yields_class, intro yield_rule yields_call [of f call]) auto

lemma yields_parseMatchExpr [yield_rule]:
  "\<lbrakk>calls_yield f call; \<And>r. Q r (V \<and> f r \<in> just nk_MatchExpr)\<rbrakk> \<Longrightarrow> yields f (parseMatchExpr call) Q V"
  unfolding parseMatchExpr_def
  by (erule yields_class, intro yield_rule yields_parseUntil [where C = "just nk_MatchArm"] yields_call [of f call]) auto

text \<open>Expressions.\<close>

lemma yields_parseLitExpr [yield_rule]:
  "(\<And>r. Q r (V \<and> f r \<in> exprs)) \<Longrightarrow> yields f (parseLitExpr T) Q V"
  unfolding parseLitExpr_def
  by (erule yields_class, intro yield_rule) auto

lemma yields_parseArgList [yield_rule]:
  "\<lbrakk>calls_yield f call; \<And>r. Q r (V \<and> f r \<in> just nk_ArgList)\<rbrakk> \<Longrightarrow> yields f (parseArgList call) Q V"
  unfolding parseArgList_def
  by (erule yields_class, intro yield_rule yields_parseMore [where C = exprs] yields_call [of f call]) (auto simp: longer_def)

lemma yields_parseFieldInit [yield_rule]:
  "\<lbrakk>calls_yield f call; \<And>r. Q r (V \<and> f r \<in> either_error {nk_FieldInit})\<rbrakk> \<Longrightarrow> yields f (parseFieldInit call) Q V"
  unfolding parseFieldInit_def
  by (erule yields_class, intro yield_rule yields_call [of f call]) auto

lemma yields_parseStructLitExpr [yield_rule]:
  "\<lbrakk>calls_yield f call; \<And>r. Q r (V \<and> f r \<in> exprs)\<rbrakk> \<Longrightarrow> yields f (parseStructLitExpr call N S) Q V"
  unfolding parseStructLitExpr_def
  by (erule yields_class, intro yield_rule yields_comma [where C = "either_error {nk_FieldInit}"] yields_call [of f call]) auto

lemma yields_parseArrayLitExpr [yield_rule]:
  "\<lbrakk>calls_yield f call; \<And>r. Q r (V \<and> f r \<in> exprs)\<rbrakk> \<Longrightarrow> yields f (parseArrayLitExpr call) Q V"
  unfolding parseArrayLitExpr_def parseConstExpr_def
  by (erule yields_class, intro yield_rule yields_parseMore [where C = exprs] yields_call [of f call]) (auto simp: longer_def)

lemma yields_parseTensorLitExpr [yield_rule]:
  "\<lbrakk>calls_yield f call; \<And>r. Q r (V \<and> f r \<in> exprs)\<rbrakk> \<Longrightarrow> yields f (parseTensorLitExpr call) Q V"
  unfolding parseTensorLitExpr_def parseConstExpr_def Let_def
  by (erule yields_class, intro yield_rule yields_parseMore [where C = exprs] yields_comma [where C = exprs] yields_call [of f call]) (auto simp: longer_def)

lemma yields_from:
  "\<lbrakk>V \<Longrightarrow> A; \<And>r. Q r (V \<and> R r); yields f m (\<lambda>r W. W \<longrightarrow> V \<and> R r) (V \<and> A)\<rbrakk> \<Longrightarrow> yields f m Q V"
  by (rule yields_forget) (rule yields_pre [of f m _ "V \<and> A"], auto)

lemma yields_parsePostfixIndex [yield_rule]:
  "\<lbrakk>calls_yield f call; V \<Longrightarrow> f i \<in> exprs; \<And>r. Q r (V \<and> f r \<in> exprs)\<rbrakk> \<Longrightarrow> yields f (parsePostfixIndex call i) Q V"
  unfolding parsePostfixIndex_def Let_def
  by (rule yields_from [where A = "f i \<in> exprs" and R = "\<lambda>r. f r \<in> exprs"]; (intro yield_rule yields_parseMore [where C = exprs] yields_call [of f call])?) (auto simp: longer_def)

lemma yields_parseFieldAccess [yield_rule]:
  "\<lbrakk>V \<Longrightarrow> f i \<in> exprs; \<And>r. Q r (V \<and> f r \<in> exprs)\<rbrakk> \<Longrightarrow> yields f (parseFieldAccess i) Q V"
  unfolding parseFieldAccess_def
  by (rule yields_from [where A = "f i \<in> exprs" and R = "\<lambda>r. f r \<in> exprs"]; (intro yield_rule)?) auto

lemma yields_parseTupleIndex [yield_rule]:
  "\<lbrakk>V \<Longrightarrow> f i \<in> exprs; \<And>r. Q r (V \<and> f r \<in> exprs)\<rbrakk> \<Longrightarrow> yields f (parseTupleIndex i S x) Q V"
  unfolding parseTupleIndex_def
  by (rule yields_from [where A = "f i \<in> exprs" and R = "\<lambda>r. f r \<in> exprs"]; (intro yield_rule)?) auto

lemma yields_parseDot [yield_rule]:
  "\<lbrakk>V \<Longrightarrow> f i \<in> exprs; \<And>r. Q r (V \<and> f r \<in> exprs)\<rbrakk> \<Longrightarrow> yields f (parseDot i) Q V"
  unfolding parseDot_def
  by (rule yields_from [where A = "f i \<in> exprs" and R = "\<lambda>r. f r \<in> exprs"]; (intro yield_rule)?) auto

lemma yields_parsePostfix [yield_rule]:
  "\<lbrakk>calls_yield f call; V \<Longrightarrow> f i \<in> exprs; \<And>r. Q r (V \<and> f (snd r) \<in> exprs)\<rbrakk> \<Longrightarrow> yields f (parsePostfix call i) Q V"
  unfolding parsePostfix_def
  by (rule yields_from [where A = "f i \<in> exprs" and R = "\<lambda>r. f (snd r) \<in> exprs"]; (intro yield_rule yields_call [of f call])?) auto

lemma yields_parsePostfixOrCallExpr [yield_rule]:
  "\<lbrakk>calls_yield f call; V \<Longrightarrow> f i \<in> exprs; \<And>r. Q r (V \<and> f r \<in> exprs)\<rbrakk> \<Longrightarrow> yields f (parsePostfixOrCallExpr call i) Q V"
  unfolding parsePostfixOrCallExpr_def
  by (rule yields_loopP [where J = "\<lambda>i. f i \<in> exprs"]; (intro yield_rule)?) auto

lemma yields_parseParenExpr [yield_rule]:
  "\<lbrakk>calls_yield f call; \<And>r. Q r (V \<and> f r \<in> exprs)\<rbrakk> \<Longrightarrow> yields f (parseParenExpr call T) Q V"
  unfolding parseParenExpr_def
  by (erule yields_class, intro yield_rule yields_parseMore [where C = exprs] yields_call [of f call]) (auto simp: longer_def)

lemma yields_parseNameExpr [yield_rule]:
  "\<lbrakk>calls_yield f call; \<And>r. Q r (V \<and> f r \<in> exprs)\<rbrakk> \<Longrightarrow> yields f (parseNameExpr call T) Q V"
  unfolding parseNameExpr_def
  by (erule yields_class, intro yield_rule yields_call [of f call]) auto

lemma yields_parseUnaryExpr [yield_rule]:
  "\<lbrakk>calls_yield f call; \<And>r. Q r (V \<and> f r \<in> exprs)\<rbrakk> \<Longrightarrow> yields f (parseUnaryExpr call T) Q V"
  unfolding parseUnaryExpr_def Let_def
  by (erule yields_class, intro yield_rule yields_call [of f call]) auto

lemma yields_parseStarExpr [yield_rule]:
  "\<lbrakk>calls_yield f call; \<And>r. Q r (V \<and> f r \<in> exprs)\<rbrakk> \<Longrightarrow> yields f (parseStarExpr call T) Q V"
  unfolding parseStarExpr_def Let_def
  by (erule yields_class, intro yield_rule yields_call [of f call]) auto

lemma yields_parsePrefixExpr [yield_rule]:
  "\<lbrakk>calls_yield f call; \<And>r. Q r (V \<and> f r \<in> exprs)\<rbrakk> \<Longrightarrow> yields f (parsePrefixExpr call) Q V"
  unfolding parsePrefixExpr_def Let_def
  by (erule yields_class, intro yield_rule yields_call [of f call]) auto

lemma yields_parseInfix [yield_rule]:
  "\<lbrakk>calls_yield f call; V \<Longrightarrow> f i \<in> exprs; \<And>r. Q r (V \<and> f (snd r) \<in> exprs)\<rbrakk> \<Longrightarrow> yields f (parseInfix call m i) Q V"
  unfolding parseInfix_def Let_def
  by (rule yields_from [where A = "f i \<in> exprs" and R = "\<lambda>r. f (snd r) \<in> exprs"]; (intro yield_rule yields_call [of f call])?) (auto split: prod.splits)

lemma yields_parseExpr [yield_rule]:
  "\<lbrakk>calls_yield f call; \<And>r. Q r (V \<and> f r \<in> exprs)\<rbrakk> \<Longrightarrow> yields f (parseExpr call m) Q V"
  unfolding parseExpr_def
  by (erule yields_class, intro yield_rule yields_loopP [where J = "\<lambda>i. f i \<in> exprs"]) auto

text \<open>Statements.\<close>

lemma yields_endLetStmt [yield_rule]: "(\<And>r. Q r V) \<Longrightarrow> yields f (endLetStmt ks) Q V"
  unfolding endLetStmt_def Let_def
  by (rule yields_forget [where R = "\<lambda>_. True"], intro yield_rule) auto

lemma yields_parseLetStmt [yield_rule]:
  "\<lbrakk>calls_yield f call; \<And>r. Q r (V \<and> f r \<in> stmts)\<rbrakk> \<Longrightarrow> yields f (parseLetStmt call) Q V"
  unfolding parseLetStmt_def
  by (erule yields_class, intro yield_rule yields_call [of f call]) auto

lemma yields_parseRetStmt [yield_rule]:
  "\<lbrakk>calls_yield f call; \<And>r. Q r (V \<and> f r \<in> stmts)\<rbrakk> \<Longrightarrow> yields f (parseRetStmt call) Q V"
  unfolding parseRetStmt_def
  by (erule yields_class, intro yield_rule yields_call [of f call]) auto

lemma yields_parseForStmt [yield_rule]:
  "\<lbrakk>calls_yield f call; \<And>r. Q r (V \<and> f r \<in> stmts)\<rbrakk> \<Longrightarrow> yields f (parseForStmt call) Q V"
  unfolding parseForStmt_def
  by (erule yields_class, intro yield_rule yields_call [of f call]) auto

lemma yields_parseBreakStmt [yield_rule]:
  "(\<And>r. Q r (V \<and> f r \<in> stmts)) \<Longrightarrow> yields f parseBreakStmt Q V"
  unfolding parseBreakStmt_def
  by (erule yields_class, intro yield_rule) auto

lemma yields_parseContinueStmt [yield_rule]:
  "(\<And>r. Q r (V \<and> f r \<in> stmts)) \<Longrightarrow> yields f parseContinueStmt Q V"
  unfolding parseContinueStmt_def
  by (erule yields_class, intro yield_rule) auto

lemma yields_parseExprStmt [yield_rule]:
  "\<lbrakk>calls_yield f call; \<And>r. Q r (V \<and> f r \<in> stmts)\<rbrakk> \<Longrightarrow> yields f (parseExprStmt call) Q V"
  unfolding parseExprStmt_def Let_def
  by (erule yields_class, intro yield_rule yields_call [of f call]) auto

lemma yields_parseStmt [yield_rule]:
  "\<lbrakk>calls_yield f call; \<And>r. Q r (V \<and> f r \<in> stmts)\<rbrakk> \<Longrightarrow> yields f (parseStmt call) Q V"
  unfolding parseStmt_def Let_def
  by (erule yields_class, intro yield_rule yields_call [of f call]) auto

text \<open>Declarations.\<close>

lemma yields_parseStructField [yield_rule]:
  "\<lbrakk>calls_yield f call; \<And>r. Q r (V \<and> f r \<in> either_error {nk_StructField})\<rbrakk> \<Longrightarrow> yields f (parseStructField call) Q V"
  unfolding parseStructField_def Let_def
  by (erule yields_class, intro yield_rule yields_call [of f call]) auto

lemma yields_parseEnumVariant [yield_rule]:
  "\<lbrakk>calls_yield f call; \<And>r. Q r (V \<and> f r \<in> either_error {nk_EnumVariantUnit, nk_EnumVariantTuple, nk_EnumVariantStruct})\<rbrakk> \<Longrightarrow> yields f (parseEnumVariant call) Q V"
  unfolding parseEnumVariant_def Let_def parseConstExpr_def
  by (erule yields_class, intro yield_rule yields_comma [where C = types] yields_comma [where C = "either_error {nk_StructField}"] yields_call [of f call]) auto

lemma yields_parseParam [yield_rule]:
  "\<lbrakk>calls_yield f call; \<And>r. Q r (V \<and> f r \<in> just nk_Param)\<rbrakk> \<Longrightarrow> yields f (parseParam call) Q V"
  unfolding parseParam_def Let_def
  by (erule yields_class, intro yield_rule yields_call [of f call]) auto

lemma yields_parseParamList [yield_rule]:
  "\<lbrakk>calls_yield f call; \<And>r. Q r (V \<and> f r \<in> just nk_ParamList)\<rbrakk> \<Longrightarrow> yields f (parseParamList call) Q V"
  unfolding parseParamList_def
  by (erule yields_class, intro yield_rule yields_parseMore [where C = "just nk_Param"] yields_call [of f call]) (auto simp: longer_def)

lemma yields_parseReturnType [yield_rule]:
  "\<lbrakk>calls_yield f call; \<And>r. Q r (V \<and> (r = [] \<or> (\<exists>t. r = [t] \<and> f t \<in> types)))\<rbrakk> \<Longrightarrow> yields f (parseReturnType call) Q V"
  unfolding parseReturnType_def
  by (erule yields_class, intro yield_rule yields_call [of f call]) auto

lemma yields_parseConstDecl [yield_rule]:
  "\<lbrakk>calls_yield f call; V \<Longrightarrow> all_in f (just nk_DocComment) ds; \<And>r. Q r (V \<and> f r \<in> decls)\<rbrakk> \<Longrightarrow> yields f (parseConstDecl call ds fl) Q V"
  unfolding parseConstDecl_def parseConstExpr_def
  by (rule yields_from [where A = "all_in f (just nk_DocComment) ds" and R = "\<lambda>r. f r \<in> decls"]; (intro yield_rule yields_call [of f call])?) (auto simp: longer_def)

lemma yields_parseFnDecl [yield_rule]:
  "\<lbrakk>calls_yield f call; V \<Longrightarrow> all_in f (just nk_DocComment) ds; \<And>r. Q r (V \<and> f r \<in> just nk_FnDecl)\<rbrakk> \<Longrightarrow> yields f (parseFnDecl call ds fl b) Q V"
  unfolding parseFnDecl_def Let_def
  by (rule yields_from [where A = "all_in f (just nk_DocComment) ds" and R = "\<lambda>r. f r \<in> just nk_FnDecl"]; (intro yield_rule yields_call [of f call])?) (auto simp: longer_def)

lemma yields_parseStructDecl [yield_rule]:
  "\<lbrakk>calls_yield f call; V \<Longrightarrow> all_in f (just nk_DocComment) ds; \<And>r. Q r (V \<and> f r \<in> decls)\<rbrakk> \<Longrightarrow> yields f (parseStructDecl call ds fl) Q V"
  unfolding parseStructDecl_def parseBodyDecl_def
  by (rule yields_from [where A = "all_in f (just nk_DocComment) ds" and R = "\<lambda>r. f r \<in> decls"]; (intro yield_rule yields_comma [where C = "either_error {nk_StructField}"] yields_call [of f call])?) (auto simp: longer_def)

lemma yields_parseEnumDecl [yield_rule]:
  "\<lbrakk>calls_yield f call; V \<Longrightarrow> all_in f (just nk_DocComment) ds; \<And>r. Q r (V \<and> f r \<in> decls)\<rbrakk> \<Longrightarrow> yields f (parseEnumDecl call ds fl) Q V"
  unfolding parseEnumDecl_def parseBodyDecl_def
  by (rule yields_from [where A = "all_in f (just nk_DocComment) ds" and R = "\<lambda>r. f r \<in> decls"]; (intro yield_rule yields_comma [where C = "either_error {nk_EnumVariantUnit, nk_EnumVariantTuple, nk_EnumVariantStruct}"] yields_call [of f call])?) (auto simp: longer_def)

lemma yields_parseUnionDecl [yield_rule]:
  "\<lbrakk>calls_yield f call; V \<Longrightarrow> all_in f (just nk_DocComment) ds; \<And>r. Q r (V \<and> f r \<in> decls)\<rbrakk> \<Longrightarrow> yields f (parseUnionDecl call ds fl) Q V"
  unfolding parseUnionDecl_def parseBodyDecl_def
  by (rule yields_from [where A = "all_in f (just nk_DocComment) ds" and R = "\<lambda>r. f r \<in> decls"]; (intro yield_rule yields_comma [where C = "either_error {nk_StructField}"] yields_call [of f call])?) (auto simp: longer_def)

lemma yields_parseModDecl [yield_rule]:
  "\<lbrakk>calls_yield f call; V \<Longrightarrow> all_in f (just nk_DocComment) ds; \<And>r. Q r (V \<and> f r \<in> decls)\<rbrakk> \<Longrightarrow> yields f (parseModDecl call ds fl) Q V"
  unfolding parseModDecl_def
  by (rule yields_from [where A = "all_in f (just nk_DocComment) ds" and R = "\<lambda>r. f r \<in> decls"]; (intro yield_rule yields_parseUntil [where C = decls] yields_call [of f call])?) (auto simp: longer_def)

lemma yields_parseUse [yield_rule]:
  "(\<And>r. Q r V) \<Longrightarrow> yields f (parseUseSegments S) Q V" "(\<And>r. Q' r V) \<Longrightarrow> yields f (parseUseTail S) Q' V"
  unfolding parseUseSegments_def parseUseTail_def
  by (rule yields_loop_plain; (intro yield_rule)?; simp) (intro yield_rule)

lemma yields_parseUseDecl [yield_rule]:
  "\<lbrakk>V \<Longrightarrow> all_in f (just nk_DocComment) ds; \<And>r. Q r (V \<and> f r \<in> decls)\<rbrakk> \<Longrightarrow> yields f (parseUseDecl ds fl) Q V"
  unfolding parseUseDecl_def
  by (rule yields_from [where A = "all_in f (just nk_DocComment) ds" and R = "\<lambda>r. f r \<in> decls"]; (intro yield_rule)?) (auto simp: longer_def)

lemma yields_parseMethods [yield_rule]:
  "\<lbrakk>calls_yield f call; \<And>Ks. Q Ks (V \<and> longer f (just nk_FnDecl) Kids Ks)\<rbrakk>
     \<Longrightarrow> yields f (parseMethods call b Kids) Q V"
  unfolding parseMethods_def
  by (intro yields_parseUntil [where C = "just nk_FnDecl"] yield_rule) auto

lemma yields_parseTraitDecl [yield_rule]:
  "\<lbrakk>calls_yield f call; V \<Longrightarrow> all_in f (just nk_DocComment) ds; \<And>r. Q r (V \<and> f r \<in> decls)\<rbrakk> \<Longrightarrow> yields f (parseTraitDecl call ds fl) Q V"
  unfolding parseTraitDecl_def
  by (rule yields_from [where A = "all_in f (just nk_DocComment) ds" and R = "\<lambda>r. f r \<in> decls"]; (intro yield_rule yields_call [of f call])?) (auto simp: longer_def)

lemma yields_parseImplDecl [yield_rule]:
  "\<lbrakk>calls_yield f call; V \<Longrightarrow> all_in f (just nk_DocComment) ds; \<And>r. Q r (V \<and> f r \<in> decls)\<rbrakk> \<Longrightarrow> yields f (parseImplDecl call ds fl) Q V"
  unfolding parseImplDecl_def
  by (rule yields_from [where A = "all_in f (just nk_DocComment) ds" and R = "\<lambda>r. f r \<in> decls"]; (intro yield_rule yields_call [of f call])?) (auto simp: longer_def)

lemma yields_parseTopLevelDecl [yield_rule]:
  "\<lbrakk>calls_yield f call; \<And>r. Q r (V \<and> f r \<in> decls)\<rbrakk> \<Longrightarrow> yields f (parseTopLevelDecl call) Q V"
  unfolding parseTopLevelDecl_def Let_def
  by (erule yields_class, intro yield_rule yields_call [of f call]) auto

lemma yields_parseSourceFile [yield_rule]:
  "\<lbrakk>calls_yield f call; \<And>r. Q r (V \<and> f r \<in> just nk_SourceFile)\<rbrakk> \<Longrightarrow> yields f (parseSourceFile call) Q V"
  unfolding parseSourceFile_def
  by (erule yields_class, intro yield_rule yields_parseUntil [where C = decls] yields_call [of f call]) (auto simp: longer_def)

section \<open>The parser\<close>

lemma yields_tie: "calls_yield f (tie n)"
proof (induction n)
  case 0
  show ?case by (auto simp: calls_yield_def intro: yields_stuck)
next
  case (Suc n)
  show ?case
    unfolding calls_yield_def
  proof (intro allI impI)
    fix nt :: nonterm and Q :: "node_index \<Rightarrow> bool \<Rightarrow> bool" and V assume "\<forall>i. Q i (V \<and> f i \<in> kinds_of nt)"
    then show "yields f (tie (Suc n) nt) Q V" by (cases nt) (auto simp: yield_rule Suc.IH)
  qed
qed

lemma tracks_new: "tracks f (newParser TS I) True"
  by (simp add: tracks_def sized_def newParser_def newNodePool_def pool_wf_new [unfolded newNodePool_def]
      slots_def nodes_ok_def childSlice_def)

lemma parse_tracks:
  assumes "parse TS I = Some (R, I')"
  obtains s where "ResultPool R = Pool s" "\<not> Stuck s" "\<And>f. tracks f s (f (Root R) = Some nk_SourceFile)"
proof -
  obtain s where run: "run_state (parseSourceFile (tie (Suc (remaining TS)))) (newParser TS I) = (Root R, s)"
    and s: "ResultPool R = Pool s" "\<not> Stuck s"
    using assms by (auto simp: parse_def split: prod.splits if_splits)
  have "tracks f s (f (Root R) = Some nk_SourceFile)" for f
  proof -
    have "yields f (parseSourceFile (tie (Suc (remaining TS)))) (\<lambda>r W. W \<longrightarrow> f r = Some nk_SourceFile) True"
      by (rule yields_parseSourceFile [OF yields_tie]) simp
    from yields_D [OF this tracks_new run] show ?thesis using tracks_less by metis
  qed
  with s that show thesis by blast
qed

lemma parse_small:
  assumes "parse TS I = Some (R, I')" "length (Nodes (ResultPool R)) < 4294967296"
    "length (Children (ResultPool R)) < 65536"
  shows "fits_words (ResultPool R)"
proof -
  obtain s where "ResultPool R = Pool s" "tracks (\<lambda>_. None) s (None = Some nk_SourceFile)"
    using parse_tracks [OF assms(1)] by metis
  with assms(2,3) show ?thesis by (simp add: fits_words_def tracks_def sized_def)
qed

lemma parse_kinds:
  assumes "parse TS I = Some (R, I')" "fits_words (ResultPool R)"
  shows "kinds_ok (ResultPool R)" "kindOf (ResultPool R) (Root R) = Some nk_SourceFile"
proof -
  let ?P = "ResultPool R" and ?f = "kindOf (ResultPool R)"
  obtain s where s: "?P = Pool s" "\<not> Stuck s" "tracks ?f s (?f (Root R) = Some nk_SourceFile)"
    using parse_tracks [OF assms(1)] by metis
  have "kinds_of_pool ?f ?P"
    using assms(2) by (auto simp: kinds_of_pool_def fits_words_def kindOf_def nodeAt_def NullNode_def
        unat_of_nat take_bit_nat_eq_self)
  then have "fine ?f s" using s(1,2) assms(2) by (simp add: fine_def)
  with s(3) show "kinds_ok ?P" "?f (Root R) = Some nk_SourceFile"
    by (simp_all add: tracks_def kinds_ok_def s(1))
qed

section \<open>Properties\<close>

text \<open>C3: children have the right kinds.  Whatever the tokens are, errors included, every node of a
  parse has children of the kinds that the layout of its kind asks for, in that order: an
  expression or an error under a unary operator, doc comments, generic parameters, a list of
  parameters, a type and a block under a function, and so on; \<open>NullNode\<close> stands only where the
  layout allows it.\<close>

theorem parse_children:
  assumes "parse TS I = Some (R, I')" "fits_words (ResultPool R)"
  shows "kinds_ok (ResultPool R)"
  by (rule parse_kinds(1) [OF assms])

theorem parse_children_witness:
  "\<exists>R J is. parse (newTokenStream
       (lex (print_lines (show_file [DMod ''b'', DConst ''a'' ''T'' (EBinary tk_plus (EName ''a'') (EName ''b''))])))
       (print_lines (show_file [DMod ''b'', DConst ''a'' ''T'' (EBinary tk_plus (EName ''a'') (EName ''b''))])))
       newInterner = Some (R, J)
     \<and> childrenOf (ResultPool R) (Root R) = Some is \<and> length is = 2 \<and> kinds_ok (ResultPool R)"
proof -
  let ?ds = "[DMod ''b'', DConst ''a'' ''T'' (EBinary tk_plus (EName ''a'') (EName ''b''))]"
  have f: "\<forall>d\<in>set ?ds. written d"
    by (simp add: ends_def level_def precedences_def right_operand_def)
  have p: "\<forall>(k, s)\<in>set (show_file ?ds). plain k s"
    using plain_names by (simp add: show_file_def sym_def)
  obtain R J "is" where r: "parse (printed (show_file ?ds)) newInterner = Some (R, J)" "ok R"
    "childrenOf (ResultPool R) (Root R) = Some is" "list_all2 (declares (ResultPool R) J) is ?ds"
    "length (Nodes (ResultPool R)) + length (Children (ResultPool R)) \<le> 107"
    by (rule file_run [OF f p _ _ interner_wf_new]) (simp_all add: show_file_def sym_def newInterner_def)
  have "kinds_ok (ResultPool R)" by (rule parse_children [OF r(1) parse_small [OF r(1)]]) (use r(5) in simp_all)
  with r list_all2_lengthD [OF r(4)] show ?thesis by (auto simp: printed_def)
qed

end
