(* ===== verification/SourcePlaces.thy ===== *)
theory SourcePlaces
  imports ParserProps
begin

text \<open>
  Where things are.  Every span that the parser puts on a node or into a diagnostic starts and ends
  at an offset of a given set, when the spans of the tokens do: spans are only ever taken from
  tokens and nodes and joined.  A logic with a rule for every helper and every production.
\<close>

named_theorems stay_rule \<open>introduction rules for stays\<close>

section \<open>Offsets\<close>

definition lies :: "u32 set \<Rightarrow> span \<Rightarrow> bool" where
  "lies G S \<longleftrightarrow> Start S \<in> G \<and> End S \<in> G"

definition diag_at :: "u32 set \<Rightarrow> phase_diagnostic \<Rightarrow> bool" where
  "diag_at G D \<longleftrightarrow> lies G (Loc D) \<and> (\<forall>L\<in>set (Labels D). lies G (DiagSpan L))"

text \<open>The offsets at which a token starts or ends, and that of the span of the sentinel.\<close>

definition edges :: "token_stream \<Rightarrow> u32 set" where
  "edges TS = insert 0 (\<Union>t\<in>set (Tokens TS). {Start (TokenSpan t), End (TokenSpan t)})"

definition stream_at :: "u32 set \<Rightarrow> token_stream \<Rightarrow> bool" where
  "stream_at G TS \<longleftrightarrow> 0 \<in> G \<and> unat (Cursor TS) \<le> length (Tokens TS) \<and> (\<forall>t\<in>set (Tokens TS). lies G (TokenSpan t))"

definition placed :: "u32 set \<Rightarrow> parser_state \<Rightarrow> bool" where
  "placed G s \<longleftrightarrow> stream_at G (Stream s) \<and> (\<forall>S\<in>set (Spans (Pool s)). lies G S) \<and> (\<forall>E\<in>set (Errors s). diag_at G E)"

lemma lies_simps [simp]:
  "lies G (Span a b) \<longleftrightarrow> a \<in> G \<and> b \<in> G"
  "lies G S \<Longrightarrow> Start S \<in> G" "lies G S \<Longrightarrow> End S \<in> G"
  "lies G A \<Longrightarrow> lies G B \<Longrightarrow> lies G (cover A B)"
  by (simp_all add: lies_def cover_def)

lemma diag_at_simps [simp]:
  "diag_at G (newDiag S D) \<longleftrightarrow> lies G S" "diag_at G (d_arg N v D') \<longleftrightarrow> diag_at G D'"
  "diag_at G (d_label S x D') \<longleftrightarrow> lies G S \<and> diag_at G D'" "diag_at G (d_note x D') \<longleftrightarrow> diag_at G D'"
  "diag_at G (d_help x D') \<longleftrightarrow> diag_at G D'"
  by (auto simp: diag_at_def newDiag_def d_arg_def d_label_def d_note_def d_help_def)

text \<open>The tokens that a stream gives away.\<close>

lemma eofToken_at: "stream_at G TS \<Longrightarrow> lies G (TokenSpan (eofToken TS))"
  using last_in_set [of "Tokens TS"] by (auto simp: stream_at_def eofToken_def Let_def)

lemma token_at: "stream_at G TS \<Longrightarrow> n < length (Tokens TS) \<Longrightarrow> lies G (TokenSpan (Tokens TS ! n))"
  by (simp add: stream_at_def)

lemma stream_tokens_at:
  assumes "stream_at G TS"
  shows "lies G (TokenSpan (peekToken n TS))" "lies G (TokenSpan (previous TS))" "lies G (TokenSpan (fst (advance TS)))"
proof -
  show "lies G (TokenSpan (peekToken n TS))"
    using token_at [OF assms] eofToken_at [OF assms] by (simp add: peekToken_def Let_def)
  then show "lies G (TokenSpan (fst (advance TS)))"
    using token_at [OF assms] eofToken_at [OF assms] by (simp add: advance_def)
  show "lies G (TokenSpan (previous TS))"
  proof (cases "Cursor TS = 0")
    case True
    then show ?thesis using assms by (cases "Tokens TS") (simp_all add: previous_def stream_at_def)
  next
    case False
    then have "unat (Cursor TS - 1) < unat (Cursor TS)" by (simp add: unat_gt_0 unat_minus_one)
    with False show ?thesis using token_at [OF assms] assms by (simp add: previous_def stream_at_def)
  qed
qed

lemma advance_at: "stream_at G TS \<Longrightarrow> stream_at G (snd (advance TS))"
proof (cases "unat (Cursor TS) < length (Tokens TS)")
  case True
  moreover have "unat (Cursor TS + 1) \<le> Suc (unat (Cursor TS))"
    by (cases "unat (Cursor TS) + 1 < 4294967296") (simp_all add: unat_word_ariths)
  ultimately show "stream_at G TS \<Longrightarrow> ?thesis" by (simp add: stream_at_def advance_def)
qed (simp add: advance_def)

section \<open>The logic\<close>

definition stays :: "u32 set \<Rightarrow> 'a parser \<Rightarrow> ('a \<Rightarrow> bool) \<Rightarrow> bool" where
  "stays G m Q \<longleftrightarrow> (\<forall>s r s'. placed G s \<longrightarrow> run_state m s = (r, s') \<longrightarrow> Q r \<and> placed G s')"

lemma stays_I:
  "(\<And>s r s'. \<lbrakk>placed G s; run_state m s = (r, s')\<rbrakk> \<Longrightarrow> Q r \<and> placed G s') \<Longrightarrow> stays G m Q"
  by (simp add: stays_def)

lemma stays_D: "\<lbrakk>stays G m Q; placed G s; run_state m s = (r, s')\<rbrakk> \<Longrightarrow> Q r \<and> placed G s'"
  by (simp add: stays_def)

lemma stays_mono: "\<lbrakk>stays G m Q; \<And>r. Q r \<Longrightarrow> R r\<rbrakk> \<Longrightarrow> stays G m R"
  by (auto simp: stays_def)

lemma stays_return [stay_rule]: "Q x \<Longrightarrow> stays G (State_Monad.return x) Q"
  by (rule stays_I) (auto simp: State_Monad.return_def)

lemma stays_bind [stay_rule]: "stays G m (\<lambda>x. stays G (n x) Q) \<Longrightarrow> stays G (State_Monad.bind m n) Q"
proof (rule stays_I)
  fix s r s' assume m: "stays G m (\<lambda>x. stays G (n x) Q)" and s: "placed G s"
    and run: "run_state (State_Monad.bind m n) s = (r, s')"
  obtain x t where 1: "run_state m s = (x, t)" by (metis prod.exhaust)
  with run have 2: "run_state (n x) t = (r, s')" by (simp add: State_Monad.bind_def)
  from stays_D [OF m s 1] have n: "stays G (n x) Q" and t: "placed G t" by simp_all
  from stays_D [OF n t 2] show "Q r \<and> placed G s'" .
qed

lemma stays_if [stay_rule]: "\<lbrakk>b \<Longrightarrow> stays G m Q; \<not> b \<Longrightarrow> stays G m' Q\<rbrakk> \<Longrightarrow> stays G (if b then m else m') Q"
  by simp

lemma stays_prod [stay_rule]:
  "(\<And>x y. p = (x, y) \<Longrightarrow> stays G (g x y) Q) \<Longrightarrow> stays G (case p of (x, y) \<Rightarrow> g x y) Q"
  by (cases p) simp

lemma stays_option [stay_rule]:
  "\<lbrakk>stays G m Q; \<And>x. stays G (g x) Q\<rbrakk> \<Longrightarrow> stays G (case p of None \<Rightarrow> m | Some x \<Rightarrow> g x) Q"
  by (cases p) simp_all

lemma stays_gets:
  assumes "\<And>s. placed G s \<Longrightarrow> Q (f s)"
  shows "stays G (gets f) Q"
  by (rule stays_I) (use assms in \<open>auto simp: gets_def\<close>)

lemma stays_reads [stay_rule]:
  "(\<And>t. lies G (TokenSpan t) \<Longrightarrow> Q t) \<Longrightarrow> stays G pPeekToken Q"
  "(\<And>t. lies G (TokenSpan t) \<Longrightarrow> Q t) \<Longrightarrow> stays G pPrevious Q"
  "(\<And>r. Q1 r) \<Longrightarrow> stays G (pPeek n) Q1" "(\<And>r. Q2 r) \<Longrightarrow> stays G (pCheck K) Q2"
  "(\<And>r. Q2 r) \<Longrightarrow> stays G pAtEof Q2" "(\<And>r. Q3 r) \<Longrightarrow> stays G pErrorCount Q3"
  "(\<And>r. Q4 r) \<Longrightarrow> stays G (pTextOf S) Q4" "(\<And>r. Q2 r) \<Longrightarrow> stays G (gets StructLitAllowed) Q2"
  "(\<And>r. Q3 r) \<Longrightarrow> stays G (gets (\<lambda>s. remaining (Stream s))) Q3"
  "(\<And>r. Q5 r) \<Longrightarrow> stays G (gets (\<lambda>s. getStr (Interner s) N)) Q5"
  unfolding pPeek_def pPeekToken_def pPrevious_def pCheck_def pAtEof_def pErrorCount_def pTextOf_def
  by (rule stays_gets, simp add: placed_def stream_tokens_at)+

lemma stays_stuck [stay_rule]: "Q x \<Longrightarrow> stays G (stuck x) Q"
  by (rule stays_I) (auto simp: stuck_def placed_def)

lemma stays_advance [stay_rule]: "(\<And>t. lies G (TokenSpan t) \<Longrightarrow> Q t) \<Longrightarrow> stays G pAdvance Q"
  using stream_tokens_at(3) advance_at
  by (intro stays_I) (fastforce simp: pAdvance_def placed_def split: prod.splits)

lemma stays_consume [stay_rule]: "(\<And>r. Q r) \<Longrightarrow> stays G (pConsume K) Q"
  using advance_at by (intro stays_I) (auto simp: pConsume_def consume_def placed_def split: if_splits)

lemma stays_intern [stay_rule]:
  "(\<And>r. Q r) \<Longrightarrow> stays G (internText S) Q" "(\<And>r. Q r) \<Longrightarrow> stays G (internStr x) Q"
  by (intro stays_I; auto simp: internText_def internStr_def placed_def split: prod.splits)+

lemma stays_diag [stay_rule]: "\<lbrakk>diag_at G D; Q ()\<rbrakk> \<Longrightarrow> stays G (pDiag D) Q"
  by (rule stays_I) (auto simp: pDiag_def modify_def placed_def)

lemma stays_addError [stay_rule]: "\<lbrakk>lies G S; Q ()\<rbrakk> \<Longrightarrow> stays G (addError S D) Q"
  unfolding addError_def by (intro stay_rule) simp_all

lemma stays_kindOf [stay_rule]: "(\<And>K. Q K) \<Longrightarrow> stays G (pKindOf i) Q"
  by (rule stays_I) (auto simp: pKindOf_def placed_def split: option.splits)

lemma stays_spanOf [stay_rule]: "(\<And>S. lies G S \<Longrightarrow> Q S) \<Longrightarrow> stays G (pSpanOf i) Q"
  by (rule stays_I)
    (auto simp: pSpanOf_def spanOf_def placed_def stream_at_def split: option.splits if_splits)

lemma stays_alloc [stay_rule]: "\<lbrakk>lies G S; \<And>i. Q i\<rbrakk> \<Longrightarrow> stays G (pAlloc K S ks p f) Q"
  by (rule stays_I) (auto simp: pAlloc_def alloc_def placed_def)

lemma stays_allocLeaf [stay_rule]: "\<lbrakk>lies G S; \<And>i. Q i\<rbrakk> \<Longrightarrow> stays G (pAllocLeaf K S p) Q"
  unfolding pAllocLeaf_def by (rule stays_alloc)

lemma stays_error [stay_rule]: "\<lbrakk>lies G S; \<And>i. Q i\<rbrakk> \<Longrightarrow> stays G (makeErrorNode S) Q"
  unfolding makeErrorNode_def by (rule stays_allocLeaf)

lemma stays_modify [stay_rule]: "Q () \<Longrightarrow> stays G (modify (\<lambda>s. s \<lparr> StructLitAllowed := v \<rparr>)) Q"
  by (rule stays_I) (auto simp: modify_def placed_def)

lemma stays_withStructLit [stay_rule]: "stays G m Q \<Longrightarrow> stays G (withStructLit v m) Q"
  unfolding withStructLit_def by (intro stays_bind stays_reads stays_modify) (erule stays_mono, intro stay_rule)

lemma stays_loopN:
  assumes "\<And>x. J x \<Longrightarrow> stays G (body x) (\<lambda>p. J (snd p))" "\<And>y. J y \<Longrightarrow> Q y"
  shows "J x \<Longrightarrow> stays G (loopN n body x) Q"
proof (induction n arbitrary: x)
  case 0
  then show ?case using assms(2) by (simp add: stays_stuck)
next
  case (Suc n)
  show ?case
    unfolding loopN.simps
    by (intro stay_rule stays_mono [OF assms(1) [OF Suc.prems]]) (use Suc.IH assms(2) in auto)
qed

lemma stays_loopP:
  assumes "\<And>x. J x \<Longrightarrow> stays G (body x) (\<lambda>p. J (snd p))" "J x" "\<And>y. J y \<Longrightarrow> Q y"
  shows "stays G (loopP body x) Q"
  unfolding loopP_def by (intro stay_rule stays_loopN [where J = J]) (use assms in auto)

lemma stays_loop: "\<lbrakk>\<And>x. stays G (body x) (\<lambda>_. True); \<And>y. Q y\<rbrakk> \<Longrightarrow> stays G (loopP body x) Q"
  by (rule stays_loopP [where J = "\<lambda>_. True"]) simp_all

section \<open>Helpers of the parser\<close>

lemma stays_expectIn [stay_rule]: "(\<And>t. lies G (TokenSpan t) \<Longrightarrow> Q t) \<Longrightarrow> stays G (expectIn K D C) Q"
  unfolding expectIn_def Let_def by (intro stay_rule) auto

lemma stays_expect [stay_rule]: "(\<And>t. lies G (TokenSpan t) \<Longrightarrow> Q t) \<Longrightarrow> stays G (expect K D) Q"
  unfolding expect_def by (rule stays_expectIn)

lemma stays_expectAndIntern [stay_rule]: "(\<And>r. Q r) \<Longrightarrow> stays G (expectAndIntern K D) Q"
  unfolding expectAndIntern_def by (intro stay_rule)

lemma stays_expectName [stay_rule]: "(\<And>r. Q r) \<Longrightarrow> stays G (expectName K C) Q"
  unfolding expectName_def Let_def by (intro stay_rule) auto

lemma stays_skipTo [stay_rule]: "(\<And>r. Q r) \<Longrightarrow> stays G (skipTo Ks) Q"
  unfolding skipTo_def by (intro stays_loop stay_rule) auto

lemma stays_skipSeparators [stay_rule]: "(\<And>r. Q r) \<Longrightarrow> stays G skipSeparators Q"
  unfolding skipSeparators_def by (intro stays_loop stay_rule) auto

lemma stays_path [stay_rule]:
  "\<lbrakk>lies G S; \<And>r. lies G (snd r) \<Longrightarrow> Q r\<rbrakk> \<Longrightarrow> stays G (parsePathSegments S) Q"
  unfolding parsePathSegments_def
  by (rule stays_loopP [where J = "\<lambda>r. lies G (snd r)"]; (intro stay_rule)?) auto

lemma stays_synchronize [stay_rule]: "(\<And>r. Q r) \<Longrightarrow> stays G synchronize Q"
  unfolding synchronize_def by (intro stay_rule stays_loop) auto

lemma stays_regime [stay_rule]: "(\<And>r. Q r) \<Longrightarrow> stays G parseRegime Q"
  unfolding parseRegime_def by (intro stay_rule)

lemma stays_parseUntil [stay_rule]:
  assumes "stays G E (\<lambda>_. True)" "\<And>r. Q r"
  shows "stays G (parseUntil K E Ks) Q"
  unfolding parseUntil_def
  by (rule stays_loop [OF _ assms(2)], (intro stay_rule stays_mono [OF assms(1)]; simp?))

lemma stays_parseMore [stay_rule]:
  assumes "stays G E (\<lambda>_. True)" "\<And>r. Q r"
  shows "stays G (parseMore Stops E Ks) Q"
  unfolding parseMore_def
  by (rule stays_loop [OF _ assms(2)], (intro stay_rule stays_mono [OF assms(1)]; simp?))

lemma stays_comma [stay_rule]:
  assumes "stays G E (\<lambda>_. True)" "\<And>r. Q r"
  shows "stays G (parseCommaSeparated Ks K E) Q"
  unfolding parseCommaSeparated_def
  by (intro stay_rule stays_loop stays_mono [OF assms(1)]; simp?) (rule assms(2))+

lemma stays_comments [stay_rule]:
  "(\<And>r. Q r) \<Longrightarrow> stays G parseDocComments Q" "(\<And>r. Q r) \<Longrightarrow> stays G parseFileDocComments Q"
  unfolding parseDocComments_def parseFileDocComments_def parseComments_def
  by (intro stays_loop stay_rule; simp)+

section \<open>Productions\<close>

definition calls_stay :: "u32 set \<Rightarrow> calls \<Rightarrow> bool" where
  "calls_stay G call \<longleftrightarrow> (\<forall>nt. stays G (call nt) (\<lambda>_. True))"

lemma stays_call: "\<lbrakk>calls_stay G call; \<And>i. Q i\<rbrakk> \<Longrightarrow> stays G (call nt) Q"
  unfolding calls_stay_def using stays_mono by blast

text \<open>Types.\<close>

lemma stays_parseTupleType [stay_rule]:
  "\<lbrakk>calls_stay G call; \<And>r. Q r\<rbrakk> \<Longrightarrow> stays G (parseTupleType call) Q"
  unfolding parseTupleType_def
  by (intro stay_rule stays_call [of G call]) auto

lemma stays_parseNamedType [stay_rule]:
  "(\<And>r. Q r) \<Longrightarrow> stays G parseNamedType Q"
  unfolding parseNamedType_def
  by (intro stay_rule) auto

lemma stays_parseArrayType [stay_rule]:
  "\<lbrakk>calls_stay G call; \<And>r. Q r\<rbrakk> \<Longrightarrow> stays G (parseArrayType call) Q"
  unfolding parseArrayType_def parseConstExpr_def
  by (intro stay_rule stays_call [of G call]) auto

lemma stays_parseTensorType [stay_rule]:
  "\<lbrakk>calls_stay G call; \<And>r. Q r\<rbrakk> \<Longrightarrow> stays G (parseTensorType call) Q"
  unfolding parseTensorType_def parseConstExpr_def
  by (intro stay_rule stays_call [of G call]) auto

lemma stays_parseType [stay_rule]:
  "\<lbrakk>calls_stay G call; \<And>r. Q r\<rbrakk> \<Longrightarrow> stays G (parseType call) Q"
  unfolding parseType_def
  by (intro stay_rule stays_call [of G call]) auto

text \<open>Generic parameters.\<close>

lemma stays_parseGenericParam [stay_rule]:
  "\<lbrakk>calls_stay G call; \<And>r. Q r\<rbrakk> \<Longrightarrow> stays G (parseGenericParam call) Q"
  unfolding parseGenericParam_def
  by (intro stay_rule stays_call [of G call]) auto

lemma stays_parseGenericParams [stay_rule]:
  "\<lbrakk>calls_stay G call; \<And>r. Q r\<rbrakk> \<Longrightarrow> stays G (parseGenericParams call) Q"
  unfolding parseGenericParams_def
  by (intro stay_rule stays_call [of G call]) auto

lemma stays_parseGenericArgs [stay_rule]:
  "\<lbrakk>calls_stay G call; \<And>r. Q r\<rbrakk> \<Longrightarrow> stays G (parseGenericArgs call) Q"
  unfolding parseGenericArgs_def
  by (intro stay_rule stays_call [of G call]) auto

text \<open>Patterns.\<close>

lemma stays_parseFieldPat [stay_rule]:
  "\<lbrakk>calls_stay G call; \<And>r. Q r\<rbrakk> \<Longrightarrow> stays G (parseFieldPat call) Q"
  unfolding parseFieldPat_def
  by (intro stay_rule stays_call [of G call]) auto

lemma stays_parseStructPat [stay_rule]:
  "\<lbrakk>calls_stay G call; lies G S; \<And>r. Q r\<rbrakk> \<Longrightarrow> stays G (parseStructPat call N S) Q"
  unfolding parseStructPat_def
  by (intro stay_rule stays_call [of G call]) auto

lemma stays_parseTuplePat [stay_rule]:
  "\<lbrakk>calls_stay G call; lies G S; \<And>r. Q r\<rbrakk> \<Longrightarrow> stays G (parseTuplePat call N S) Q"
  unfolding parseTuplePat_def
  by (intro stay_rule stays_call [of G call]) auto

lemma stays_parsePat [stay_rule]:
  "\<lbrakk>calls_stay G call; \<And>r. Q r\<rbrakk> \<Longrightarrow> stays G (parsePat call) Q"
  unfolding parsePat_def
  by (intro stay_rule stays_call [of G call]) auto

text \<open>Blocks.\<close>

lemma stays_parseBlockExpr [stay_rule]:
  "\<lbrakk>calls_stay G call; \<And>r. Q r\<rbrakk> \<Longrightarrow> stays G (parseBlockExpr call) Q"
  unfolding parseBlockExpr_def
  by (intro stay_rule stays_call [of G call]) auto

lemma stays_parseUnsafeBlock [stay_rule]:
  "\<lbrakk>calls_stay G call; \<And>r. Q r\<rbrakk> \<Longrightarrow> stays G (parseUnsafeBlock call) Q"
  unfolding parseUnsafeBlock_def
  by (intro stay_rule stays_call [of G call]) auto

lemma stays_parseIfExpr [stay_rule]:
  "\<lbrakk>calls_stay G call; \<And>r. Q r\<rbrakk> \<Longrightarrow> stays G (parseIfExpr call) Q"
  unfolding parseIfExpr_def
  by (intro stay_rule stays_call [of G call]) auto

lemma stays_parseWhileStmt [stay_rule]:
  "\<lbrakk>calls_stay G call; \<And>r. Q r\<rbrakk> \<Longrightarrow> stays G (parseWhileStmt call) Q"
  unfolding parseWhileStmt_def
  by (intro stay_rule stays_call [of G call]) auto

lemma stays_parseMatchArm [stay_rule]:
  "\<lbrakk>calls_stay G call; \<And>r. Q r\<rbrakk> \<Longrightarrow> stays G (parseMatchArm call) Q"
  unfolding parseMatchArm_def
  by (intro stay_rule stays_call [of G call]) auto

lemma stays_parseMatchExpr [stay_rule]:
  "\<lbrakk>calls_stay G call; \<And>r. Q r\<rbrakk> \<Longrightarrow> stays G (parseMatchExpr call) Q"
  unfolding parseMatchExpr_def
  by (intro stay_rule stays_call [of G call]) auto

text \<open>Expressions.\<close>

lemma stays_parseLitExpr [stay_rule]:
  "\<lbrakk>lies G (TokenSpan T); \<And>r. Q r\<rbrakk> \<Longrightarrow> stays G (parseLitExpr T) Q"
  unfolding parseLitExpr_def
  by (intro stay_rule) auto

lemma stays_parseArgList [stay_rule]:
  "\<lbrakk>calls_stay G call; \<And>r. Q r\<rbrakk> \<Longrightarrow> stays G (parseArgList call) Q"
  unfolding parseArgList_def
  by (intro stay_rule stays_call [of G call]) auto

lemma stays_parseFieldInit [stay_rule]:
  "\<lbrakk>calls_stay G call; \<And>r. Q r\<rbrakk> \<Longrightarrow> stays G (parseFieldInit call) Q"
  unfolding parseFieldInit_def
  by (intro stay_rule stays_call [of G call]) auto

lemma stays_parseStructLitExpr [stay_rule]:
  "\<lbrakk>calls_stay G call; lies G S; \<And>r. Q r\<rbrakk> \<Longrightarrow> stays G (parseStructLitExpr call N S) Q"
  unfolding parseStructLitExpr_def
  by (intro stay_rule stays_call [of G call]) auto

lemma stays_parseArrayLitExpr [stay_rule]:
  "\<lbrakk>calls_stay G call; \<And>r. Q r\<rbrakk> \<Longrightarrow> stays G (parseArrayLitExpr call) Q"
  unfolding parseArrayLitExpr_def parseConstExpr_def
  by (intro stay_rule stays_call [of G call]) auto

lemma stays_parseTensorLitExpr [stay_rule]:
  "\<lbrakk>calls_stay G call; \<And>r. Q r\<rbrakk> \<Longrightarrow> stays G (parseTensorLitExpr call) Q"
  unfolding parseTensorLitExpr_def parseConstExpr_def Let_def
  by (intro stay_rule stays_call [of G call]) auto

lemma stays_parsePostfixIndex [stay_rule]:
  "\<lbrakk>calls_stay G call; \<And>r. Q r\<rbrakk> \<Longrightarrow> stays G (parsePostfixIndex call i) Q"
  unfolding parsePostfixIndex_def Let_def
  by (intro stay_rule stays_call [of G call]) auto

lemma stays_parseFieldAccess [stay_rule]:
  "(\<And>r. Q r) \<Longrightarrow> stays G (parseFieldAccess i) Q"
  unfolding parseFieldAccess_def
  by (intro stay_rule) auto

lemma stays_parseTupleIndex [stay_rule]:
  "\<lbrakk>lies G S; \<And>r. Q r\<rbrakk> \<Longrightarrow> stays G (parseTupleIndex i S x) Q"
  unfolding parseTupleIndex_def
  by (intro stay_rule) auto

lemma stays_parseDot [stay_rule]:
  "(\<And>r. Q r) \<Longrightarrow> stays G (parseDot i) Q"
  unfolding parseDot_def
  by (intro stay_rule) auto

lemma stays_parsePostfix [stay_rule]:
  "\<lbrakk>calls_stay G call; \<And>r. Q r\<rbrakk> \<Longrightarrow> stays G (parsePostfix call i) Q"
  unfolding parsePostfix_def
  by (intro stay_rule stays_call [of G call]) auto

lemma stays_parsePostfixOrCallExpr [stay_rule]:
  "\<lbrakk>calls_stay G call; \<And>r. Q r\<rbrakk> \<Longrightarrow> stays G (parsePostfixOrCallExpr call i) Q"
  unfolding parsePostfixOrCallExpr_def
  by (intro stay_rule stays_loop stays_call [of G call]) auto

lemma stays_parseParenExpr [stay_rule]:
  "\<lbrakk>calls_stay G call; lies G (TokenSpan T); \<And>r. Q r\<rbrakk> \<Longrightarrow> stays G (parseParenExpr call T) Q"
  unfolding parseParenExpr_def
  by (intro stay_rule stays_call [of G call]) auto

lemma stays_parseNameExpr [stay_rule]:
  "\<lbrakk>calls_stay G call; lies G (TokenSpan T); \<And>r. Q r\<rbrakk> \<Longrightarrow> stays G (parseNameExpr call T) Q"
  unfolding parseNameExpr_def
  by (intro stay_rule stays_call [of G call]) auto

lemma stays_parseUnaryExpr [stay_rule]:
  "\<lbrakk>calls_stay G call; lies G (TokenSpan T); \<And>r. Q r\<rbrakk> \<Longrightarrow> stays G (parseUnaryExpr call T) Q"
  unfolding parseUnaryExpr_def Let_def
  by (intro stay_rule stays_call [of G call]) auto

lemma stays_parseStarExpr [stay_rule]:
  "\<lbrakk>calls_stay G call; lies G (TokenSpan T); \<And>r. Q r\<rbrakk> \<Longrightarrow> stays G (parseStarExpr call T) Q"
  unfolding parseStarExpr_def Let_def
  by (intro stay_rule stays_call [of G call]) auto

lemma stays_parsePrefixExpr [stay_rule]:
  "\<lbrakk>calls_stay G call; \<And>r. Q r\<rbrakk> \<Longrightarrow> stays G (parsePrefixExpr call) Q"
  unfolding parsePrefixExpr_def Let_def
  by (intro stay_rule stays_call [of G call]) auto

lemma stays_parseInfix [stay_rule]:
  "\<lbrakk>calls_stay G call; \<And>r. Q r\<rbrakk> \<Longrightarrow> stays G (parseInfix call m i) Q"
  unfolding parseInfix_def Let_def
  by (intro stay_rule stays_call [of G call]) auto

lemma stays_parseExpr [stay_rule]:
  "\<lbrakk>calls_stay G call; \<And>r. Q r\<rbrakk> \<Longrightarrow> stays G (parseExpr call m) Q"
  unfolding parseExpr_def
  by (intro stay_rule stays_loop stays_call [of G call]) auto

text \<open>Statements.\<close>

lemma stays_endLetStmt [stay_rule]: "(\<And>r. Q r) \<Longrightarrow> stays G (endLetStmt ks) Q"
  unfolding endLetStmt_def Let_def
  by (intro stay_rule) auto

lemma stays_parseLetStmt [stay_rule]:
  "\<lbrakk>calls_stay G call; \<And>r. Q r\<rbrakk> \<Longrightarrow> stays G (parseLetStmt call) Q"
  unfolding parseLetStmt_def
  by (intro stay_rule stays_call [of G call]) auto

lemma stays_parseRetStmt [stay_rule]:
  "\<lbrakk>calls_stay G call; \<And>r. Q r\<rbrakk> \<Longrightarrow> stays G (parseRetStmt call) Q"
  unfolding parseRetStmt_def
  by (intro stay_rule stays_call [of G call]) auto

lemma stays_parseForStmt [stay_rule]:
  "\<lbrakk>calls_stay G call; \<And>r. Q r\<rbrakk> \<Longrightarrow> stays G (parseForStmt call) Q"
  unfolding parseForStmt_def
  by (intro stay_rule stays_call [of G call]) auto

lemma stays_parseBreakStmt [stay_rule]:
  "(\<And>r. Q r) \<Longrightarrow> stays G parseBreakStmt Q"
  unfolding parseBreakStmt_def
  by (intro stay_rule) auto

lemma stays_parseContinueStmt [stay_rule]:
  "(\<And>r. Q r) \<Longrightarrow> stays G parseContinueStmt Q"
  unfolding parseContinueStmt_def
  by (intro stay_rule) auto

lemma stays_parseExprStmt [stay_rule]:
  "\<lbrakk>calls_stay G call; \<And>r. Q r\<rbrakk> \<Longrightarrow> stays G (parseExprStmt call) Q"
  unfolding parseExprStmt_def Let_def
  by (intro stay_rule stays_call [of G call]) auto

lemma stays_parseStmt [stay_rule]:
  "\<lbrakk>calls_stay G call; \<And>r. Q r\<rbrakk> \<Longrightarrow> stays G (parseStmt call) Q"
  unfolding parseStmt_def Let_def
  by (intro stay_rule stays_call [of G call]) auto

text \<open>Declarations.\<close>

lemma stays_parseStructField [stay_rule]:
  "\<lbrakk>calls_stay G call; \<And>r. Q r\<rbrakk> \<Longrightarrow> stays G (parseStructField call) Q"
  unfolding parseStructField_def Let_def
  by (intro stay_rule stays_call [of G call]) auto

lemma stays_parseEnumVariant [stay_rule]:
  "\<lbrakk>calls_stay G call; \<And>r. Q r\<rbrakk> \<Longrightarrow> stays G (parseEnumVariant call) Q"
  unfolding parseEnumVariant_def Let_def parseConstExpr_def
  by (intro stay_rule stays_call [of G call]) auto

lemma stays_parseParam [stay_rule]:
  "\<lbrakk>calls_stay G call; \<And>r. Q r\<rbrakk> \<Longrightarrow> stays G (parseParam call) Q"
  unfolding parseParam_def Let_def
  by (intro stay_rule stays_call [of G call]) auto

lemma stays_parseParamList [stay_rule]:
  "\<lbrakk>calls_stay G call; \<And>r. Q r\<rbrakk> \<Longrightarrow> stays G (parseParamList call) Q"
  unfolding parseParamList_def
  by (intro stay_rule stays_call [of G call]) auto

lemma stays_parseReturnType [stay_rule]:
  "\<lbrakk>calls_stay G call; \<And>r. Q r\<rbrakk> \<Longrightarrow> stays G (parseReturnType call) Q"
  unfolding parseReturnType_def
  by (intro stay_rule stays_call [of G call]) auto

lemma stays_parseConstDecl [stay_rule]:
  "\<lbrakk>calls_stay G call; \<And>r. Q r\<rbrakk> \<Longrightarrow> stays G (parseConstDecl call ds fl) Q"
  unfolding parseConstDecl_def parseConstExpr_def
  by (intro stay_rule stays_call [of G call]) auto

lemma stays_parseFnDecl [stay_rule]:
  "\<lbrakk>calls_stay G call; \<And>r. Q r\<rbrakk> \<Longrightarrow> stays G (parseFnDecl call ds fl b) Q"
  unfolding parseFnDecl_def Let_def
  by (intro stay_rule stays_call [of G call]) auto

lemma stays_parseStructDecl [stay_rule]:
  "\<lbrakk>calls_stay G call; \<And>r. Q r\<rbrakk> \<Longrightarrow> stays G (parseStructDecl call ds fl) Q"
  unfolding parseStructDecl_def parseBodyDecl_def
  by (intro stay_rule stays_call [of G call]) auto

lemma stays_parseEnumDecl [stay_rule]:
  "\<lbrakk>calls_stay G call; \<And>r. Q r\<rbrakk> \<Longrightarrow> stays G (parseEnumDecl call ds fl) Q"
  unfolding parseEnumDecl_def parseBodyDecl_def
  by (intro stay_rule stays_call [of G call]) auto

lemma stays_parseUnionDecl [stay_rule]:
  "\<lbrakk>calls_stay G call; \<And>r. Q r\<rbrakk> \<Longrightarrow> stays G (parseUnionDecl call ds fl) Q"
  unfolding parseUnionDecl_def parseBodyDecl_def
  by (intro stay_rule stays_call [of G call]) auto

lemma stays_parseModDecl [stay_rule]:
  "\<lbrakk>calls_stay G call; \<And>r. Q r\<rbrakk> \<Longrightarrow> stays G (parseModDecl call ds fl) Q"
  unfolding parseModDecl_def
  by (intro stay_rule stays_call [of G call]) auto

lemma stays_parseUseSegments [stay_rule]:
  "\<lbrakk>lies G S; \<And>r. lies G r \<Longrightarrow> Q r\<rbrakk> \<Longrightarrow> stays G (parseUseSegments S) Q"
  unfolding parseUseSegments_def
  by (rule stays_loopP [where J = "lies G"]; (intro stay_rule)?) auto

lemma stays_parseUseTail [stay_rule]:
  "\<lbrakk>lies G S; \<And>r. lies G (fst r) \<Longrightarrow> Q r\<rbrakk> \<Longrightarrow> stays G (parseUseTail S) Q"
  unfolding parseUseTail_def
  by (intro stay_rule) auto

lemma stays_parseUseDecl [stay_rule]:
  "(\<And>r. Q r) \<Longrightarrow> stays G (parseUseDecl ds fl) Q"
  unfolding parseUseDecl_def
  by (intro stay_rule) auto

lemma stays_parseMethods [stay_rule]:
  "\<lbrakk>calls_stay G call; \<And>r. Q r\<rbrakk> \<Longrightarrow> stays G (parseMethods call b Kids) Q"
  unfolding parseMethods_def
  by (intro stay_rule stays_call [of G call]) auto

lemma stays_parseTraitDecl [stay_rule]:
  "\<lbrakk>calls_stay G call; \<And>r. Q r\<rbrakk> \<Longrightarrow> stays G (parseTraitDecl call ds fl) Q"
  unfolding parseTraitDecl_def
  by (intro stay_rule stays_call [of G call]) auto

lemma stays_parseImplDecl [stay_rule]:
  "\<lbrakk>calls_stay G call; \<And>r. Q r\<rbrakk> \<Longrightarrow> stays G (parseImplDecl call ds fl) Q"
  unfolding parseImplDecl_def
  by (intro stay_rule stays_call [of G call]) auto

lemma stays_parseTopLevelDecl [stay_rule]:
  "\<lbrakk>calls_stay G call; \<And>r. Q r\<rbrakk> \<Longrightarrow> stays G (parseTopLevelDecl call) Q"
  unfolding parseTopLevelDecl_def Let_def
  by (intro stay_rule stays_call [of G call]) auto

lemma stays_parseSourceFile [stay_rule]:
  "\<lbrakk>calls_stay G call; \<And>r. Q r\<rbrakk> \<Longrightarrow> stays G (parseSourceFile call) Q"
  unfolding parseSourceFile_def
  by (intro stay_rule stays_call [of G call]) auto

section \<open>The parser\<close>

lemma stays_tie: "calls_stay G (tie n)"
proof (induction n)
  case 0
  show ?case by (simp add: calls_stay_def stays_stuck)
next
  case (Suc n)
  have "stays G (tie (Suc n) nt) (\<lambda>_. True)" for nt by (cases nt) (simp_all add: stay_rule Suc.IH)
  then show ?case by (simp add: calls_stay_def)
qed

lemma parse_placed:
  assumes "stream_at G TS" "parse TS I = Some (R, J)"
  shows "(\<forall>S\<in>set (Spans (ResultPool R)). lies G S) \<and> (\<forall>E\<in>set (ResultErrors R). diag_at G E)"
proof -
  obtain s where run: "run_state (parseSourceFile (tie (Suc (remaining TS)))) (newParser TS I) = (Root R, s)"
    and s: "ResultPool R = Pool s" "ResultErrors R = Errors s"
    using assms(2) by (auto simp: parse_def split: prod.splits if_splits)
  have m: "stays G (parseSourceFile (tie (Suc (remaining TS)))) (\<lambda>_. True)"
    by (rule stays_parseSourceFile [OF stays_tie]) simp
  have "0 \<in> G" using assms(1) unfolding stream_at_def by blast
  then have "placed G (newParser TS I)"
    using assms(1) by (simp add: placed_def newParser_def newNodePool_def)
  from stays_D [OF m this run] have "placed G s" ..
  then show ?thesis unfolding placed_def s by blast
qed

section \<open>Source texts\<close>

text \<open>The spans of the items of the lexer lie in the text, errors included.\<close>

lemma lexLoop_inside:
  "window B e p \<Longrightarrow> \<forall>x\<in>set (lexLoop B e p). unat (Start (item_span x)) \<le> e \<and> unat (End (item_span x)) \<le> e"
proof (induction rule: lexLoop_induct)
  case (blank p)
  then show ?case by simp
next
  case (step ws C cur es it q)
  have suf: "suffix q (C # cur)" using step(6) by (rule suffix_ConsI)
  have "unat (Start (item_span x)) \<le> e \<and> unat (End (item_span x)) \<le> e" if x: "x \<in> set es" for x
  proof -
    obtain k a b where x: "x = lexerError e k a b" "suffix a (C # cur)" "suffix b a"
      using step(7) x unfolding scanned_def err_within_def by blast
    from window_unat [OF window_suffix [OF step(5) x(2)] x(3)] x(1) show ?thesis
      by (simp add: lexerError_def)
  qed
  moreover have "unat (Start (item_span it)) \<le> e \<and> unat (End (item_span it)) \<le> e"
    using step(9) window_unat [OF step(5) suf] by (auto simp: whole_item_def split: lexer_item.splits)
  ultimately show ?case using step(11,12) by auto
qed

lemma stream_edges: "Cursor TS = 0 \<Longrightarrow> stream_at (edges TS) TS"
  unfolding stream_at_def edges_def lies_def by simp blast

lemma source_edges:
  assumes "length B < 4294967295" "a \<in> edges (newTokenStream (lex B) B)"
  shows "unat a \<le> length B"
proof -
  have B: "length B < 4294967296" using assms(1) by simp
  obtain ts es where c: "collectItems (lex B) = (ts, es)" by (metis prod.exhaust)
  have items: "unat (Start (item_span x)) \<le> length B \<and> unat (End (item_span x)) \<le> length B" if "x \<in> set (lex B)" for x
    using that lexLoop_inside [OF window_lexSpan [OF B, of "Span 0 (of_nat (length B))"]] B
    by (auto simp: lex_snoc_eof [OF B] unat_of_nat take_bit_nat_eq_self)
  have "unat (Start (TokenSpan t)) \<le> length B \<and> unat (End (TokenSpan t)) \<le> length B" if t: "t \<in> set ts" for t
    using collectItems_unknown [OF c t]
  proof
    assume "ItemToken t \<in> set (lex B)"
    from items [OF this] show ?thesis by simp
  next
    assume "\<exists>er\<in>set es. t = Token tk_unknown (ErrorSpan er)"
    then obtain er where er: "er \<in> set es" "t = Token tk_unknown (ErrorSpan er)" by blast
    then have "ItemError er \<in> set (lex B)" using collectItems_tokens [OF c] by blast
    from items [OF this] er(2) show ?thesis by simp
  qed
  with assms(2) show ?thesis by (auto simp: edges_def newTokenStream_def c)
qed

section \<open>Properties\<close>

definition report_spans :: "parse_result \<Rightarrow> span set" where
  "report_spans R = (\<Union>E\<in>set (ResultErrors R). insert (Loc E) (DiagSpan ` set (Labels E)))"

lemma spans_of_parse:
  assumes "length B < 4294967295" "parse (newTokenStream (lex B) B) I = Some (R, J)"
    "S \<in> set (Spans (ResultPool R)) \<union> report_spans R"
  shows "lies (edges (newTokenStream (lex B) B)) S" "unat (Start S) \<le> length B" "unat (End S) \<le> length B"
proof -
  let ?G = "edges (newTokenStream (lex B) B)"
  note p = parse_placed [OF stream_edges [OF source_stream(2) [OF assms(1)]] assms(2)]
  then show l: "lies ?G S"
    using assms(3) unfolding report_spans_def diag_at_def by blast
  then show "unat (Start S) \<le> length B" "unat (End S) \<le> length B"
    using source_edges [OF assms(1)] unfolding lies_def by blast+
qed

text \<open>C22: places are in the source.  Every span of a node of a parse, and every span that a
  diagnostic of the parser refers to, by its place or by a label, starts and ends inside the
  source text, at the edge of a token of the stream, or at 0.\<close>

theorem parse_spans:
  assumes "length B < 4294967295" "parse (newTokenStream (lex B) B) I = Some (R, J)"
  shows "\<forall>S\<in>set (Spans (ResultPool R)) \<union> report_spans R. lies (edges (newTokenStream (lex B) B)) S
    \<and> unat (Start S) \<le> length B \<and> unat (End S) \<le> length B"
  using spans_of_parse [OF assms] by blast

theorem parse_spans_witness:
  "\<exists>R J. parse (newTokenStream (lex ''fn f( {'') ''fn f( {'') newInterner = Some (R, J)
     \<and> (\<forall>S\<in>set (Spans (ResultPool R)) \<union> report_spans R. unat (Start S) \<le> 7 \<and> unat (End S) \<le> 7)"
proof -
  note src = source_stream [of "''fn f( {''"]
  obtain R J where r: "parse (newTokenStream (lex ''fn f( {'') ''fn f( {'') newInterner = Some (R, J)"
    using parseSourceFile_returns src by force
  have n: "length ''fn f( {'' = 7" by simp
  note p = parse_spans [OF _ r, unfolded n]
  show ?thesis using r p by (intro exI conjI) (simp, simp)
qed

end
