(* ===== verification/PayloadTypes.thy ===== *)
theory PayloadTypes
  imports ParserProps
begin

text \<open>
  The types of payloads.  The payload word of a node means what the kind of the node says: the id
  of a name, such an id packed with a regime, an operator, a count, or nothing.  A logic of what
  every production keeps, whatever the tokens are: \<open>keeps m Q V\<close> says that from every state whose
  payloads are typed and in which the ids \<open>V\<close> are handed out, \<open>m\<close> ends in such a state for some
  \<open>W\<close> with \<open>Q r W\<close>.
\<close>

named_theorems keep \<open>introduction rules for keeps\<close>

section \<open>Payload types\<close>

datatype payload_type = PName | PPacked | POp | PCount | PNone

definition payload_type :: "node_kind \<Rightarrow> payload_type" where
  "payload_type K =
     (if K \<in> {nk_DocComment, nk_FileDocComment, nk_StructDecl, nk_EnumDecl, nk_UnionDecl, nk_ModDecl,
         nk_ModDeclFile, nk_UseDecl, nk_ConstDecl, nk_TraitDecl, nk_GenericParam, nk_TupleIndexExpr,
         nk_StructLitExpr, nk_FieldInit, nk_IdentExpr, nk_PathExpr, nk_NamedType, nk_LiteralPat,
         nk_StructPat, nk_TuplePat, nk_FieldPat} then PName
      else if K \<in> {nk_FnDecl, nk_StructField, nk_EnumVariantUnit, nk_EnumVariantTuple,
         nk_EnumVariantStruct, nk_Param, nk_LetStmt, nk_ForStmt, nk_FieldExpr, nk_LitExpr, nk_IdentPat}
      then PPacked
      else if K \<in> {nk_UnaryExpr, nk_BinaryExpr} then POp
      else if K = nk_TensorLitExpr then PCount
      else PNone)"

text \<open>A payload that fits its type, when ids below \<open>n\<close> have been handed out.\<close>

primrec fits_type :: "nat \<Rightarrow> u32 \<Rightarrow> payload_type \<Rightarrow> bool" where
  "fits_type n p PName \<longleftrightarrow> unat p < n"
| "fits_type n p PPacked \<longleftrightarrow> unat (payloadStr p) < n"
| "fits_type n p POp \<longleftrightarrow> (\<exists>K. p = opPayload K)"
| "fits_type n p PCount \<longleftrightarrow> (\<exists>v. p = makeOpPayload v)"
| "fits_type n p PNone \<longleftrightarrow> p = 0"

definition payloads_typed :: "node_pool \<Rightarrow> interner \<Rightarrow> bool" where
  "payloads_typed P I \<longleftrightarrow>
     (\<forall>N\<in>set (Nodes P). fits_type (length (Strings I)) (NPayload N) (payload_type (NKind N)))"

lemma fits_type_mono: "fits_type m p T \<Longrightarrow> m \<le> n \<Longrightarrow> fits_type n p T"
  by (cases T) auto

lemma payloadStr_packed: "payloadStr (makePayload Name R) = Name AND 0x3FFFFFFF"
proof -
  have "makePayload Name R = makePayload (Name AND 0x3FFFFFFF) R"
    by (simp add: makePayload_def and.assoc)
  moreover have "Name AND 0x3FFFFFFF \<le> 0x3FFFFFFF" by (rule word_and_le1)
  ultimately show ?thesis using payloadStr_makePayload by simp
qed

lemma fits_packed: "unat Name < n \<Longrightarrow> fits_type n (makePayload Name R) PPacked"
proof -
  assume "unat Name < n"
  moreover have "unat (Name AND 0x3FFFFFFF) \<le> unat Name"
    using word_and_le2 [of Name "0x3FFFFFFF"] by (simp add: word_le_nat_alt)
  ultimately show ?thesis by (simp add: payloadStr_packed)
qed

section \<open>The logic\<close>

definition typed :: "parser_state \<Rightarrow> u32 set \<Rightarrow> bool" where
  "typed s V \<longleftrightarrow> Strings (Interner s) \<noteq> []
     \<and> (\<forall>N\<in>ran (Table (Interner s)). unat N < length (Strings (Interner s)))
     \<and> payloads_typed (Pool s) (Interner s)
     \<and> (\<forall>N\<in>V. unat N < length (Strings (Interner s)))"

definition keeps :: "'a parser \<Rightarrow> ('a \<Rightarrow> u32 set \<Rightarrow> bool) \<Rightarrow> u32 set \<Rightarrow> bool" where
  "keeps m Q V \<longleftrightarrow> (\<forall>s r s'. typed s V \<longrightarrow> run_state m s = (r, s') \<longrightarrow> (\<exists>W. Q r W \<and> typed s' W))"

lemma keeps_I:
  "(\<And>s r s'. typed s V \<Longrightarrow> run_state m s = (r, s') \<Longrightarrow> \<exists>W. Q r W \<and> typed s' W) \<Longrightarrow> keeps m Q V"
  by (simp add: keeps_def)

lemma keeps_D:
  assumes "keeps m Q V" "typed s V" "run_state m s = (r, s')"
  obtains W where "Q r W" "typed s' W"
  using assms unfolding keeps_def by blast

lemma typed_less: "typed s V \<Longrightarrow> W \<subseteq> V \<Longrightarrow> typed s W"
  by (auto simp: typed_def)

lemma keeps_return [keep]: "Q x V \<Longrightarrow> keeps (State_Monad.return x) Q V"
  by (rule keeps_I) (auto simp: State_Monad.return_def)

lemma keeps_bind [keep]:
  assumes "keeps m (\<lambda>r. keeps (f r) Q) V"
  shows "keeps (State_Monad.bind m f) Q V"
proof (rule keeps_I)
  fix s r s' assume s: "typed s V" "run_state (State_Monad.bind m f) s = (r, s')"
  obtain x t where 1: "run_state m s = (x, t)" by (metis prod.exhaust)
  with s(2) have 2: "run_state (f x) t = (r, s')" by (simp add: State_Monad.bind_def)
  obtain W where W: "keeps (f x) Q W" "typed t W" by (rule keeps_D [OF assms s(1) 1])
  from keeps_D [OF W 2] show "\<exists>W. Q r W \<and> typed s' W" by blast
qed

lemma keeps_if [keep]:
  "\<lbrakk>b \<Longrightarrow> keeps m Q V; \<not> b \<Longrightarrow> keeps m' Q V\<rbrakk> \<Longrightarrow> keeps (if b then m else m') Q V"
  by simp

lemma keeps_prod [keep]: "(\<And>x y. p = (x, y) \<Longrightarrow> keeps (f x y) Q V) \<Longrightarrow> keeps (case p of (x, y) \<Rightarrow> f x y) Q V"
  by (cases p) simp

lemma keeps_option [keep]:
  "\<lbrakk>keeps m Q V; \<And>x. keeps (f x) Q V\<rbrakk> \<Longrightarrow> keeps (case p of None \<Rightarrow> m | Some x \<Rightarrow> f x) Q V"
  by (cases p) simp_all

lemma keeps_mono: "\<lbrakk>keeps m Q V; \<And>r W. Q r W \<Longrightarrow> Q' r W\<rbrakk> \<Longrightarrow> keeps m Q' V"
  unfolding keeps_def by blast

text \<open>Computations that change neither the pool nor the interner.\<close>

lemma keeps_same:
  assumes "\<And>s r s'. run_state m s = (r, s') \<Longrightarrow> Pool s' = Pool s \<and> Interner s' = Interner s"
    and "\<And>r. Q r V"
  shows "keeps m Q V"
  by (rule keeps_I) (use assms in \<open>fastforce simp: typed_def\<close>)

lemma keeps_gets [keep]: "(\<And>x. Q x V) \<Longrightarrow> keeps (gets f) Q V"
  by (rule keeps_same) (auto simp: gets_def)

lemma keeps_reads [keep]:
  "(\<And>r. Q r V) \<Longrightarrow> keeps (pPeek n) Q V" "(\<And>r. Q' r V) \<Longrightarrow> keeps pPeekToken Q' V"
  "(\<And>r. Q' r V) \<Longrightarrow> keeps pPrevious Q' V" "(\<And>r. Q'' r V) \<Longrightarrow> keeps (pCheck K) Q'' V"
  "(\<And>r. Q'' r V) \<Longrightarrow> keeps pAtEof Q'' V" "(\<And>r. Q3 r V) \<Longrightarrow> keeps pErrorCount Q3 V"
  "(\<And>r. Q4 r V) \<Longrightarrow> keeps (pTextOf S) Q4 V"
  unfolding pPeek_def pPeekToken_def pPrevious_def pCheck_def pAtEof_def pErrorCount_def pTextOf_def
  by (rule keeps_gets, blast)+

lemma keeps_advance [keep]: "(\<And>r. Q r V) \<Longrightarrow> keeps pAdvance Q V"
  by (rule keeps_same) (auto simp: pAdvance_def split: prod.splits)

lemma keeps_consume [keep]: "(\<And>r. Q r V) \<Longrightarrow> keeps (pConsume K) Q V"
  by (rule keeps_same) (auto simp: pConsume_def split: prod.splits)

lemma keeps_diag [keep]: "(\<And>r. Q r V) \<Longrightarrow> keeps (pDiag D) Q V"
  by (rule keeps_same) (auto simp: pDiag_def modify_def)

lemma keeps_addError [keep]: "(\<And>r. Q r V) \<Longrightarrow> keeps (addError S D) Q V"
  unfolding addError_def by (rule keeps_diag)

lemma keeps_stuck [keep]: "(\<And>r. Q r V) \<Longrightarrow> keeps (stuck x) Q V"
  by (rule keeps_same) (auto simp: stuck_def)

lemma keeps_kindOf [keep]: "(\<And>r. Q r V) \<Longrightarrow> keeps (pKindOf i) Q V"
  by (rule keeps_same) (auto simp: pKindOf_def split: option.splits)

lemma keeps_spanOf [keep]: "(\<And>r. Q r V) \<Longrightarrow> keeps (pSpanOf i) Q V"
  by (rule keeps_same) (auto simp: pSpanOf_def split: option.splits)

text \<open>Names and nodes.\<close>

lemma typed_intern:
  assumes "typed s V" "intern x (Interner s) = (N, I)"
  shows "typed (s \<lparr> Interner := I \<rparr>) (insert N V)"
proof -
  let ?n = "length (Strings (Interner s))"
  have w: "unat (of_nat ?n :: u32) \<le> ?n" by (simp add: unat_of_nat)
  show ?thesis
  proof (cases "Table (Interner s) x")
    case None
    with assms(2) have I: "N = of_nat ?n" "Strings I = Strings (Interner s) @ [x]"
      "Table I = (Table (Interner s))(x \<mapsto> N)" by (auto simp: intern_def Let_def)
    have "payloads_typed (Pool s) I"
      using assms(1) fits_type_mono by (fastforce simp: typed_def payloads_typed_def I)
    with assms(1) I w None show ?thesis
      by (auto simp: typed_def less_Suc_eq_le intro: less_imp_le)
  next
    case (Some M)
    with assms have "N = M" "I = Interner s" by (auto simp: intern_def)
    with assms(1) Some show ?thesis by (auto simp: typed_def intro: ranI)
  qed
qed

lemma keeps_internText [keep]: "(\<And>N. Q N (insert N V)) \<Longrightarrow> keeps (internText S) Q V"
  by (rule keeps_I) (auto simp: internText_def split: prod.splits intro: typed_intern)

lemma keeps_internStr [keep]: "(\<And>N. Q N (insert N V)) \<Longrightarrow> keeps (internStr S) Q V"
  by (rule keeps_I) (auto simp: internStr_def split: prod.splits intro: typed_intern)

text \<open>A payload that fits, given the ids known.\<close>

definition payload_in :: "u32 set \<Rightarrow> node_kind \<Rightarrow> u32 \<Rightarrow> bool" where
  "payload_in V K p \<longleftrightarrow> (\<forall>n. 0 < n \<longrightarrow> (\<forall>N\<in>V. unat N < n) \<longrightarrow> fits_type n p (payload_type K))"

lemma payload_in_simps:
  "payload_type K = PNone \<Longrightarrow> payload_in V K 0"
  "payload_type K = PName \<Longrightarrow> p \<in> V \<or> p = NullStr \<Longrightarrow> payload_in V K p"
  "payload_type K = PPacked \<Longrightarrow> N \<in> V \<Longrightarrow> payload_in V K (makePayload N R)"
  "payload_type K = POp \<Longrightarrow> payload_in V K (opPayload B)"
  "payload_type K = PCount \<Longrightarrow> payload_in V K (makeOpPayload v)"
  by (auto simp: payload_in_def NullStr_def fits_packed simp del: fits_type.simps(2))

lemma keeps_alloc [keep]:
  assumes "payload_in V K p" "\<And>i. Q i V"
  shows "keeps (pAlloc K S ks p f) Q V"
proof (rule keeps_I)
  fix s i s' assume s: "typed s V" "run_state (pAlloc K S ks p f) s = (i, s')"
  have "fits_type (length (Strings (Interner s))) p (payload_type K)"
    using assms(1) s(1) by (auto simp: payload_in_def typed_def)
  with s have "typed s' V"
    by (auto simp: typed_def payloads_typed_def pAlloc_def alloc_def Let_def)
  with assms(2) show "\<exists>W. Q i W \<and> typed s' W" by blast
qed

lemma keeps_allocLeaf [keep]: "\<lbrakk>payload_in V K p; \<And>i. Q i V\<rbrakk> \<Longrightarrow> keeps (pAllocLeaf K S p) Q V"
  unfolding pAllocLeaf_def by (rule keeps_alloc)

lemma keeps_error [keep]: "(\<And>i. Q i V) \<Longrightarrow> keeps (makeErrorNode S) Q V"
  unfolding makeErrorNode_def by (rule keeps_allocLeaf) (auto intro: payload_in_simps simp: payload_type_def)

lemma keeps_withStructLit [keep]:
  assumes "keeps m Q V"
  shows "keeps (withStructLit v m) Q V"
proof (rule keeps_I)
  fix s r s' assume s: "typed s V" "run_state (withStructLit v m) s = (r, s')"
  obtain t where t: "run_state m (s \<lparr> StructLitAllowed := v \<rparr>) = (r, t)"
    "s' = t \<lparr> StructLitAllowed := StructLitAllowed s \<rparr>"
    using s(2) by (auto simp: withStructLit_def gets_def modify_def State_Monad.bind_def
        State_Monad.return_def split: prod.splits)
  have "typed (s \<lparr> StructLitAllowed := v \<rparr>) V" using s(1) by (simp add: typed_def)
  from keeps_D [OF assms this t(1)] obtain W where "Q r W" "typed t W" .
  then show "\<exists>W. Q r W \<and> typed s' W" by (intro exI [of _ W]) (simp add: t(2) typed_def)
qed

text \<open>Ids handed out may be forgotten.\<close>

lemma keeps_forget: "\<lbrakk>keeps m (\<lambda>_ W. V \<subseteq> W) V; \<And>r. Q r V\<rbrakk> \<Longrightarrow> keeps m Q V"
  unfolding keeps_def using typed_less by blast

text \<open>A loop forgets the ids that its rounds hand out.\<close>

lemma keeps_loopN:
  assumes "\<And>x. keeps (body x) (\<lambda>p W. V \<subseteq> W) V" "\<And>y. Q y V"
  shows "keeps (loopN n body x) Q V"
proof (induction n arbitrary: x)
  case 0
  then show ?case by (simp add: keeps_stuck assms(2))
next
  case (Suc n)
  have less: "keeps m Q V \<Longrightarrow> V \<subseteq> W \<Longrightarrow> keeps m Q W" for m :: "'a parser" and W
    unfolding keeps_def using typed_less by blast
  show ?case
    unfolding loopN.simps
    by (rule keeps_bind, rule keeps_mono [OF assms(1)], rule keeps_prod, rule keeps_if)
      (auto intro: less Suc.IH keeps_return assms(2))
qed

lemma keeps_loopP [keep]:
  assumes "\<And>x. keeps (body x) (\<lambda>p W. V \<subseteq> W) V" "\<And>y. Q y V"
  shows "keeps (loopP body x) Q V"
  unfolding loopP_def by (intro keeps_bind keeps_gets keeps_loopN assms)

section \<open>Helpers of the parser\<close>

lemma keeps_expectIn [keep]: "(\<And>r. Q r V) \<Longrightarrow> keeps (expectIn K D C) Q V"
  unfolding expectIn_def Let_def by (intro keep)

lemma keeps_expect [keep]: "(\<And>r. Q r V) \<Longrightarrow> keeps (expect K D) Q V"
  unfolding expect_def by (rule keeps_expectIn)

lemma keeps_expectAndIntern [keep]: "(\<And>N. Q N (insert N V)) \<Longrightarrow> keeps (expectAndIntern K D) Q V"
  unfolding expectAndIntern_def by (intro keep)

lemma keeps_expectName [keep]: "(\<And>N. Q N (insert N V)) \<Longrightarrow> keeps (expectName K C) Q V"
  unfolding expectName_def Let_def by (intro keep)

lemma keeps_skipTo [keep]: "(\<And>r. Q r V) \<Longrightarrow> keeps (skipTo Ks) Q V"
  unfolding skipTo_def by (intro keep order_refl)

lemma keeps_parseUntil [keep]:
  "\<lbrakk>keeps m (\<lambda>_ W. V \<subseteq> W) V; \<And>r. Q r V\<rbrakk> \<Longrightarrow> keeps (parseUntil C m xs) Q V"
  unfolding parseUntil_def by (intro keep order_refl; (rule keeps_forget, assumption)?; (intro keep order_refl)?)

lemma keeps_parseMore [keep]:
  "\<lbrakk>keeps m (\<lambda>_ W. V \<subseteq> W) V; \<And>r. Q r V\<rbrakk> \<Longrightarrow> keeps (parseMore Ks m xs) Q V"
  unfolding parseMore_def by (intro keep order_refl; (rule keeps_forget, assumption)?; (intro keep order_refl)?)

lemma keeps_parseCommaSeparated [keep]:
  "\<lbrakk>keeps m (\<lambda>_ W. V \<subseteq> W) V; \<And>r. Q r V\<rbrakk> \<Longrightarrow> keeps (parseCommaSeparated xs C m) Q V"
  unfolding parseCommaSeparated_def by (intro keep order_refl; (rule keeps_forget, assumption)?; (intro keep order_refl)?)

lemma keeps_comments [keep]:
  assumes "payload_type NK = PName" "\<And>r. Q r V"
  shows "keeps (parseComments K NK) Q V"
  unfolding parseComments_def
  by (intro keep order_refl payload_in_simps(2) assms) auto

lemma keeps_doc [keep]: "(\<And>r. Q r V) \<Longrightarrow> keeps parseDocComments Q V"
  "(\<And>r. Q r V) \<Longrightarrow> keeps parseFileDocComments Q V"
  unfolding parseDocComments_def parseFileDocComments_def
  by (rule keeps_comments, simp add: payload_type_def, blast)+

lemma keeps_skipSeparators [keep]: "(\<And>r. Q r V) \<Longrightarrow> keeps skipSeparators Q V"
  unfolding skipSeparators_def by (intro keep order_refl)

lemma keeps_path [keep]: "(\<And>r. Q r V) \<Longrightarrow> keeps (parsePathSegments S) Q V"
  unfolding parsePathSegments_def by (intro keep order_refl)

lemma keeps_synchronize [keep]: "(\<And>r. Q r V) \<Longrightarrow> keeps synchronize Q V"
  unfolding synchronize_def by (intro keep order_refl)

lemma keeps_regime [keep]: "(\<And>r. Q r V) \<Longrightarrow> keeps parseRegime Q V"
  unfolding parseRegime_def by (intro keep)

section \<open>Productions\<close>

definition calls_keep :: "calls \<Rightarrow> bool" where
  "calls_keep call \<longleftrightarrow> (\<forall>nt Q V. (\<forall>i. Q i V) \<longrightarrow> keeps (call nt) Q V)"

lemma keeps_call: "\<lbrakk>calls_keep call; \<And>i. Q i V\<rbrakk> \<Longrightarrow> keeps (call nt) Q V"
  by (simp add: calls_keep_def)

lemmas payload_simps = payload_type_def payload_in_simps

lemma keeps_parseTupleType [keep]:
  "\<lbrakk>calls_keep call; \<And>r. Q r V\<rbrakk> \<Longrightarrow> keeps (parseTupleType call) Q V"
  unfolding parseTupleType_def Let_def by (rule keeps_forget, intro keep keeps_call [of call] order_refl) (auto simp: payload_simps)

lemma keeps_parseNamedType [keep]:
  "(\<And>r. Q r V) \<Longrightarrow> keeps parseNamedType Q V"
  unfolding parseNamedType_def Let_def by (rule keeps_forget, intro keep order_refl) (auto simp: payload_simps)

lemma keeps_parseArrayType [keep]:
  "\<lbrakk>calls_keep call; \<And>r. Q r V\<rbrakk> \<Longrightarrow> keeps (parseArrayType call) Q V"
  unfolding parseArrayType_def Let_def parseConstExpr_def by (rule keeps_forget, intro keep keeps_call [of call] order_refl) (auto simp: payload_simps)

lemma keeps_parseTensorType [keep]:
  "\<lbrakk>calls_keep call; \<And>r. Q r V\<rbrakk> \<Longrightarrow> keeps (parseTensorType call) Q V"
  unfolding parseTensorType_def Let_def parseConstExpr_def by (rule keeps_forget, intro keep keeps_call [of call] order_refl) (auto simp: payload_simps)

lemma keeps_parseType [keep]:
  "\<lbrakk>calls_keep call; \<And>r. Q r V\<rbrakk> \<Longrightarrow> keeps (parseType call) Q V"
  unfolding parseType_def Let_def by (rule keeps_forget, intro keep keeps_call [of call] order_refl) (auto simp: payload_simps)

lemma keeps_parseGenericParam [keep]:
  "\<lbrakk>calls_keep call; \<And>r. Q r V\<rbrakk> \<Longrightarrow> keeps (parseGenericParam call) Q V"
  unfolding parseGenericParam_def Let_def by (rule keeps_forget, intro keep keeps_call [of call] order_refl) (auto simp: payload_simps)

lemma keeps_parseGenericParams [keep]:
  "\<lbrakk>calls_keep call; \<And>r. Q r V\<rbrakk> \<Longrightarrow> keeps (parseGenericParams call) Q V"
  unfolding parseGenericParams_def Let_def by (rule keeps_forget, intro keep keeps_call [of call] order_refl) (auto simp: payload_simps)

lemma keeps_parseGenericArgs [keep]:
  "\<lbrakk>calls_keep call; \<And>r. Q r V\<rbrakk> \<Longrightarrow> keeps (parseGenericArgs call) Q V"
  unfolding parseGenericArgs_def Let_def by (rule keeps_forget, intro keep keeps_call [of call] order_refl) (auto simp: payload_simps)

lemma keeps_parseFieldPat [keep]:
  "\<lbrakk>calls_keep call; \<And>r. Q r V\<rbrakk> \<Longrightarrow> keeps (parseFieldPat call) Q V"
  unfolding parseFieldPat_def Let_def by (rule keeps_forget, intro keep keeps_call [of call] order_refl) (auto simp: payload_simps)

lemma keeps_parseStructPat [keep]:
  "\<lbrakk>calls_keep call; N \<in> V; \<And>r. Q r V\<rbrakk> \<Longrightarrow> keeps (parseStructPat call N S) Q V"
  unfolding parseStructPat_def Let_def by (rule keeps_forget, intro keep keeps_call [of call] order_refl) (auto simp: payload_simps)

lemma keeps_parseTuplePat [keep]:
  "\<lbrakk>calls_keep call; N \<in> V \<or> N = NullStr; \<And>r. Q r V\<rbrakk> \<Longrightarrow> keeps (parseTuplePat call N S) Q V"
  unfolding parseTuplePat_def Let_def by (rule keeps_forget, intro keep keeps_call [of call] order_refl) (auto simp: payload_simps)

lemma keeps_parsePat [keep]:
  "\<lbrakk>calls_keep call; \<And>r. Q r V\<rbrakk> \<Longrightarrow> keeps (parsePat call) Q V"
  unfolding parsePat_def Let_def by (rule keeps_forget, intro keep keeps_call [of call] order_refl) (auto simp: payload_simps)

lemma keeps_parseBlockExpr [keep]:
  "\<lbrakk>calls_keep call; \<And>r. Q r V\<rbrakk> \<Longrightarrow> keeps (parseBlockExpr call) Q V"
  unfolding parseBlockExpr_def Let_def by (rule keeps_forget, intro keep keeps_call [of call] order_refl) (auto simp: payload_simps)

lemma keeps_parseUnsafeBlock [keep]:
  "\<lbrakk>calls_keep call; \<And>r. Q r V\<rbrakk> \<Longrightarrow> keeps (parseUnsafeBlock call) Q V"
  unfolding parseUnsafeBlock_def Let_def by (rule keeps_forget, intro keep keeps_call [of call] order_refl) (auto simp: payload_simps)

lemma keeps_parseIfExpr [keep]:
  "\<lbrakk>calls_keep call; \<And>r. Q r V\<rbrakk> \<Longrightarrow> keeps (parseIfExpr call) Q V"
  unfolding parseIfExpr_def Let_def by (rule keeps_forget, intro keep keeps_call [of call] order_refl) (auto simp: payload_simps)

lemma keeps_parseWhileStmt [keep]:
  "\<lbrakk>calls_keep call; \<And>r. Q r V\<rbrakk> \<Longrightarrow> keeps (parseWhileStmt call) Q V"
  unfolding parseWhileStmt_def Let_def by (rule keeps_forget, intro keep keeps_call [of call] order_refl) (auto simp: payload_simps)

lemma keeps_parseMatchArm [keep]:
  "\<lbrakk>calls_keep call; \<And>r. Q r V\<rbrakk> \<Longrightarrow> keeps (parseMatchArm call) Q V"
  unfolding parseMatchArm_def Let_def by (rule keeps_forget, intro keep keeps_call [of call] order_refl) (auto simp: payload_simps)

lemma keeps_parseMatchExpr [keep]:
  "\<lbrakk>calls_keep call; \<And>r. Q r V\<rbrakk> \<Longrightarrow> keeps (parseMatchExpr call) Q V"
  unfolding parseMatchExpr_def Let_def by (rule keeps_forget, intro keep keeps_call [of call] order_refl) (auto simp: payload_simps)

lemma keeps_parseLitExpr [keep]:
  "(\<And>r. Q r V) \<Longrightarrow> keeps (parseLitExpr T) Q V"
  unfolding parseLitExpr_def Let_def by (rule keeps_forget, intro keep order_refl) (auto simp: payload_simps)

lemma keeps_parseArgList [keep]:
  "\<lbrakk>calls_keep call; \<And>r. Q r V\<rbrakk> \<Longrightarrow> keeps (parseArgList call) Q V"
  unfolding parseArgList_def Let_def by (rule keeps_forget, intro keep keeps_call [of call] order_refl) (auto simp: payload_simps)

lemma keeps_parseFieldInit [keep]:
  "\<lbrakk>calls_keep call; \<And>r. Q r V\<rbrakk> \<Longrightarrow> keeps (parseFieldInit call) Q V"
  unfolding parseFieldInit_def Let_def by (rule keeps_forget, intro keep keeps_call [of call] order_refl) (auto simp: payload_simps)

lemma keeps_parseStructLitExpr [keep]:
  "\<lbrakk>calls_keep call; N \<in> V; \<And>r. Q r V\<rbrakk> \<Longrightarrow> keeps (parseStructLitExpr call N S) Q V"
  unfolding parseStructLitExpr_def Let_def by (rule keeps_forget, intro keep keeps_call [of call] order_refl) (auto simp: payload_simps)

lemma keeps_parseArrayLitExpr [keep]:
  "\<lbrakk>calls_keep call; \<And>r. Q r V\<rbrakk> \<Longrightarrow> keeps (parseArrayLitExpr call) Q V"
  unfolding parseArrayLitExpr_def Let_def parseConstExpr_def by (rule keeps_forget, intro keep keeps_call [of call] order_refl) (auto simp: payload_simps)

lemma keeps_parseTensorLitExpr [keep]:
  "\<lbrakk>calls_keep call; \<And>r. Q r V\<rbrakk> \<Longrightarrow> keeps (parseTensorLitExpr call) Q V"
  unfolding parseTensorLitExpr_def Let_def parseConstExpr_def by (rule keeps_forget, intro keep keeps_call [of call] order_refl) (auto simp: payload_simps)

lemma keeps_parsePostfixIndex [keep]:
  "\<lbrakk>calls_keep call; \<And>r. Q r V\<rbrakk> \<Longrightarrow> keeps (parsePostfixIndex call i) Q V"
  unfolding parsePostfixIndex_def Let_def by (rule keeps_forget, intro keep keeps_call [of call] order_refl) (auto simp: payload_simps)

lemma keeps_parseFieldAccess [keep]:
  "(\<And>r. Q r V) \<Longrightarrow> keeps (parseFieldAccess i) Q V"
  unfolding parseFieldAccess_def Let_def by (rule keeps_forget, intro keep order_refl) (auto simp: payload_simps)

lemma keeps_parseTupleIndex [keep]:
  "(\<And>r. Q r V) \<Longrightarrow> keeps (parseTupleIndex i S x) Q V"
  unfolding parseTupleIndex_def Let_def by (rule keeps_forget, intro keep order_refl) (auto simp: payload_simps)

lemma keeps_parseDot [keep]:
  "(\<And>r. Q r V) \<Longrightarrow> keeps (parseDot i) Q V"
  unfolding parseDot_def Let_def by (rule keeps_forget, intro keep order_refl) (auto simp: payload_simps)

lemma keeps_parsePostfix [keep]:
  "\<lbrakk>calls_keep call; \<And>r. Q r V\<rbrakk> \<Longrightarrow> keeps (parsePostfix call i) Q V"
  unfolding parsePostfix_def Let_def by (rule keeps_forget, intro keep keeps_call [of call] order_refl) (auto simp: payload_simps)

lemma keeps_parsePostfixOrCallExpr [keep]:
  "\<lbrakk>calls_keep call; \<And>r. Q r V\<rbrakk> \<Longrightarrow> keeps (parsePostfixOrCallExpr call i) Q V"
  unfolding parsePostfixOrCallExpr_def Let_def by (rule keeps_forget, intro keep keeps_call [of call] order_refl) (auto simp: payload_simps)

lemma keeps_parseParenExpr [keep]:
  "\<lbrakk>calls_keep call; \<And>r. Q r V\<rbrakk> \<Longrightarrow> keeps (parseParenExpr call T) Q V"
  unfolding parseParenExpr_def Let_def by (rule keeps_forget, intro keep keeps_call [of call] order_refl) (auto simp: payload_simps)

lemma keeps_parseNameExpr [keep]:
  "\<lbrakk>calls_keep call; \<And>r. Q r V\<rbrakk> \<Longrightarrow> keeps (parseNameExpr call T) Q V"
  unfolding parseNameExpr_def Let_def by (rule keeps_forget, intro keep keeps_call [of call] order_refl) (auto simp: payload_simps)

lemma keeps_parseUnaryExpr [keep]:
  "\<lbrakk>calls_keep call; \<And>r. Q r V\<rbrakk> \<Longrightarrow> keeps (parseUnaryExpr call T) Q V"
  unfolding parseUnaryExpr_def Let_def by (rule keeps_forget, intro keep keeps_call [of call] order_refl) (auto simp: payload_simps)

lemma keeps_parseStarExpr [keep]:
  "\<lbrakk>calls_keep call; \<And>r. Q r V\<rbrakk> \<Longrightarrow> keeps (parseStarExpr call T) Q V"
  unfolding parseStarExpr_def Let_def by (rule keeps_forget, intro keep keeps_call [of call] order_refl) (auto simp: payload_simps)

lemma keeps_parsePrefixExpr [keep]:
  "\<lbrakk>calls_keep call; \<And>r. Q r V\<rbrakk> \<Longrightarrow> keeps (parsePrefixExpr call) Q V"
  unfolding parsePrefixExpr_def Let_def by (rule keeps_forget, intro keep keeps_call [of call] order_refl) (auto simp: payload_simps)

lemma keeps_parseInfix [keep]:
  "\<lbrakk>calls_keep call; \<And>r. Q r V\<rbrakk> \<Longrightarrow> keeps (parseInfix call m i) Q V"
  unfolding parseInfix_def Let_def by (rule keeps_forget, intro keep keeps_call [of call] order_refl) (auto simp: payload_simps)

lemma keeps_parseExpr [keep]:
  "\<lbrakk>calls_keep call; \<And>r. Q r V\<rbrakk> \<Longrightarrow> keeps (parseExpr call m) Q V"
  unfolding parseExpr_def Let_def by (rule keeps_forget, intro keep keeps_call [of call] order_refl) (auto simp: payload_simps)

lemma keeps_endLetStmt [keep]:
  "(\<And>r. Q r V) \<Longrightarrow> keeps (endLetStmt ks) Q V"
  unfolding endLetStmt_def Let_def by (rule keeps_forget, intro keep order_refl) (auto simp: payload_simps)

lemma keeps_parseLetStmt [keep]:
  "\<lbrakk>calls_keep call; \<And>r. Q r V\<rbrakk> \<Longrightarrow> keeps (parseLetStmt call) Q V"
  unfolding parseLetStmt_def Let_def by (rule keeps_forget, intro keep keeps_call [of call] order_refl) (auto simp: payload_simps)

lemma keeps_parseRetStmt [keep]:
  "\<lbrakk>calls_keep call; \<And>r. Q r V\<rbrakk> \<Longrightarrow> keeps (parseRetStmt call) Q V"
  unfolding parseRetStmt_def Let_def by (rule keeps_forget, intro keep keeps_call [of call] order_refl) (auto simp: payload_simps)

lemma keeps_parseForStmt [keep]:
  "\<lbrakk>calls_keep call; \<And>r. Q r V\<rbrakk> \<Longrightarrow> keeps (parseForStmt call) Q V"
  unfolding parseForStmt_def Let_def by (rule keeps_forget, intro keep keeps_call [of call] order_refl) (auto simp: payload_simps)

lemma keeps_parseBreakStmt [keep]:
  "(\<And>r. Q r V) \<Longrightarrow> keeps parseBreakStmt Q V"
  unfolding parseBreakStmt_def Let_def by (rule keeps_forget, intro keep order_refl) (auto simp: payload_simps)

lemma keeps_parseContinueStmt [keep]:
  "(\<And>r. Q r V) \<Longrightarrow> keeps parseContinueStmt Q V"
  unfolding parseContinueStmt_def Let_def by (rule keeps_forget, intro keep order_refl) (auto simp: payload_simps)

lemma keeps_parseExprStmt [keep]:
  "\<lbrakk>calls_keep call; \<And>r. Q r V\<rbrakk> \<Longrightarrow> keeps (parseExprStmt call) Q V"
  unfolding parseExprStmt_def Let_def by (rule keeps_forget, intro keep keeps_call [of call] order_refl) (auto simp: payload_simps)

lemma keeps_parseStmt [keep]:
  "\<lbrakk>calls_keep call; \<And>r. Q r V\<rbrakk> \<Longrightarrow> keeps (parseStmt call) Q V"
  unfolding parseStmt_def Let_def by (rule keeps_forget, intro keep keeps_call [of call] order_refl) (auto simp: payload_simps)

lemma keeps_parseConstDecl [keep]:
  "\<lbrakk>calls_keep call; \<And>r. Q r V\<rbrakk> \<Longrightarrow> keeps (parseConstDecl call ds f) Q V"
  unfolding parseConstDecl_def Let_def parseConstExpr_def by (rule keeps_forget, intro keep keeps_call [of call] order_refl) (auto simp: payload_simps)

lemma keeps_parseStructField [keep]:
  "\<lbrakk>calls_keep call; \<And>r. Q r V\<rbrakk> \<Longrightarrow> keeps (parseStructField call) Q V"
  unfolding parseStructField_def Let_def by (rule keeps_forget, intro keep keeps_call [of call] order_refl) (auto simp: payload_simps)

lemma keeps_parseEnumVariant [keep]:
  "\<lbrakk>calls_keep call; \<And>r. Q r V\<rbrakk> \<Longrightarrow> keeps (parseEnumVariant call) Q V"
  unfolding parseEnumVariant_def Let_def parseConstExpr_def by (rule keeps_forget, intro keep keeps_call [of call] order_refl) (auto simp: payload_simps)

lemma keeps_parseParam [keep]:
  "\<lbrakk>calls_keep call; \<And>r. Q r V\<rbrakk> \<Longrightarrow> keeps (parseParam call) Q V"
  unfolding parseParam_def Let_def by (rule keeps_forget, intro keep keeps_call [of call] order_refl) (auto simp: payload_simps)

lemma keeps_parseParamList [keep]:
  "\<lbrakk>calls_keep call; \<And>r. Q r V\<rbrakk> \<Longrightarrow> keeps (parseParamList call) Q V"
  unfolding parseParamList_def Let_def by (rule keeps_forget, intro keep keeps_call [of call] order_refl) (auto simp: payload_simps)

lemma keeps_parseReturnType [keep]:
  "\<lbrakk>calls_keep call; \<And>r. Q r V\<rbrakk> \<Longrightarrow> keeps (parseReturnType call) Q V"
  unfolding parseReturnType_def Let_def by (rule keeps_forget, intro keep keeps_call [of call] order_refl) (auto simp: payload_simps)

lemma keeps_parseFnDecl [keep]:
  "\<lbrakk>calls_keep call; \<And>r. Q r V\<rbrakk> \<Longrightarrow> keeps (parseFnDecl call ds f b) Q V"
  unfolding parseFnDecl_def Let_def by (rule keeps_forget, intro keep keeps_call [of call] order_refl) (auto simp: payload_simps)

lemma keeps_parseStructDecl [keep]:
  "\<lbrakk>calls_keep call; \<And>r. Q r V\<rbrakk> \<Longrightarrow> keeps (parseStructDecl call ds f) Q V"
  unfolding parseStructDecl_def parseBodyDecl_def Let_def by (rule keeps_forget, intro keep keeps_call [of call] order_refl) (auto simp: payload_simps)

lemma keeps_parseEnumDecl [keep]:
  "\<lbrakk>calls_keep call; \<And>r. Q r V\<rbrakk> \<Longrightarrow> keeps (parseEnumDecl call ds f) Q V"
  unfolding parseEnumDecl_def parseBodyDecl_def Let_def by (rule keeps_forget, intro keep keeps_call [of call] order_refl) (auto simp: payload_simps)

lemma keeps_parseUnionDecl [keep]:
  "\<lbrakk>calls_keep call; \<And>r. Q r V\<rbrakk> \<Longrightarrow> keeps (parseUnionDecl call ds f) Q V"
  unfolding parseUnionDecl_def parseBodyDecl_def Let_def by (rule keeps_forget, intro keep keeps_call [of call] order_refl) (auto simp: payload_simps)

lemma keeps_parseModDecl [keep]:
  "\<lbrakk>calls_keep call; \<And>r. Q r V\<rbrakk> \<Longrightarrow> keeps (parseModDecl call ds f) Q V"
  unfolding parseModDecl_def Let_def by (rule keeps_forget, intro keep keeps_call [of call] order_refl) (auto simp: payload_simps)

lemma keeps_parseUseSegments [keep]:
  "(\<And>r. Q r V) \<Longrightarrow> keeps (parseUseSegments S) Q V"
  unfolding parseUseSegments_def Let_def by (rule keeps_forget, intro keep order_refl) (auto simp: payload_simps)

lemma keeps_parseUseTail [keep]:
  assumes "\<And>S N W. \<lbrakk>V \<subseteq> W; N \<in> W\<rbrakk> \<Longrightarrow> Q (S, N) W"
  shows "keeps (parseUseTail S) Q V"
  unfolding parseUseTail_def by (intro keep assms) auto

lemma keeps_parseUseDecl [keep]:
  "(\<And>r. Q r V) \<Longrightarrow> keeps (parseUseDecl ds f) Q V"
  unfolding parseUseDecl_def Let_def by (rule keeps_forget, intro keep order_refl) (auto simp: payload_simps)

lemma keeps_parseMethods [keep]:
  "\<lbrakk>calls_keep call; \<And>r. Q r V\<rbrakk> \<Longrightarrow> keeps (parseMethods call b ks) Q V"
  unfolding parseMethods_def Let_def by (rule keeps_forget, intro keep keeps_call [of call] order_refl) (auto simp: payload_simps)

lemma keeps_parseTraitDecl [keep]:
  "\<lbrakk>calls_keep call; \<And>r. Q r V\<rbrakk> \<Longrightarrow> keeps (parseTraitDecl call ds f) Q V"
  unfolding parseTraitDecl_def Let_def by (rule keeps_forget, intro keep keeps_call [of call] order_refl) (auto simp: payload_simps)

lemma keeps_parseImplDecl [keep]:
  "\<lbrakk>calls_keep call; \<And>r. Q r V\<rbrakk> \<Longrightarrow> keeps (parseImplDecl call ds f) Q V"
  unfolding parseImplDecl_def Let_def by (rule keeps_forget, intro keep keeps_call [of call] order_refl) (auto simp: payload_simps)

lemma keeps_parseTopLevelDecl [keep]:
  "\<lbrakk>calls_keep call; \<And>r. Q r V\<rbrakk> \<Longrightarrow> keeps (parseTopLevelDecl call) Q V"
  unfolding parseTopLevelDecl_def Let_def by (rule keeps_forget, intro keep keeps_call [of call] order_refl) (auto simp: payload_simps)

lemma keeps_parseSourceFile [keep]:
  "\<lbrakk>calls_keep call; \<And>r. Q r V\<rbrakk> \<Longrightarrow> keeps (parseSourceFile call) Q V"
  unfolding parseSourceFile_def Let_def by (rule keeps_forget, intro keep keeps_call [of call] order_refl) (auto simp: payload_simps)

section \<open>The parser\<close>

lemma keeps_tie: "calls_keep (tie n)"
proof (induction n)
  case 0
  show ?case by (simp add: calls_keep_def keeps_stuck)
next
  case (Suc n)
  show ?case
    unfolding calls_keep_def
  proof (intro allI impI)
    fix nt :: nonterm and Q :: "node_index \<Rightarrow> u32 set \<Rightarrow> bool" and V assume "\<forall>i. Q i V"
    then have "\<And>i. Q i V" by blast
    then show "keeps (tie (Suc n) nt) Q V" by (cases nt) (simp_all add: keep Suc.IH)
  qed
qed

text \<open>What the logic needs of the interner: its ids are below its size.\<close>

definition ids_ok :: "interner \<Rightarrow> bool" where
  "ids_ok I \<longleftrightarrow> Strings I \<noteq> [] \<and> (\<forall>N\<in>ran (Table I). unat N < length (Strings I))"

lemma ids_ok_wf: "interner_wf I \<Longrightarrow> ids_ok I"
  by (auto simp: ids_ok_def interner_wf_def ran_def)

lemma typed_new: "ids_ok I \<Longrightarrow> typed (newParser TS I) {}"
  by (auto simp: typed_def newParser_def payloads_typed_def newNodePool_def alloc_def Let_def
      ids_ok_def payload_type_def)

lemma parse_typed:
  assumes "ids_ok I" "parse TS I = Some (R, I')"
  shows "payloads_typed (ResultPool R) I' \<and> ids_ok I'"
proof -
  obtain s where run: "run_state (parseSourceFile (tie (Suc (remaining TS)))) (newParser TS I) = (Root R, s)"
    and s: "ResultPool R = Pool s" "I' = Interner s"
    using assms(2) by (auto simp: parse_def split: prod.splits if_splits)
  have "keeps (parseSourceFile (tie (Suc (remaining TS)))) (\<lambda>r W. {} \<subseteq> W) {}"
    by (rule keeps_parseSourceFile [OF keeps_tie]) simp
  from keeps_D [OF this typed_new [OF assms(1)] run] show ?thesis by (auto simp: typed_def ids_ok_def s)
qed

section \<open>Properties\<close>

text \<open>C8: payloads are typed.  Whatever the tokens are, errors included, every node of a parse has
  the payload that its kind says: the id of a string that the interner holds, such an id under a
  regime, the code of an operator, a count, or zero; so the name of a node can always be
  looked up.\<close>

theorem parse_payloads:
  assumes "interner_wf I" "parse TS I = Some (R, I')"
  shows "payloads_typed (ResultPool R) I'"
  using parse_typed [OF ids_ok_wf [OF assms(1)] assms(2)] by (rule conjunct1)

theorem parse_payloads_witness:
  "\<exists>R I'. parse (newTokenStream (lex ''mod m; +'') ''mod m; +'') newInterner = Some (R, I')
     \<and> payloads_typed (ResultPool R) I'"
proof -
  note src = source_stream [of "''mod m; +''"]
  obtain R I' where r: "parse (newTokenStream (lex ''mod m; +'') ''mod m; +'') newInterner = Some (R, I')"
    using parseSourceFile_returns src by force
  with parse_payloads [OF interner_wf_new r] show ?thesis by blast
qed

end
