(* ===== verification/DiagnosticPrinter.thy ===== *)
theory DiagnosticPrinter
  imports DiagnosticEngine
begin

text \<open>
  The printing of diagnostics (\<^verbatim>\<open>lib/Base/DiagnosticEngine.cpp\<close>).  What goes to the error stream
  is a list of outputs: texts and changes of colour.  A column, a line number and a count keep
  their 32 bits; an offset into the buffer, 64 bits wide in the program, is a natural number.
\<close>

section \<open>Output\<close>

datatype color = MAGENTA | RED | YELLOW | CYAN | BLUE | GREEN | SAVEDCOLOR

datatype out_item = Text string | ChangeColor color bool | ResetColor

primrec output_text :: "out_item \<Rightarrow> string" where
  "output_text (Text s) = s"
| "output_text (ChangeColor C b) = []"
| "output_text ResetColor = []"

definition plain_text :: "out_item list \<Rightarrow> string" where
  "plain_text os = concat (map output_text os)"

definition bold :: "color \<Rightarrow> out_item" where
  "bold C = ChangeColor C True"

text \<open>\<^verbatim>\<open>OS << N\<close> for a number.\<close>

function decimal :: "nat \<Rightarrow> string" where
  "decimal n = (if n < 10 then [char_of (48 + n)] else decimal (n div 10) @ [char_of (48 + n mod 10)])"
  by pat_completeness auto
termination
  by (relation "measure id") auto

declare decimal.simps [simp del]

definition shown :: "u32 \<Rightarrow> out_item" where
  "shown N = Text (decimal (unat N))"

function digitWidthLoop :: "u32 \<Rightarrow> u32 \<Rightarrow> u32" where
  "digitWidthLoop N W = (if N \<ge> 10 then digitWidthLoop (N div 10) (W + 1) else W)"
  by pat_completeness auto
termination
  by (relation "measure (\<lambda>(N, W). unat N)")
    (auto simp: unat_div word_le_nat_alt intro!: div_less_dividend)

declare digitWidthLoop.simps [simp del]

definition digitWidth :: "u32 \<Rightarrow> u32" where
  "digitWidth N = digitWidthLoop N 1"

definition levelColor :: "diagnostic_level \<Rightarrow> diagnostic_kind \<Rightarrow> color" where
  "levelColor L K =
     (if K = InternalCompilerError then MAGENTA
      else case L of LevelError \<Rightarrow> RED | LevelWarning \<Rightarrow> YELLOW | LevelNote \<Rightarrow> CYAN)"

definition levelTitle :: "diagnostic_level \<Rightarrow> diagnostic_kind \<Rightarrow> string" where
  "levelTitle L K =
     (if K = InternalCompilerError then ''internal compiler error''
      else case L of LevelError \<Rightarrow> ''error'' | LevelWarning \<Rightarrow> ''warning'' | LevelNote \<Rightarrow> ''note'')"

definition writeRepeated :: "u32 \<Rightarrow> char \<Rightarrow> out_item" where
  "writeRepeated Count C = Text (replicate (unat Count) C)"

section \<open>Lines of the buffer\<close>

definition findLineStart :: "string \<Rightarrow> nat \<Rightarrow> nat" where
  "findLineStart B Off0 =
     (if Off0 = 0 then 0
      else let Off = (if Off0 > length B then length B else Off0) in
           case rfind_char B ch_lf Off of None \<Rightarrow> 0 | Some Nl \<Rightarrow> Nl + 1)"

definition findLineEnd :: "string \<Rightarrow> nat \<Rightarrow> nat" where
  "findLineEnd B Off = (case find_char B ch_lf Off of None \<Rightarrow> length B | Some Nl \<Rightarrow> Nl)"

definition countLines :: "string \<Rightarrow> u32" where
  "countLines B = (if B = [] then 0 else fold (\<lambda>C N. if C = ch_lf then N + 1 else N) B 1)"

section \<open>Snippets\<close>

text \<open>The local variables of \<^verbatim>\<open>printSnippet\<close> that its main loop reads.\<close>

record snippet =
  SpanStartLine :: u32
  SpanEndLine :: u32
  StartCol :: u32
  EndCol :: u32
  CtxEndLine :: u32
  GutterW :: u32
  Caption :: string
  MarkColor :: color
  UseCaret :: bool
  SkipLine :: u32

text \<open>One round of the main loop: the line, and the marks under it.\<close>

definition sourceLine :: "snippet \<Rightarrow> u32 \<Rightarrow> string \<Rightarrow> out_item list" where
  "sourceLine v CurLine LineText =
     [Text '' '', bold BLUE, writeRepeated (GutterW v - digitWidth CurLine) CHR '' '', shown CurLine,
      Text '' | '', ResetColor, Text (LineText @ [ch_lf])]"

definition markLine :: "snippet \<Rightarrow> u32 \<Rightarrow> u32 \<Rightarrow> out_item list" where
  "markLine v CurLine LineLen =
     (let FromCol = (if CurLine = SpanStartLine v then StartCol v else 1);
          ToCol0 = (if CurLine = SpanEndLine v then EndCol v else LineLen + 1);
          ToCol = (if ToCol0 \<le> FromCol then FromCol + 1 else ToCol0);
          Width = ToCol - FromCol
      in [Text '' '', bold BLUE, writeRepeated (GutterW v) CHR '' '', Text '' | '', ResetColor,
          writeRepeated (FromCol - 1) CHR '' '', bold (MarkColor v),
          writeRepeated Width (if UseCaret v then CHR ''^'' else CHR ''-'')]
         @ (if Caption v \<noteq> [] \<and> CurLine = SpanEndLine v then [Text (CHR '' '' # Caption v)] else [])
         @ [ResetColor, Text [ch_lf]])"

definition snippetLine :: "snippet \<Rightarrow> u32 \<Rightarrow> string \<Rightarrow> nat \<Rightarrow> nat \<Rightarrow> out_item list" where
  "snippetLine v CurLine Buf LineOff LineEndOff =
     (let LineText = slice Buf LineOff LineEndOff;
          InSpan = (CurLine \<ge> SpanStartLine v \<and> CurLine \<le> SpanEndLine v);
          IsSkippedLine = (SkipLine v \<noteq> 0 \<and> CurLine = SkipLine v)
      in (if \<not> IsSkippedLine then sourceLine v CurLine LineText else [])
         @ (if InSpan then markLine v CurLine (of_nat (LineEndOff - LineOff)) else []))"

function snippetLoop :: "snippet \<Rightarrow> string \<Rightarrow> nat \<Rightarrow> u32 \<Rightarrow> out_item list" where
  "snippetLoop v Buf LineOff CurLine =
     (if CurLine \<le> CtxEndLine v then
        let LineEndOff = findLineEnd Buf LineOff in
        snippetLine v CurLine Buf LineOff LineEndOff
        @ (if LineEndOff \<ge> length Buf then [] else snippetLoop v Buf (LineEndOff + 1) (CurLine + 1))
      else [])"
  by pat_completeness auto
termination
  by (relation "measure (\<lambda>(v, Buf, LineOff, CurLine). length Buf - LineOff)")
    (auto simp: findLineEnd_def find_char_Some split: option.splits)

declare snippetLoop.simps [simp del]

text \<open>The loop that steps back to the first line of context.\<close>

primrec contextStart :: "nat \<Rightarrow> string \<Rightarrow> nat \<Rightarrow> nat" where
  "contextStart 0 Buf LineOff = LineOff"
| "contextStart (Suc Steps) Buf LineOff =
     (if LineOff = 0 then LineOff else contextStart Steps Buf (findLineStart Buf (LineOff - 1)))"

definition printSnippet ::
    "span \<Rightarrow> string \<Rightarrow> color \<Rightarrow> bool \<Rightarrow> bool \<Rightarrow> bool \<Rightarrow> u32 \<Rightarrow> source_manager
     \<Rightarrow> out_item list \<times> source_manager" where
  "printSnippet S Cap Color ShowTopBorder ShowContextBefore Caret Skip M =
     (let Buf = getBuffer M in
      if Buf = [] then ([], M)
      else
        let StartOff = min (unat (Start S)) (length Buf);
            EndOff0 = min (unat (End S)) (length Buf);
            EndOff = (if EndOff0 < StartOff then StartOff else EndOff0);
            (StartLoc, M1) = getLocation (of_nat StartOff) M;
            (EndLoc, M2) = getLocation (of_nat EndOff) M1;
            TotalLines = countLines Buf;
            CtxStartLine = (if ShowContextBefore \<and> Line StartLoc > 1 then Line StartLoc - 1 else Line StartLoc);
            CtxEnd = min TotalLines (Line EndLoc + 1);
            v = \<lparr> SpanStartLine = Line StartLoc, SpanEndLine = Line EndLoc, StartCol = Column StartLoc,
                  EndCol = Column EndLoc, CtxEndLine = CtxEnd, GutterW = digitWidth CtxEnd, Caption = Cap,
                  MarkColor = Color, UseCaret = Caret, SkipLine = Skip \<rparr>;
            LineOff = contextStart (unat (Line StartLoc - CtxStartLine)) Buf (findLineStart Buf StartOff)
        in ((if ShowTopBorder
             then [Text '' '', bold BLUE, writeRepeated (GutterW v) CHR '' '', Text ('' |'' @ [ch_lf]), ResetColor]
             else [])
            @ snippetLoop v Buf LineOff CtxStartLine, M2))"

section \<open>Diagnostics\<close>

text \<open>A line with a coloured head.\<close>

definition headed :: "color \<Rightarrow> string \<Rightarrow> string \<Rightarrow> out_item list" where
  "headed C Head Body = [bold C, Text Head, ResetColor, Text (Body @ [ch_lf])]"

fun printLabels :: "diagnostic_label list \<Rightarrow> bool \<Rightarrow> u32 \<Rightarrow> source_manager
    \<Rightarrow> out_item list \<times> source_manager" where
  "printLabels [] Ctx Skip M = ([], M)"
| "printLabels (L # Ls) Ctx Skip M =
     (let (Os, M1) = printSnippet (DiagSpan L) (LabelMessage L) BLUE Ctx Ctx False Skip M;
          (Os', M2) = printLabels Ls Ctx Skip M1
      in (Os @ Os', M2))"

definition printLocation :: "diagnostic \<Rightarrow> source_manager \<Rightarrow> out_item list \<times> source_manager" where
  "printLocation D M =
     (case Location D of
        LocNone \<Rightarrow> ([], M)
      | LocFile F \<Rightarrow> (headed BLUE '' --> '' F, M)
      | LocSpan Sp \<Rightarrow>
          let (StartLoc, M1) = getLocation (Start Sp) M;
              Head = [bold BLUE, Text '' --> '', ResetColor, Text (getFilename M), Text '':'',
                shown (Line StartLoc), Text '':'', shown (Column StartLoc), Text [ch_lf]];
              MainCaption = (case DHelps D of [] \<Rightarrow> [] | H # _ \<Rightarrow> H);
              (Main, M2) = printSnippet Sp MainCaption (levelColor (Level D) (DiagKind D)) True True True 0 M1;
              (SpEnd, M3) = getLocation (End Sp) M2;
              MainCtxEndLine = min (countLines (getBuffer M3)) (Line SpEnd + 1);
              (Labs, M4) = printLabels (DLabels D) False MainCtxEndLine M3
          in (Head @ Main @ Labs, M4))"

definition printDiag :: "diagnostic \<Rightarrow> source_manager \<Rightarrow> out_item list \<times> source_manager" where
  "printDiag D M =
     (let Color = levelColor (Level D) (DiagKind D);
          Head = [bold Color, Text (levelTitle (Level D) (DiagKind D)), ResetColor, bold SAVEDCOLOR,
            Text ('': '' @ Message D @ [ch_lf]), ResetColor];
          (Loc, M1) = printLocation D M;
          (Labs, M2) = (case Location D of LocSpan _ \<Rightarrow> ([], M1) | _ \<Rightarrow> printLabels (DLabels D) True 0 M1)
      in (Head @ Loc @ Labs
          @ concat (map (headed CYAN ''note: '') (DNotes D))
          @ concat (map (headed GREEN '' = help: '') (tl (DHelps D)))
          @ (if DiagKind D = InternalCompilerError
             then [Text [ch_lf], bold MAGENTA, Text (''=== INTERNAL COMPILER ERROR ==='' @ [ch_lf]), ResetColor,
                   Text (''This is a bug in the compiler. Please report it to the developers.'' @ [ch_lf])]
             else []), M2))"

fun printList :: "diagnostic list \<Rightarrow> source_manager \<Rightarrow> out_item list \<times> source_manager" where
  "printList [] M = ([], M)"
| "printList (D # Ds) M =
     (let (Os, M1) = printDiag D M; (Os', M2) = printList Ds M1 in (Os @ Os', M2))"

definition printAll :: "diagnostic_engine \<Rightarrow> out_item list" where
  "printAll E = fst (printList (Diagnostics E) (SM E))"

end
