(* ===== verification/PrinterProps.thy ===== *)
theory PrinterProps
  imports DiagnosticPrinter
begin

text \<open>
  What the printing of diagnostics shows: the lines of a snippet are lines of the buffer, numbered
  as \<open>getLocation\<close> numbers them, in gutters of one width, with the marks under the span.
\<close>

section \<open>Lines\<close>

fun split_lines :: "string \<Rightarrow> string list" where
  "split_lines [] = [[]]"
| "split_lines (c # s) =
     (if c = ch_lf then [] # split_lines s else (c # hd (split_lines s)) # tl (split_lines s))"

definition feeds :: "string \<Rightarrow> nat" where
  "feeds s = count_list s ch_lf"

lemma feeds_simps [simp]:
  "feeds [] = 0" "feeds (c # s) = (if c = ch_lf then Suc (feeds s) else feeds s)"
  "feeds (s @ t) = feeds s + feeds t"
  by (simp_all add: feeds_def)

lemma feeds_0: "feeds s = 0 \<longleftrightarrow> ch_lf \<notin> set s"
  by (simp add: feeds_def count_list_0_iff)

lemma feeds_le: "feeds s \<le> length s"
  by (simp add: feeds_def count_le_length)

lemma split_lines_nonempty [simp]: "split_lines s \<noteq> []"
  by (cases s) auto

lemma length_split_lines: "length (split_lines s) = Suc (feeds s)"
proof (induction s)
  case (Cons c s)
  then show ?case by (cases "split_lines s") auto
qed simp

lemma split_lines_append: "split_lines (s @ ch_lf # t) = split_lines s @ split_lines t"
proof (induction s)
  case (Cons c s)
  then show ?case by (cases "split_lines s") auto
qed simp

lemma split_lines_free: "ch_lf \<notin> set s \<Longrightarrow> split_lines s = [s]"
  by (induction s) auto

lemma split_lines_takeWhile:
  "split_lines s = takeWhile (\<lambda>c. c \<noteq> ch_lf) s
     # (case dropWhile (\<lambda>c. c \<noteq> ch_lf) s of [] \<Rightarrow> [] | _ # t \<Rightarrow> split_lines t)"
  by (induction s) auto

lemma feeds_take_le: "feeds (take i s) \<le> feeds s"
  by (metis append_take_drop_id feeds_simps(3) le_add1)

lemma feeds_take_mono: "i \<le> j \<Longrightarrow> feeds (take i s) \<le> feeds (take j s)"
  by (metis feeds_take_le min_absorb1 take_take)

text \<open>An offset at which a line starts.\<close>

definition line_start :: "string \<Rightarrow> nat \<Rightarrow> bool" where
  "line_start s i \<longleftrightarrow> i \<le> length s \<and> (i = 0 \<or> s ! (i - 1) = ch_lf)"

lemma split_lines_drop:
  assumes "line_start s i"
  shows "split_lines (drop i s) = drop (feeds (take i s)) (split_lines s)"
proof (cases "i = 0")
  case False
  then obtain j where j: "i = Suc j" "j < length s" "s ! j = ch_lf"
    using assms by (cases i) (auto simp: line_start_def)
  then have s: "s = take j s @ ch_lf # drop i s" by (metis id_take_nth_drop)
  have "feeds (take i s) = Suc (feeds (take j s))" using j by (simp add: take_Suc_conv_app_nth)
  then show ?thesis
    by (subst (3) s) (simp add: split_lines_append length_split_lines del: append_take_drop_id)
qed simp

lemma index_of_takeWhile:
  "index_of c xs = Some k \<Longrightarrow> k = length (takeWhile (\<lambda>x. x \<noteq> c) xs)"
  by (induction xs arbitrary: k) (auto split: if_splits)

lemma findLineEnd_line:
  assumes "i \<le> length s"
  shows "findLineEnd s i = i + length (hd (split_lines (drop i s)))"
    "slice s i (findLineEnd s i) = hd (split_lines (drop i s))"
    "findLineEnd s i < length s \<Longrightarrow>
       tl (split_lines (drop i s)) = split_lines (drop (findLineEnd s i + 1) s)"
    "length s \<le> findLineEnd s i \<Longrightarrow> tl (split_lines (drop i s)) = []"
proof -
  let ?P = "\<lambda>c. c \<noteq> ch_lf"
  have hd: "hd (split_lines (drop i s)) = takeWhile ?P (drop i s)"
    by (subst split_lines_takeWhile) simp
  show e: "findLineEnd s i = i + length (hd (split_lines (drop i s)))"
  proof (cases "index_of ch_lf (drop i s)")
    case None
    then have "takeWhile ?P (drop i s) = drop i s" by (auto simp: takeWhile_eq_all_conv)
    with None assms hd show ?thesis by (simp add: findLineEnd_def find_char_def del: index_of_None)
  next
    case (Some k)
    with index_of_takeWhile [OF Some] hd show ?thesis by (simp add: findLineEnd_def find_char_def)
  qed
  show "slice s i (findLineEnd s i) = hd (split_lines (drop i s))"
    unfolding e hd by (simp add: slice_def takeWhile_eq_take [symmetric])
  have d: "dropWhile ?P (drop i s) = drop (findLineEnd s i) s"
    unfolding e hd by (simp add: dropWhile_eq_drop add.commute)
  have tl: "tl (split_lines (drop i s)) = (case drop (findLineEnd s i) s of [] \<Rightarrow> [] | _ # t \<Rightarrow> split_lines t)"
    by (subst split_lines_takeWhile) (simp add: d)
  show "tl (split_lines (drop i s)) = split_lines (drop (findLineEnd s i + 1) s)" if "findLineEnd s i < length s"
    using that unfolding tl by (simp add: Cons_nth_drop_Suc [symmetric])
  show "tl (split_lines (drop i s)) = []" if "length s \<le> findLineEnd s i"
    using that unfolding tl by simp
qed

lemma findLineStart_eq:
  assumes "k \<le> length s"
  shows "findLineStart s k = k - length (takeWhile (\<lambda>c. c \<noteq> ch_lf) (rev (take k s)))"
proof (cases "index_of ch_lf (rev (take k s))")
  case None
  then have "takeWhile (\<lambda>c. c \<noteq> ch_lf) (rev (take k s)) = rev (take k s)"
    by (subst takeWhile_eq_all_conv) auto
  from arg_cong [OF this, of length] None assms show ?thesis by (simp add: findLineStart_def rfind_char_def Let_def del: index_of_None)
next
  case (Some n)
  then have "n < k" using assms by (auto simp: index_of_Some)
  with Some assms index_of_takeWhile [OF Some] show ?thesis
    by (simp add: findLineStart_def rfind_char_def Let_def)
qed

lemma findLineStart_line:
  assumes "k \<le> length s"
  shows "line_start s (findLineStart s k)" "findLineStart s k \<le> k"
    "feeds (take (findLineStart s k) s) = feeds (take k s)"
proof -
  let ?P = "\<lambda>c. c \<noteq> ch_lf"
  let ?w = "takeWhile ?P (rev (take k s))" and ?d = "dropWhile ?P (rev (take k s))"
  have "rev (take k s) = ?w @ ?d" by (rule takeWhile_dropWhile_id [symmetric])
  then have t: "take k s = rev ?d @ rev ?w" by (metis rev_append rev_rev_ident)
  have l: "length ?d + length ?w = k" using arg_cong [OF t, of length] assms by simp
  then have i: "findLineStart s k = length ?d" using findLineStart_eq [OF assms] by simp
  have p: "take (findLineStart s k) s = rev ?d"
    using arg_cong [OF t, of "take (length ?d)"] l i by (simp add: min_def)
  show "findLineStart s k \<le> k" using i l by simp
  have "feeds (rev ?w) = 0" by (auto simp: feeds_0 dest: set_takeWhileD)
  then show "feeds (take (findLineStart s k) s) = feeds (take k s)" unfolding p by (subst t) simp
  show "line_start s (findLineStart s k)"
  proof (cases "?d = []")
    case False
    then have "hd ?d = ch_lf" using hd_dropWhile [OF False] by simp
    with False have "take (length ?d) s ! (length ?d - 1) = ch_lf"
      unfolding p [unfolded i] by (simp add: rev_nth hd_conv_nth)
    with False l assms show ?thesis unfolding i line_start_def by (cases ?d) simp_all
  next
    case True
    then show ?thesis unfolding i line_start_def True by simp
  qed
qed

lemma contextStart_line:
  assumes "line_start s i" "n \<le> feeds (take i s)"
  shows "line_start s (contextStart n s i) \<and> feeds (take (contextStart n s i) s) = feeds (take i s) - n"
  using assms
proof (induction n arbitrary: i)
  case (Suc n)
  then have "i \<noteq> 0" by (cases i) simp_all
  then obtain j where j: "i = Suc j" "j < length s" "s ! j = ch_lf"
    using Suc.prems(1) by (cases i) (auto simp: line_start_def)
  have f: "feeds (take i s) = Suc (feeds (take j s))" using j by (simp add: take_Suc_conv_app_nth)
  from findLineStart_line [of j s] j(2) Suc.IH [of "findLineStart s j"] Suc.prems(2) f j(1)
  show ?case by simp
qed simp


lemma back_free:
  assumes "feeds t = 0"
  shows "length (takeWhile (\<lambda>c. c \<noteq> ch_lf) (rev t)) = length t"
proof -
  have "takeWhile (\<lambda>c. c \<noteq> ch_lf) (rev t) = rev t"
    using assms by (subst takeWhile_eq_all_conv) (auto simp: feeds_0)
  from arg_cong [OF this, of length] show ?thesis by simp
qed

lemma back_Cons:
  "takeWhile (\<lambda>c. c \<noteq> ch_lf) (rev t @ [x]) = (if feeds t = 0 then rev t @ (if x = ch_lf then [] else [x])
     else takeWhile (\<lambda>c. c \<noteq> ch_lf) (rev t))"
proof (cases "feeds t = 0")
  case True
  then have "takeWhile (\<lambda>c. c \<noteq> ch_lf) (rev t @ [x]) = rev t @ takeWhile (\<lambda>c. c \<noteq> ch_lf) [x]"
    by (intro takeWhile_append2) (auto simp: feeds_0)
  with True show ?thesis by simp
next
  case False
  then have "ch_lf \<in> set (rev t)" by (simp add: feeds_0)
  then show ?thesis using False by (simp add: takeWhile_append1)
qed

lemma scan_feeds:
  "k \<le> length s \<Longrightarrow> scan l c s k = (l + feeds (take k s), if feeds (take k s) = 0 then c + k
      else Suc (length (takeWhile (\<lambda>c. c \<noteq> ch_lf) (rev (take k s)))))"
proof (induction l c s k rule: scan.induct)
  case (3 l c x s k)
  show ?case
  proof (cases "x = ch_lf")
    case True
    with 3(1) 3(3) show ?thesis by (simp add: back_Cons)
  next
    case False
    with 3(2) 3(3) show ?thesis by (simp add: back_Cons)
  qed
qed simp_all

lemma getLocation_at:
  assumes "manager_wf M" "Suc (length (getBuffer M)) < 4294967296" "k \<le> length (getBuffer M)"
    "getLocation (of_nat k) M = (Loc, M')"
  shows "unat (Line Loc) = Suc (feeds (take k (getBuffer M)))"
    "unat (Column Loc) = Suc (k - findLineStart (getBuffer M) k)"
    "manager_wf M'" "getBuffer M' = getBuffer M"
proof -
  let ?B = "getBuffer M"
  have k: "unat (of_nat k :: u32) = k" using assms(2,3) by simp
  have "(of_nat k :: u32) \<noteq> 4294967295"
  proof
    assume "(of_nat k :: u32) = 4294967295"
    from arg_cong [OF this, of unat] k assms(2,3) show False by simp
  qed
  from location_scan [OF assms(1,2) this assms(4)] k
  have "scan 1 1 ?B k = (unat (Line Loc), unat (Column Loc))" by simp
  then have L: "unat (Line Loc) = Suc (feeds (take k ?B))" "unat (Column Loc) = (if feeds (take k ?B) = 0
      then Suc k else Suc (length (takeWhile (\<lambda>c. c \<noteq> ch_lf) (rev (take k ?B)))))"
    using scan_feeds [OF assms(3), of 1 1] by simp_all
  show "unat (Line Loc) = Suc (feeds (take k ?B))" by (rule L)
  have "length (takeWhile (\<lambda>c. c \<noteq> ch_lf) (rev (take k ?B))) \<le> k"
    using length_takeWhile_le [of "\<lambda>c. c \<noteq> ch_lf" "rev (take k ?B)"] by simp
  then show "unat (Column Loc) = Suc (k - findLineStart ?B k)"
    using L(2) assms(3) back_free [of "take k ?B"] by (simp add: findLineStart_eq)
  show "manager_wf M'" "getBuffer M' = ?B"
    using getLocation_wf [OF assms(1,4)] by (simp_all add: getBuffer_def)
qed

section \<open>The lines of a snippet\<close>

text \<open>The reference: line \<open>i\<close> of the buffer, from zero, with its number and its marks.\<close>

definition shown_line :: "snippet \<Rightarrow> string \<Rightarrow> nat \<Rightarrow> out_item list" where
  "shown_line v B i = (let n = of_nat (Suc i); t = split_lines B ! i in
     (if SkipLine v \<noteq> 0 \<and> n = SkipLine v then [] else sourceLine v n t)
     @ (if SpanStartLine v \<le> n \<and> n \<le> SpanEndLine v then markLine v n (of_nat (length t)) else []))"

lemma findLineEnd_next:
  assumes "line_start B i" "findLineEnd B i < length B"
  shows "line_start B (findLineEnd B i + 1)" "feeds (take (findLineEnd B i + 1) B) = Suc (feeds (take i B))"
proof -
  let ?e = "findLineEnd B i"
  have "find_char B ch_lf i = Some ?e"
    using assms(2) by (auto simp: findLineEnd_def split: option.splits)
  then have e: "i \<le> ?e" "?e < length B" "B ! ?e = ch_lf" "ch_lf \<notin> set (take (?e - i) (drop i B))"
    by (simp_all add: find_char_Some)
  then show "line_start B (?e + 1)" by (simp add: line_start_def)
  have "take ?e B = take i B @ take (?e - i) (drop i B)" using e(1) by (metis le_add_diff_inverse take_add)
  with e(4) have "feeds (take ?e B) = feeds (take i B)" by (simp add: feeds_0)
  with e(2,3) show "feeds (take (?e + 1) B) = Suc (feeds (take i B))"
    by (simp add: take_Suc_conv_app_nth)
qed

lemma snippetLoop_lines:
  assumes "line_start B i" "Suc (length B) < 4294967296"
  shows "snippetLoop v B i (of_nat (Suc (feeds (take i B))))
    = concat (map (shown_line v B) [feeds (take i B)..<min (Suc (feeds B)) (unat (CtxEndLine v))])"
  using assms
proof (induction "length B - i" arbitrary: i rule: less_induct)
  case less
  let ?n = "feeds (take i B)" and ?e = "findLineEnd B i"
  have i: "i \<le> length B" using less.prems(1) by (simp add: line_start_def)
  have n: "Suc ?n < 4294967296" "?n \<le> feeds B"
    using less.prems(2) feeds_le [of "take i B"] feeds_take_le [of i B] by simp_all
  then have u: "unat (of_nat (Suc ?n) :: u32) = Suc ?n" by (simp del: of_nat_Suc)
  have sp: "split_lines (drop i B) = drop ?n (split_lines B)" by (rule split_lines_drop [OF less.prems(1)])
  have hd: "hd (split_lines (drop i B)) = split_lines B ! ?n"
    unfolding sp using n(2) by (simp add: hd_drop_conv_nth length_split_lines)
  have line: "snippetLine v (of_nat (Suc ?n)) B i ?e = shown_line v B ?n"
    using findLineEnd_line(1,2) [OF i] unfolding hd
    by (simp add: snippetLine_def shown_line_def Let_def del: of_nat_Suc)
  show ?case
  proof (cases "Suc ?n \<le> unat (CtxEndLine v)")
    case False
    then show ?thesis by (simp add: snippetLoop.simps [of v B i] word_le_nat_alt u del: of_nat_Suc)
  next
    case True
    then have 1: "snippetLoop v B i (of_nat (Suc ?n)) = shown_line v B ?n
      @ (if ?e \<ge> length B then [] else snippetLoop v B (?e + 1) (of_nat (Suc ?n) + 1))"
      by (subst snippetLoop.simps) (simp add: word_le_nat_alt u Let_def line del: of_nat_Suc)
    have 2: "[?n..<min (Suc (feeds B)) (unat (CtxEndLine v))]
        = ?n # [Suc ?n..<min (Suc (feeds B)) (unat (CtxEndLine v))]"
      using True n(2) by (intro upt_conv_Cons) simp
    show ?thesis
    proof (cases "?e \<ge> length B")
      case True
      with findLineEnd_line(4) [OF i] have "length (tl (drop ?n (split_lines B))) = 0" unfolding sp by simp
      then have "feeds B = ?n" using n(2) by (simp add: length_split_lines)
      then show ?thesis using True unfolding 1 2 by simp
    next
      case False
      note nx = findLineEnd_next [OF less.prems(1)]
      have "length B - (?e + 1) < length B - i"
        using False findLineEnd_line(1) [OF i] by simp
      from less.hyps [OF this] nx False less.prems(2) show ?thesis unfolding 1 2 by simp
    qed
  qed
qed

lemma countLines_feeds:
  assumes "B \<noteq> []"
  shows "countLines B = of_nat (Suc (feeds B))"
proof -
  have "fold (\<lambda>C N. if C = ch_lf then N + 1 else N) B (x :: u32) = x + of_nat (feeds B)" for x
    by (induction B arbitrary: x) simp_all
  with assms show ?thesis by (simp add: countLines_def)
qed

text \<open>The local variables of \<open>printSnippet\<close>, by counting line feeds.\<close>

definition span_ends :: "string \<Rightarrow> span \<Rightarrow> nat \<times> nat" where
  "span_ends B S = (let a = min (unat (Start S)) (length B) in (a, max a (min (unat (End S)) (length B))))"

definition column_at :: "string \<Rightarrow> nat \<Rightarrow> nat" where
  "column_at B k = k - findLineStart B k"

definition snippet_of :: "string \<Rightarrow> span \<Rightarrow> string \<Rightarrow> color \<Rightarrow> bool \<Rightarrow> u32 \<Rightarrow> snippet" where
  "snippet_of B S Cap Color Caret Skip = (case span_ends B S of (a, b) \<Rightarrow>
     let CtxEnd = of_nat (min (Suc (feeds B)) (feeds (take b B) + 2)) in
     \<lparr> SpanStartLine = of_nat (Suc (feeds (take a B))), SpanEndLine = of_nat (Suc (feeds (take b B))),
       StartCol = of_nat (Suc (column_at B a)), EndCol = of_nat (Suc (column_at B b)),
       CtxEndLine = CtxEnd, GutterW = digitWidth CtxEnd, Caption = Cap, MarkColor = Color,
       UseCaret = Caret, SkipLine = Skip \<rparr>)"

definition border :: "u32 \<Rightarrow> out_item list" where
  "border W = [Text '' '', bold BLUE, writeRepeated W CHR '' '', Text ('' |'' @ [ch_lf]), ResetColor]"

lemma word_eq_of_nat: "n < 4294967296 \<Longrightarrow> unat (w :: u32) = n \<longleftrightarrow> w = of_nat n"
  by (auto simp: word_unat_eq_iff)

lemma min_of_nat:
  "\<lbrakk>m < 4294967296; n < 4294967296\<rbrakk> \<Longrightarrow> min (of_nat m :: u32) (of_nat n) = of_nat (min m n)"
  by (simp add: min_def word_le_nat_alt)

lemma printSnippet_eq:
  assumes M: "manager_wf M" "B = getBuffer M" and B: "B \<noteq> []" "length B + 3 \<le> 4294967296"
    and ab: "span_ends B S = (a, b)"
  shows "printSnippet S Cap Color Top Ctx Caret Skip M = (os, M') \<Longrightarrow>
    os = (if Top then border (GutterW (snippet_of B S Cap Color Caret Skip)) else [])
      @ concat (map (shown_line (snippet_of B S Cap Color Caret Skip) B)
          [feeds (take a B) - (if Ctx then 1 else 0)..<min (Suc (feeds B)) (feeds (take b B) + 2)])
    \<and> manager_wf M' \<and> getBuffer M' = B"
proof -
  have le: "a \<le> b" "b \<le> length B" and ab': "min (unat (Start S)) (length B) = a"
    "(if min (unat (End S)) (length B) < a then a else min (unat (End S)) (length B)) = b"
    using ab by (auto simp: span_ends_def Let_def)
  obtain LA M1 where g1: "getLocation (of_nat a) M = (LA, M1)" by (metis prod.exhaust)
  obtain LB M2 where g2: "getLocation (of_nat b) M1 = (LB, M2)" by (metis prod.exhaust)
  have A: "unat (Line LA) = Suc (feeds (take a B))" "unat (Column LA) = Suc (column_at B a)"
    "manager_wf M1" "getBuffer M1 = B"
    using getLocation_at [OF M(1) _ _ g1] le B(2) by (simp_all add: M(2) column_at_def)
  have E: "unat (Line LB) = Suc (feeds (take b B))" "unat (Column LB) = Suc (column_at B b)"
    "manager_wf M2" "getBuffer M2 = B"
    using getLocation_at [OF A(3) _ _ g2] le B(2) by (simp_all add: A(4) column_at_def)
  have small: "feeds (take a B) + 2 < 4294967296" "feeds (take b B) + 2 < 4294967296"
    "column_at B a + 2 < 4294967296" "column_at B b + 2 < 4294967296" "feeds B + 2 < 4294967296"
    "feeds (take a B) \<le> feeds B"
    using feeds_le [of "take a B"] feeds_le [of "take b B"] feeds_le [of B] feeds_take_le le B(2)
    by (simp_all add: column_at_def)
  have w: "Line LA = of_nat (Suc (feeds (take a B)))" "Line LB = of_nat (Suc (feeds (take b B)))"
    "Column LA = of_nat (Suc (column_at B a))" "Column LB = of_nat (Suc (column_at B b))"
    using A(1,2) E(1,2) small by (simp_all add: word_eq_of_nat del: of_nat_Suc)
  have "Line LB + 1 = of_nat (feeds (take b B) + 2)" unfolding w(2) by simp
  then have ctx: "min (countLines B) (Line LB + 1) = of_nat (min (Suc (feeds B)) (feeds (take b B) + 2))"
    unfolding countLines_feeds [OF B(1)] using small by (simp only: min_of_nat)
  define bk where "bk = (if Ctx \<and> Line LA > 1 then Line LA - 1 else Line LA)"
  define d :: nat where "d = (if Ctx \<and> 0 < feeds (take a B) then 1 else 0)"
  have gt: "Line LA > 1 \<longleftrightarrow> 0 < feeds (take a B)" using A(1) by (simp add: word_less_nat_alt)
  have bk: "bk = of_nat (Suc (feeds (take a B) - d))" "unat (Line LA - bk) = d"
    using w(1) unfolding bk_def d_def gt
    by (cases "feeds (take a B)"; simp)+
  let ?i = "contextStart d B (findLineStart B a)"
  note ls = findLineStart_line [of a B]
  have i: "line_start B ?i" "feeds (take ?i B) = feeds (take a B) - d"
    using contextStart_line [OF ls(1), of d] ls(3) le by (simp_all add: d_def)
  have d: "feeds (take a B) - d = feeds (take a B) - (if Ctx then 1 else 0)" by (simp add: d_def)
  have v: "\<lparr> SpanStartLine = Line LA, SpanEndLine = Line LB, StartCol = Column LA, EndCol = Column LB,
      CtxEndLine = of_nat (min (Suc (feeds B)) (feeds (take b B) + 2)),
      GutterW = digitWidth (of_nat (min (Suc (feeds B)) (feeds (take b B) + 2))), Caption = Cap,
      MarkColor = Color, UseCaret = Caret, SkipLine = Skip \<rparr> = snippet_of B S Cap Color Caret Skip"
    by (simp add: snippet_of_def ab Let_def w del: of_nat_Suc)
  have ce: "unat (CtxEndLine (snippet_of B S Cap Color Caret Skip)) = min (Suc (feeds B)) (feeds (take b B) + 2)"
    using small by (simp add: snippet_of_def ab Let_def del: of_nat_Suc)
  have "printSnippet S Cap Color Top Ctx Caret Skip M
    = ((if Top then border (GutterW (snippet_of B S Cap Color Caret Skip)) else [])
        @ snippetLoop (snippet_of B S Cap Color Caret Skip) B ?i bk, M2)"
    unfolding printSnippet_def M(2) [symmetric] Let_def ab' g1 g2 prod.case ctx v
    by (simp only: B(1) if_False g1 g2 prod.case ctx v bk_def [symmetric] bk(2) border_def)
  moreover have "snippetLoop (snippet_of B S Cap Color Caret Skip) B ?i bk
    = concat (map (shown_line (snippet_of B S Cap Color Caret Skip) B)
        [feeds (take a B) - (if Ctx then 1 else 0)..<min (Suc (feeds B)) (feeds (take b B) + 2)])"
    using snippetLoop_lines [OF i(1), of "snippet_of B S Cap Color Caret Skip"] B(2)
    unfolding i(2) bk(1) ce d by simp
  ultimately show "printSnippet S Cap Color Top Ctx Caret Skip M = (os, M') \<Longrightarrow> ?thesis"
    using E(3,4) by simp
qed

section \<open>Numbers\<close>

lemma length_decimal_pos: "0 < length (decimal n)"
  by (subst decimal.simps) simp

lemma length_decimal_mono: "m \<le> n \<Longrightarrow> length (decimal m) \<le> length (decimal n)"
proof (induction n arbitrary: m rule: decimal.induct)
  case (1 n)
  show ?case
  proof (cases "m < 10")
    case True
    then have "length (decimal m) = 1" by (subst decimal.simps) simp
    then show ?thesis using length_decimal_pos [of n] by linarith
  next
    case False
    then have n: "\<not> n < 10" using 1(2) by simp
    have "length (decimal (m div 10)) \<le> length (decimal (n div 10))"
      by (rule 1(1) [OF n]) (use 1(2) in \<open>simp add: div_le_mono\<close>)
    then show ?thesis using False n by (subst (1 2) decimal.simps) simp
  qed
qed

lemma length_decimal_bound: "n < 10 ^ k \<Longrightarrow> 0 < k \<Longrightarrow> length (decimal n) \<le> k"
proof (induction n arbitrary: k rule: decimal.induct)
  case (1 n)
  show ?case
  proof (cases "n < 10")
    case True
    then show ?thesis using 1(3) by (subst decimal.simps) simp
  next
    case False
    then obtain k' where k: "k = Suc k'" "0 < k'" using 1(2,3) by (cases k; cases "k - 1") auto
    then have "n div 10 < 10 ^ k'" using 1(2) by (simp add: div_less_iff_less_mult mult.commute)
    from 1(1) [OF False this k(2)] False k show ?thesis by (subst decimal.simps) simp
  qed
qed

lemma digitWidthLoop_decimal: "digitWidthLoop N W = W + of_nat (length (decimal (unat N)) - 1)"
proof (induction N W rule: digitWidthLoop.induct)
  case (1 N W)
  show ?case
  proof (cases "N \<ge> 10")
    case True
    then have n: "\<not> unat N < 10" by (simp add: word_le_nat_alt)
    have "length (decimal (unat N)) = Suc (length (decimal (unat N div 10)))"
      using n by (subst decimal.simps) simp
    with 1(1) [OF True] True length_decimal_pos [of "unat N div 10"] show ?thesis
      by (subst digitWidthLoop.simps) (simp add: unat_div gr0_conv_Suc)
  next
    case False
    then have "unat N < 10" by (simp add: word_le_nat_alt)
    then have "length (decimal (unat N)) = 1" by (subst decimal.simps) simp
    with False show ?thesis by (subst digitWidthLoop.simps) simp
  qed
qed

lemma digitWidth_decimal: "unat (digitWidth N) = length (decimal (unat N))"
proof -
  have "unat N < 4294967296" using unsigned_less [of N, where 'a = nat] by simp
  then have b: "length (decimal (unat N)) \<le> 10" by (intro length_decimal_bound) simp_all
  have "digitWidth N = of_nat (length (decimal (unat N)))"
    unfolding digitWidth_def digitWidthLoop_decimal using length_decimal_pos [of "unat N"]
    by (cases "length (decimal (unat N))") simp_all
  with b show ?thesis by simp
qed

section \<open>The text of a snippet\<close>

lemma plain_text_simps [simp]:
  "plain_text [] = []" "plain_text (Text s # os) = s @ plain_text os"
  "plain_text (ChangeColor C b # os) = plain_text os" "plain_text (ResetColor # os) = plain_text os"
  "plain_text (os @ os') = plain_text os @ plain_text os'"
  "plain_text (bold C # os) = plain_text os"
  "plain_text (writeRepeated n c # os) = replicate (unat n) c @ plain_text os"
  "plain_text (shown n # os) = decimal (unat n) @ plain_text os"
  by (simp_all add: plain_text_def bold_def writeRepeated_def shown_def)

lemma plain_text_concat: "plain_text (concat oss) = concat (map plain_text oss)"
  by (induction oss) simp_all

text \<open>
  The reference on numbers that do not wrap around: \<open>gutter W s\<close> puts \<open>s\<close> to the right in a
  gutter \<open>W\<close> wide; \<open>snippet_line\<close> is line \<open>i\<close> with its number and, if it is in the span from
  \<open>a\<close> to \<open>b\<close>, its marks: from the first byte of the span or of the line, to the last.
\<close>

definition gutter :: "nat \<Rightarrow> string \<Rightarrow> string" where
  "gutter W s = CHR '' '' # replicate (W - length s) CHR '' '' @ s @ '' | ''"

definition mark_text :: "string \<Rightarrow> nat \<Rightarrow> nat \<Rightarrow> nat \<Rightarrow> string \<Rightarrow> char \<Rightarrow> nat \<Rightarrow> string" where
  "mark_text B a b W Cap Mark i =
     (let f = (if i = feeds (take a B) then column_at B a else 0);
          t = (if i = feeds (take b B) then column_at B b else length (split_lines B ! i))
      in gutter W [] @ replicate f CHR '' '' @ replicate (max 1 (t - f)) Mark
         @ (if i = feeds (take b B) \<and> Cap \<noteq> [] then CHR '' '' # Cap else []) @ [ch_lf])"

definition snippet_line :: "string \<Rightarrow> nat \<Rightarrow> nat \<Rightarrow> nat \<Rightarrow> string \<Rightarrow> char \<Rightarrow> nat \<Rightarrow> nat \<Rightarrow> string" where
  "snippet_line B a b W Cap Mark skip i =
     (if Suc i = skip then [] else gutter W (decimal (Suc i)) @ split_lines B ! i @ [ch_lf])
     @ (if feeds (take a B) \<le> i \<and> i \<le> feeds (take b B) then mark_text B a b W Cap Mark i else [])"

definition snippet_text :: "string \<Rightarrow> span \<Rightarrow> string \<Rightarrow> bool \<Rightarrow> bool \<Rightarrow> bool \<Rightarrow> nat \<Rightarrow> string" where
  "snippet_text B S Cap Top Ctx Caret skip = (case span_ends B S of (a, b) \<Rightarrow>
     let stop = min (Suc (feeds B)) (feeds (take b B) + 2); W = length (decimal stop) in
     (if Top then CHR '' '' # replicate W CHR '' '' @ '' |'' @ [ch_lf] else [])
     @ concat (map (snippet_line B a b W Cap (if Caret then CHR ''^'' else CHR ''-'') skip)
         [feeds (take a B) - (if Ctx then 1 else 0)..<stop]))"

lemma length_line_le: "t \<in> set (split_lines s) \<Longrightarrow> length t \<le> length s"
proof (induction s arbitrary: t)
  case (Cons c s)
  then show ?case by (cases "split_lines s") (fastforce split: if_splits)+
qed simp

lemma mark_width:
  assumes "f + 2 < 4294967296" "t + 2 < 4294967296"
  shows "unat ((if (of_nat (Suc t) :: u32) \<le> of_nat (Suc f) then of_nat (Suc f) + 1 else of_nat (Suc t))
      - (of_nat (Suc f) :: u32)) = max 1 (t - f)"
    "unat (of_nat (Suc f) - 1 :: u32) = f"
proof -
  have u: "unat (of_nat (Suc t) :: u32) = Suc t" "unat (of_nat (Suc f) :: u32) = Suc f"
    using assms by (intro unat_of_nat32; simp)+
  then have le: "(of_nat (Suc t) :: u32) \<le> of_nat (Suc f) \<longleftrightarrow> t \<le> f" by (simp add: word_le_nat_alt del: of_nat_Suc)
  show "unat ((if (of_nat (Suc t) :: u32) \<le> of_nat (Suc f) then of_nat (Suc f) + 1 else of_nat (Suc t))
      - (of_nat (Suc f) :: u32)) = max 1 (t - f)"
  proof (cases "t \<le> f")
    case True
    then show ?thesis unfolding le by simp
  next
    case False
    then have "(of_nat (Suc f) :: u32) \<le> of_nat (Suc t)" using u by (simp add: word_le_nat_alt del: of_nat_Suc)
    from unat_sub [OF this] False u show ?thesis unfolding le by (simp del: of_nat_Suc)
  qed
  show "unat (of_nat (Suc f) - 1 :: u32) = f" using assms by simp
qed

lemma shown_line_text:
  assumes "length B + 3 \<le> 4294967296" "span_ends B S = (a, b)"
    "i < min (Suc (feeds B)) (feeds (take b B) + 2)"
  shows "plain_text (shown_line (snippet_of B S Cap Color Caret Skip) B i)
    = snippet_line B a b (length (decimal (min (Suc (feeds B)) (feeds (take b B) + 2)))) Cap
        (if Caret then CHR ''^'' else CHR ''-'') (unat Skip) i"
proof -
  let ?stop = "min (Suc (feeds B)) (feeds (take b B) + 2)" and ?n = "of_nat (Suc i) :: u32"
  let ?v = "snippet_of B S Cap Color Caret Skip" and ?t = "split_lines B ! i"
  have ab: "a \<le> b" "b \<le> length B" using assms(2) by (auto simp: span_ends_def Let_def)
  have f: "feeds B + 2 < 4294967296" "feeds (take a B) + 2 < 4294967296" "feeds (take b B) + 2 < 4294967296"
    "column_at B a + 2 < 4294967296" "column_at B b + 2 < 4294967296"
    using feeds_le [of B] feeds_le [of "take a B"] feeds_le [of "take b B"] ab assms(1)
    by (simp_all add: column_at_def)
  then have i: "unat ?n = Suc i" "?n \<noteq> 0" using assms(3) by (simp_all add: word_unat_eq_iff del: of_nat_Suc)
  have "?t \<in> set (split_lines B)" using assms(3) by (simp add: length_split_lines)
  then have t: "length ?t + 2 < 4294967296" using length_line_le assms(1) by fastforce
  have stop: "unat (of_nat ?stop :: u32) = ?stop" by (rule unat_of_nat32) (use f in simp)
  let ?W = "digitWidth (of_nat ?stop)"
  have W: "unat ?W = length (decimal ?stop)" unfolding digitWidth_decimal stop ..
  have "length (decimal (Suc i)) \<le> length (decimal ?stop)"
    by (intro length_decimal_mono Suc_leI assms(3))
  then have pad: "unat (?W - digitWidth ?n) = length (decimal ?stop) - length (decimal (Suc i))"
    using W i(1) by (simp add: unat_sub word_le_nat_alt digitWidth_decimal)
  have skip: "Skip \<noteq> 0 \<and> ?n = Skip \<longleftrightarrow> Suc i = unat Skip"
    using i by (metis unat_0 nat.distinct(1) word_unat_eq_iff)
  have inspan: "of_nat (Suc (feeds (take a B))) \<le> ?n \<longleftrightarrow> feeds (take a B) \<le> i"
    "?n \<le> of_nat (Suc (feeds (take b B))) \<longleftrightarrow> i \<le> feeds (take b B)"
    "?n = of_nat (Suc (feeds (take a B))) \<longleftrightarrow> i = feeds (take a B)"
    "?n = of_nat (Suc (feeds (take b B))) \<longleftrightarrow> i = feeds (take b B)"
    using i(1) f by (simp_all add: word_le_nat_alt word_unat_eq_iff del: of_nat_Suc)
  have line: "plain_text (sourceLine ?v ?n ?t)
      = gutter (length (decimal ?stop)) (decimal (Suc i)) @ ?t @ [ch_lf]"
    using pad i(1) by (simp add: sourceLine_def snippet_of_def assms(2) gutter_def Let_def del: of_nat_Suc)
  have mark: "plain_text (markLine ?v ?n (of_nat (length ?t))) = mark_text B a b (length (decimal ?stop)) Cap
      (if Caret then CHR ''^'' else CHR ''-'') i"
  proof -
    let ?f = "if i = feeds (take a B) then column_at B a else 0"
    let ?e = "if i = feeds (take b B) then column_at B b else length ?t"
    have fe: "?f + 2 < 4294967296" "?e + 2 < 4294967296" using f t by simp_all
    have from_to: "(if ?n = SpanStartLine ?v then StartCol ?v else 1) = of_nat (Suc ?f)"
      "(if ?n = SpanEndLine ?v then EndCol ?v else of_nat (length ?t) + 1) = of_nat (Suc ?e)"
      using inspan by (simp_all add: snippet_of_def assms(2) Let_def)
    show ?thesis
      unfolding markLine_def from_to Let_def plain_text_simps mark_width [OF fe]
      using inspan(4) W by (simp add: snippet_of_def assms(2) mark_text_def gutter_def Let_def del: of_nat_Suc)
  qed
  show ?thesis
    using line mark skip inspan
    by (simp add: shown_line_def snippet_line_def snippet_of_def assms(2) Let_def del: of_nat_Suc)
qed

lemma printSnippet_plain:
  assumes "manager_wf M" "B = getBuffer M" "length B + 3 \<le> 4294967296"
    "printSnippet S Cap Color Top Ctx Caret Skip M = (os, M')"
  shows "plain_text os = (if B = [] then [] else snippet_text B S Cap Top Ctx Caret (unat Skip))
    \<and> manager_wf M' \<and> getBuffer M' = B"
proof (cases "B = []")
  case True
  with assms show ?thesis by (auto simp: printSnippet_def)
next
  case False
  obtain a b where ab: "span_ends B S = (a, b)" by (metis prod.exhaust)
  let ?v = "snippet_of B S Cap Color Caret Skip" and ?stop = "min (Suc (feeds B)) (feeds (take b B) + 2)"
  have "b \<le> length B" using ab by (auto simp: span_ends_def Let_def)
  then have "?stop < 4294967296" using assms(3) feeds_le [of B] by simp
  then have W: "unat (GutterW ?v) = length (decimal ?stop)"
    by (simp only: snippet_of_def ab Let_def prod.case snippet.select_convs digitWidth_decimal unat_of_nat32)
  have "concat (map plain_text (map (shown_line ?v B) [n..<?stop]))
    = concat (map (snippet_line B a b (length (decimal ?stop)) Cap (if Caret then CHR ''^'' else CHR ''-'')
        (unat Skip)) [n..<?stop])" for n
    unfolding map_map by (intro arg_cong [of _ _ concat] map_cong refl)
      (simp only: comp_apply, rule shown_line_text [OF assms(3) ab], simp only: set_upt atLeastLessThan_iff)
  with printSnippet_eq [OF assms(1,2) False assms(3) ab assms(4)] False show ?thesis
    by (simp only: plain_text_simps plain_text_concat snippet_text_def ab prod.case Let_def border_def W if_distrib [of plain_text] if_False
      append_Nil2 append_Cons append_Nil simp_thms)
qed

section \<open>The text of a diagnostic\<close>

definition label_text :: "string \<Rightarrow> bool \<Rightarrow> nat \<Rightarrow> diagnostic_label \<Rightarrow> string" where
  "label_text B Ctx skip L =
     (if B = [] then [] else snippet_text B (DiagSpan L) (LabelMessage L) Ctx Ctx False skip)"

lemma printLabels_plain:
  assumes "length B + 3 \<le> 4294967296"
  shows "\<lbrakk>manager_wf M; B = getBuffer M; printLabels Ls Ctx Skip M = (os, M')\<rbrakk>
    \<Longrightarrow> plain_text os = concat (map (label_text B Ctx (unat Skip)) Ls) \<and> manager_wf M' \<and> getBuffer M' = B"
proof (induction Ls arbitrary: M os)
  case (Cons L Ls)
  obtain os1 M1 where 1: "printSnippet (DiagSpan L) (LabelMessage L) BLUE Ctx Ctx False Skip M = (os1, M1)"
    by (metis prod.exhaust)
  obtain os2 where 2: "printLabels Ls Ctx Skip M1 = (os2, M')" "os = os1 @ os2"
    using Cons.prems(3) 1 by (auto split: prod.splits)
  note p = printSnippet_plain [OF Cons.prems(1,2) assms 1]
  from Cons.IH [OF _ _ 2(1)] p show ?case by (simp add: 2(2) label_text_def)
qed simp

text \<open>The line and column of an offset, and the last line of context of the main snippet.\<close>

definition position_text :: "string \<Rightarrow> u32 \<Rightarrow> string" where
  "position_text B offs = (case scan 1 1 B (unat offs) of (l, c) \<Rightarrow> decimal l @ '':'' @ decimal c)"

definition context_end :: "string \<Rightarrow> u32 \<Rightarrow> nat" where
  "context_end B offs = (if B = [] then 0 else min (Suc (feeds B)) (feeds (take (unat offs) B) + 2))"

definition location_text :: "string \<Rightarrow> string \<Rightarrow> diagnostic \<Rightarrow> string" where
  "location_text Name B D =
     (case Location D of
        LocNone \<Rightarrow> concat (map (label_text B True 0) (DLabels D))
      | LocFile F \<Rightarrow> '' --> '' @ F @ [ch_lf] @ concat (map (label_text B True 0) (DLabels D))
      | LocSpan S \<Rightarrow> '' --> '' @ Name @ '':'' @ position_text B (Start S) @ [ch_lf]
          @ (if B = [] then [] else snippet_text B S (if DHelps D = [] then [] else hd (DHelps D)) True True True 0)
          @ concat (map (label_text B False (context_end B (End S))) (DLabels D)))"

definition diagnostic_text :: "string \<Rightarrow> string \<Rightarrow> diagnostic \<Rightarrow> string" where
  "diagnostic_text Name B D =
     levelTitle (Level D) (DiagKind D) @ '': '' @ Message D @ [ch_lf]
     @ location_text Name B D
     @ concat (map (\<lambda>n. ''note: '' @ n @ [ch_lf]) (DNotes D))
     @ concat (map (\<lambda>h. '' = help: '' @ h @ [ch_lf]) (tl (DHelps D)))
     @ (if DiagKind D = InternalCompilerError
        then [ch_lf] @ ''=== INTERNAL COMPILER ERROR ==='' @ [ch_lf]
          @ ''This is a bug in the compiler. Please report it to the developers.'' @ [ch_lf]
        else [])"

text \<open>No span of the diagnostic ends at the last offset of all.\<close>

definition printable :: "diagnostic \<Rightarrow> bool" where
  "printable D \<longleftrightarrow> (case Location D of LocSpan S \<Rightarrow> Start S \<noteq> 4294967295 \<and> End S \<noteq> 4294967295 | _ \<Rightarrow> True)"

lemma scan_line_past: "length s \<le> k \<Longrightarrow> fst (scan l c s k) = l + feeds s"
proof (induction l c s k rule: scan.induct)
  case (3 l c x s k)
  then show ?case by (cases "x = ch_lf") simp_all
qed simp_all

lemma scan_line: "fst (scan l c s k) = l + feeds (take k s)"
  using scan_feeds [of k s l c] scan_line_past [of s k l c] by (cases "k \<le> length s") simp_all

lemma context_end_line:
  assumes "manager_wf M" "B = getBuffer M" "length B + 3 \<le> 4294967296" "offs \<noteq> 4294967295"
    "getLocation offs M = (Loc, M')"
  shows "unat (min (countLines B) (Line Loc + 1)) = context_end B offs"
proof -
  have l: "unat (Line Loc) = Suc (feeds (take (unat offs) B))"
    using location_scan [OF assms(1) _ assms(4,5)] scan_line [of 1 1 B "unat offs"] assms(2,3) by simp
  have f: "feeds B + 2 < 4294967296" "feeds (take (unat offs) B) + 2 < 4294967296"
    using feeds_le [of B] feeds_take_le [of "unat offs" B] assms(3) by simp_all
  then have "Line Loc = of_nat (Suc (feeds (take (unat offs) B)))" using l by (simp add: word_eq_of_nat)
  then have L: "Line Loc + 1 = of_nat (feeds (take (unat offs) B) + 2)" by simp
  show ?thesis
  proof (cases "B = []")
    case True
    then show ?thesis by (simp add: context_end_def countLines_def)
  next
    case False
    have "min (countLines B) (Line Loc + 1) = of_nat (min (Suc (feeds B)) (feeds (take (unat offs) B) + 2))"
      unfolding countLines_feeds [OF False] L by (rule min_of_nat) (use f in simp_all)
    moreover have "min (Suc (feeds B)) (feeds (take (unat offs) B) + 2) < 4294967296" using f by linarith
    ultimately show ?thesis using False by (simp only: context_end_def if_False unat_of_nat32)
  qed
qed

lemma printLocation_plain:
  assumes "manager_wf M" "B = getBuffer M" "length B + 3 \<le> 4294967296" "printable D"
    "printLocation D M = (os, M1)"
    "(case Location D of LocSpan _ \<Rightarrow> ([], M1) | _ \<Rightarrow> printLabels (DLabels D) True 0 M1) = (ls, M2)"
  shows "plain_text (os @ ls) = location_text (getFilename M) B D \<and> manager_wf M2 \<and> getBuffer M2 = B"
proof (cases "Location D")
  case LocNone
  with assms(5,6) have "M1 = M" "os = []" "printLabels (DLabels D) True 0 M = (ls, M2)"
    by (auto simp: printLocation_def)
  with printLabels_plain [OF assms(3,1,2), of "DLabels D" True 0] LocNone show ?thesis
    by (simp add: location_text_def)
next
  case (LocFile F)
  with assms(5,6) have "M1 = M" "os = headed BLUE '' --> '' F" "printLabels (DLabels D) True 0 M = (ls, M2)"
    by (auto simp: printLocation_def)
  with printLabels_plain [OF assms(3,1,2), of "DLabels D" True 0] LocFile show ?thesis
    by (simp add: location_text_def headed_def)
next
  case (LocSpan S)
  have sp: "Start S \<noteq> 4294967295" "End S \<noteq> 4294967295" using assms(4) LocSpan by (simp_all add: printable_def)
  obtain LA N1 where g1: "getLocation (Start S) M = (LA, N1)" by (metis prod.exhaust)
  define Cap where "Cap = (case DHelps D of [] \<Rightarrow> [] | H # _ \<Rightarrow> H)"
  obtain p N2 where pr: "printSnippet S Cap (levelColor (Level D) (DiagKind D)) True True True 0 N1 = (p, N2)"
    by (metis prod.exhaust)
  obtain LE N3 where g2: "getLocation (End S) N2 = (LE, N3)" by (metis prod.exhaust)
  obtain q N4 where pl: "printLabels (DLabels D) False (min (countLines (getBuffer N3)) (Line LE + 1)) N3 = (q, N4)"
    by (metis prod.exhaust)
  have w1: "manager_wf N1" "B = getBuffer N1" using getLocation_wf [OF assms(1) g1] by (simp_all add: assms(2) getBuffer_def)
  note w2 = printSnippet_plain [OF w1 assms(3) pr]
  have w3: "manager_wf N3" "B = getBuffer N3"
    using getLocation_wf [OF _ g2] w2 by (auto simp: getBuffer_def)
  have ce: "unat (min (countLines (getBuffer N3)) (Line LE + 1)) = context_end B (End S)"
    using context_end_line [OF _ _ assms(3) sp(2) g2] w2 w3(2) by simp
  note w4 = printLabels_plain [OF assms(3) w3 pl]
  have pos: "position_text B (Start S) = decimal (unat (Line LA)) @ '':'' @ decimal (unat (Column LA))"
    using location_scan [OF assms(1) _ sp(1) g1] assms(2,3) by (simp add: position_text_def)
  have cap: "Cap = (if DHelps D = [] then [] else hd (DHelps D))" by (simp add: Cap_def split: list.split)
  from assms(5,6) have "ls = []" "M2 = N4" "os = [bold BLUE, Text '' --> '', ResetColor, Text (getFilename M), Text '':'',
      shown (Line LA), Text '':'', shown (Column LA), Text [ch_lf]] @ p @ q"
    unfolding LocSpan printLocation_def diagnostic_location.case g1 Let_def prod.case Cap_def [symmetric] pr g2 pl
    by auto
  with w2 w4 ce cap pos show ?thesis by (simp add: location_text_def LocSpan)
qed

lemma printDiag_plain:
  assumes "manager_wf M" "B = getBuffer M" "length B + 3 \<le> 4294967296" "printable D"
    "printDiag D M = (os, M')"
  shows "plain_text os = diagnostic_text (getFilename M) B D \<and> manager_wf M' \<and> getBuffer M' = B"
proof -
  obtain ls M1 where 1: "printLocation D M = (ls, M1)" by (metis prod.exhaust)
  obtain ms M2 where 2: "(case Location D of LocSpan _ \<Rightarrow> ([], M1) | _ \<Rightarrow> printLabels (DLabels D) True 0 M1) = (ms, M2)"
    by (metis prod.exhaust)
  have h: "plain_text (headed C h b) = h @ b @ [ch_lf]" for C h b by (simp add: headed_def)
  note p = printLocation_plain [OF assms(1-4) 1 2]
  from assms(5) have "M' = M2" unfolding printDiag_def 1 2 Let_def prod.case by simp
  moreover from assms(5) p have "plain_text os = diagnostic_text (getFilename M) B D"
    unfolding printDiag_def 1 2 Let_def prod.case diagnostic_text_def
    by (auto simp: plain_text_concat h comp_def)
  ultimately show ?thesis using p by simp
qed

lemma getLocation_buffer: "getLocation offs M = (Loc, M') \<Longrightarrow> Buffer M' = Buffer M"
  by (auto simp: getLocation_def Let_def split: option.splits)

lemma printSnippet_buffer:
  "printSnippet S Cap Color Top Ctx Caret Skip M = (os, M') \<Longrightarrow> Buffer M' = Buffer M"
  by (auto simp: printSnippet_def Let_def dest!: getLocation_buffer split: prod.splits if_splits)

lemma printLabels_buffer: "printLabels Ls Ctx Skip M = (os, M') \<Longrightarrow> Buffer M' = Buffer M"
  by (induction Ls Ctx Skip M arbitrary: os M' rule: printLabels.induct)
    (auto simp: Let_def dest!: printSnippet_buffer split: prod.splits)

lemma printDiag_buffer: "printDiag D M = (os, M') \<Longrightarrow> Buffer M' = Buffer M"
  by (auto simp: printDiag_def printLocation_def Let_def
      dest!: getLocation_buffer printSnippet_buffer printLabels_buffer
      split: prod.splits diagnostic_location.splits)

lemma printList_plain:
  assumes "length B + 3 \<le> 4294967296"
  shows "\<lbrakk>manager_wf M; B = getBuffer M; \<forall>D\<in>set Ds. printable D; printList Ds M = (os, M')\<rbrakk>
    \<Longrightarrow> plain_text os = concat (map (diagnostic_text (getFilename M) B) Ds)"
proof (induction Ds arbitrary: M os)
  case (Cons D Ds)
  obtain os1 M1 where 1: "printDiag D M = (os1, M1)" by (metis prod.exhaust)
  obtain os2 where 2: "printList Ds M1 = (os2, M')" "os = os1 @ os2"
    using Cons.prems(4) 1 by (auto split: prod.splits)
  have "plain_text os1 = diagnostic_text (getFilename M) B D \<and> manager_wf M1 \<and> getBuffer M1 = B"
    by (rule printDiag_plain [OF Cons.prems(1,2) assms _ 1]) (use Cons.prems(3) in simp)
  with Cons.IH [OF _ _ _ 2(1)] Cons.prems(3) printDiag_buffer [OF 1] show ?case
    by (simp add: 2(2) getFilename_def)
qed simp

section \<open>Marks\<close>

lemma line_start_unique:
  assumes "line_start s i" "line_start s j" "feeds (take i s) = feeds (take j s)"
  shows "i = j"
proof -
  have less: "feeds (take i s) < feeds (take j s)" if ij: "i < j" "line_start s j" for i j
  proof -
    obtain k where k: "j = Suc k" "k < length s" "s ! k = ch_lf" "i \<le> k"
      using ij by (cases j) (auto simp: line_start_def)
    then show ?thesis using feeds_take_mono [OF k(4), of s] by (simp add: take_Suc_conv_app_nth)
  qed
  from less [of i j] less [of j i] assms show ?thesis by (cases i j rule: linorder_cases) auto
qed

lemma take_slice: "i \<le> j \<Longrightarrow> take j s = take i s @ slice s i j"
  using take_add [of i "j - i" s] by (simp add: slice_def)

lemma drop_slice: "i \<le> j \<Longrightarrow> drop i s = slice s i j @ drop j s"
  using append_take_drop_id [of "j - i" "drop i s"] by (simp add: slice_def)

lemma one_line:
  assumes "a \<le> b" "b \<le> length B" "ch_lf \<notin> set (slice B a b)"
  shows "feeds (take b B) = feeds (take a B)" "findLineStart B b = findLineStart B a"
    "take (b - a) (drop (column_at B a) (split_lines B ! feeds (take a B))) = slice B a b"
proof -
  let ?P = "\<lambda>c. c \<noteq> ch_lf" and ?l = "findLineStart B a"
  note t = take_slice [OF assms(1), of B]
  show f: "feeds (take b B) = feeds (take a B)" using assms(3) by (simp add: t feeds_0)
  have ls: "line_start B ?l" "?l \<le> a" "feeds (take ?l B) = feeds (take a B)"
    using findLineStart_line [of a B] assms(1,2) by simp_all
  show "findLineStart B b = ?l"
    by (rule line_start_unique [OF findLineStart_line(1) [OF assms(2)] ls(1)])
      (simp only: findLineStart_line(3) [OF assms(2)] ls(3) f)
  have "feeds (take a B) < length (split_lines B)"
    using feeds_take_le [of a B] by (simp add: length_split_lines)
  then have "split_lines B ! feeds (take a B) = hd (split_lines (drop ?l B))"
    unfolding split_lines_drop [OF ls(1)] ls(3) by (simp add: hd_drop_conv_nth)
  also have "\<dots> = takeWhile ?P (drop ?l B)" by (subst split_lines_takeWhile) simp
  finally have line: "split_lines B ! feeds (take a B) = takeWhile ?P (drop ?l B)" .
  have lb: "?l \<le> b" using ls(2) assms(1) by simp
  have "feeds (slice B ?l b) = 0" using f ls(3) arg_cong [OF take_slice [OF lb, of B], of feeds] by simp
  then have "takeWhile ?P (slice B ?l b @ drop b B) = slice B ?l b @ takeWhile ?P (drop b B)"
    by (intro takeWhile_append2) (auto simp: feeds_0)
  then have w: "takeWhile ?P (drop ?l B) = slice B ?l b @ takeWhile ?P (drop b B)"
    unfolding drop_slice [OF lb, of B, symmetric] .
  have "slice B ?l b = slice B ?l a @ slice B a b"
    using take_slice [OF lb, of B] take_slice [OF ls(2), of B] t by simp
  moreover have "length (slice B ?l a) = a - ?l" "length (slice B a b) = b - a"
    using ls(2) assms(1,2) by (simp_all add: slice_def)
  ultimately show "take (b - a) (drop (column_at B a) (split_lines B ! feeds (take a B))) = slice B a b"
    unfolding line w column_at_def by simp
qed

section \<open>An example\<close>

text \<open>Two lines, \<open>x\<close> and \<open>y+\<close>, and the span of \<open>y\<close>.\<close>

abbreviation ex_source :: string where
  "ex_source \<equiv> [CHR ''x'', ch_lf, CHR ''y'', CHR ''+'']"

abbreviation ex_manager :: source_manager where
  "ex_manager \<equiv> newSourceManager (makeFromString ex_source ''f'')"

lemma ex_buffer: "getBuffer ex_manager = ex_source"
  by (simp add: getBuffer_def newSourceManager_def makeFromString_def)

section \<open>Properties\<close>

text \<open>C16: a snippet shows what it should.  The text of a printed snippet is the lines of the buffer
  from the one before the span to the one after it, each with its number in a gutter wide enough
  for the last of them, and under every line of the span the marks from its first byte to its
  last, at least one; nothing wraps around, whatever was looked up before.\<close>

theorem printSnippet_text:
  assumes "manager_wf M" "length (getBuffer M) + 3 \<le> 4294967296" "getBuffer M \<noteq> []"
    "printSnippet S Cap Color Top Ctx Caret Skip M = (os, M')"
  shows "plain_text os = snippet_text (getBuffer M) S Cap Top Ctx Caret (unat Skip)"
  using printSnippet_plain [OF assms(1) refl assms(2,4)] assms(3) by simp

theorem printSnippet_text_witness:
  "plain_text (fst (printSnippet (Span 2 3) [] RED True True True 0 ex_manager))
    = ''   |'' @ [ch_lf] @ '' 1 | x'' @ [ch_lf] @ '' 2 | y+'' @ [ch_lf] @ ''   | ^'' @ [ch_lf]"
proof -
  obtain os M' where r: "printSnippet (Span 2 3) [] RED True True True 0 ex_manager = (os, M')"
    by (metis prod.exhaust)
  have "snippet_text ex_source (Span 2 3) [] True True True 0
    = ''   |'' @ [ch_lf] @ '' 1 | x'' @ [ch_lf] @ '' 2 | y+'' @ [ch_lf] @ ''   | ^'' @ [ch_lf]"
    by code_simp
  with printSnippet_text [OF manager_wf_new _ _ r] r show ?thesis by (simp add: ex_buffer)
qed

text \<open>C19: the marks stand under the span.  When the main snippet of a nonempty span inside one line
  is printed, with carets and with no line left out, the line of the span is in it behind its
  number, which is one more than the number of line feeds before the span, and right under it,
  behind a gutter of the same width, stand as many blanks as the line has bytes before the span,
  one caret for each byte of the span, and then the caption.\<close>

theorem carets_under_span:
  assumes "manager_wf M" "length (getBuffer M) + 3 \<le> 4294967296" "B = getBuffer M"
    "a = unat (Start S)" "b = unat (End S)" "a < b" "b \<le> length B" "ch_lf \<notin> set (slice B a b)"
    "n = count_list (take a B) ch_lf" "c = length (takeWhile (\<lambda>x. x \<noteq> ch_lf) (rev (take a B)))"
    "printSnippet S Cap Color Top Ctx True 0 M = (os, M')"
  shows "\<exists>pre post W. plain_text os = pre @ gutter W (decimal (Suc n)) @ split_lines B ! n @ [ch_lf]
      @ gutter W [] @ replicate c CHR '' '' @ replicate (b - a) CHR ''^''
      @ (if Cap \<noteq> [] then CHR '' '' # Cap else []) @ [ch_lf] @ post
    \<and> length (gutter W (decimal (Suc n))) = length (gutter W [])
    \<and> take (b - a) (drop c (split_lines B ! n)) = slice B a b"
proof -
  note l = one_line [OF less_imp_le [OF assms(6)] assms(7,8)]
  have ab: "span_ends B S = (a, b)" using assms(4-7) by (simp add: span_ends_def Let_def)
  let ?n = "feeds (take a B)" and ?stop = "min (Suc (feeds B)) (feeds (take b B) + 2)"
  let ?line = "snippet_line B a b (length (decimal ?stop)) Cap CHR ''^'' 0"
  have nf: "n = ?n" using assms(9) by (simp add: feeds_def)
  have a: "a \<le> length B" using assms(6,7) by simp
  have "length (takeWhile (\<lambda>x. x \<noteq> ch_lf) (rev (take a B))) \<le> a"
    using length_takeWhile_le [of _ "rev (take a B)"] a by (auto intro: order_trans)
  then have cc: "c = column_at B a" using findLineStart_eq [OF a] assms(10) by (simp add: column_at_def)
  have n: "?n < ?stop" using feeds_take_le [of a B] by (simp add: l(1))
  have "[?n - (if Ctx then 1 else 0)..<?stop] = [?n - (if Ctx then 1 else 0)..<?n] @ [?n..<?stop]"
    using n upt_add_eq_append [of "?n - (if Ctx then 1 else 0)" ?n "?stop - ?n"] by simp
  also have "[?n..<?stop] = ?n # [Suc ?n..<?stop]" using n by (rule upt_conv_Cons)
  finally have "[?n - (if Ctx then 1 else 0)..<?stop]
    = [?n - (if Ctx then 1 else 0)..<?n] @ ?n # [Suc ?n..<?stop]" .
  then have st: "snippet_text B S Cap Top Ctx True 0
    = ((if Top then CHR '' '' # replicate (length (decimal ?stop)) CHR '' '' @ '' |'' @ [ch_lf] else [])
       @ concat (map ?line [?n - (if Ctx then 1 else 0)..<?n])) @ ?line ?n @ concat (map ?line [Suc ?n..<?stop])"
    by (simp only: snippet_text_def ab prod.case Let_def if_True map_append concat_append list.map concat.simps append_assoc)
  have os: "plain_text os = snippet_text B S Cap Top Ctx True 0"
    using printSnippet_plain [OF assms(1,3) _ assms(11)] assms(2,3,6,7) by auto
  obtain pre post where os: "plain_text os = pre @ ?line ?n @ post"
    by (rule that) (rule trans [OF os st])
  have w: "length (decimal (Suc ?n)) \<le> length (decimal ?stop)"
    by (intro length_decimal_mono Suc_leI n)
  have "column_at B b - column_at B a = b - a"
    using l(2) findLineStart_line(2) [of a B] assms(6,7) by (simp add: column_at_def)
  then have ln: "?line ?n = gutter (length (decimal ?stop)) (decimal (Suc ?n)) @ split_lines B ! ?n @ [ch_lf]
      @ gutter (length (decimal ?stop)) [] @ replicate (column_at B a) CHR '' '' @ replicate (b - a) CHR ''^''
      @ (if Cap \<noteq> [] then CHR '' '' # Cap else []) @ [ch_lf]"
    using assms(6) l(1) by (simp add: snippet_line_def mark_text_def Let_def)
  have "length (gutter (length (decimal ?stop)) (decimal (Suc ?n))) = length (gutter (length (decimal ?stop)) [])"
    using w by (simp add: gutter_def)
  moreover have "plain_text os = pre @ gutter (length (decimal ?stop)) (decimal (Suc ?n)) @ split_lines B ! ?n @ [ch_lf]
      @ gutter (length (decimal ?stop)) [] @ replicate (column_at B a) CHR '' '' @ replicate (b - a) CHR ''^''
      @ (if Cap \<noteq> [] then CHR '' '' # Cap else []) @ [ch_lf] @ post"
    unfolding os ln by (simp only: append_assoc)
  ultimately show ?thesis using l(3) unfolding nf cc by blast
qed

theorem carets_under_span_witness:
  "\<exists>pre post W. plain_text (fst (printSnippet (Span 4 5) ''here'' RED True True True 0
       (newSourceManager (makeFromString (''x'' @ [ch_lf] @ ''a a'') ''f''))))
    = pre @ gutter W ''2'' @ ''a a'' @ [ch_lf] @ gutter W [] @ ''  ^ here'' @ [ch_lf] @ post"
proof -
  let ?B = "''x'' @ [ch_lf] @ ''a a''"
  let ?M = "newSourceManager (makeFromString ?B ''f'')"
  obtain os M' where r: "printSnippet (Span 4 5) ''here'' RED True True True 0 ?M = (os, M')"
    by (metis prod.exhaust)
  have b: "getBuffer ?M = ?B" by (simp add: getBuffer_def newSourceManager_def makeFromString_def)
  have s: "count_list (take 4 ?B) ch_lf = 1" "length (takeWhile (\<lambda>x. x \<noteq> ch_lf) (rev (take 4 ?B))) = 2"
    "slice ?B 4 5 = ''a''" "split_lines ?B ! 1 = ''a a''" "decimal 2 = ''2''" by code_simp+
  have u: "4 = unat (Start (Span 4 5))" "5 = unat (End (Span 4 5))" by simp_all
  from carets_under_span [OF manager_wf_new _ b [symmetric] u _ _ _ s(1) [symmetric] s(2) [symmetric] r]
  obtain pre post W where "plain_text os = pre @ gutter W (decimal (Suc 1)) @ split_lines ?B ! 1 @ [ch_lf]
      @ gutter W [] @ replicate 2 CHR '' '' @ ''^'' @ '' here'' @ [ch_lf] @ post"
    by (auto simp: b s(3) simp del: append.simps)
  then show ?thesis using r s(4,5) by (auto simp: numeral_2_eq_2)
qed

text \<open>C20: a diagnostic is printed whole.  The text of all diagnostics of an engine is that of each,
  in order: its title and message, where it is, its snippets, its notes, and its helps but the
  first, which is the caption of the main snippet; the cache of locations makes no difference.\<close>

theorem printAll_text:
  assumes "manager_wf (SM E)" "length (getBuffer (SM E)) + 3 \<le> 4294967296"
    "\<forall>D\<in>set (Diagnostics E). printable D"
  shows "plain_text (printAll E)
    = concat (map (diagnostic_text (getFilename (SM E)) (getBuffer (SM E))) (Diagnostics E))"
proof -
  obtain os M' where p: "printList (Diagnostics E) (SM E) = (os, M')" by (metis prod.exhaust)
  from printList_plain [OF assms(2,1) refl assms(3) p] p show ?thesis by (simp add: printAll_def)
qed

theorem printAll_text_witness:
  "plain_text (printAll (withSourceManager ex_manager [builder_note ''n'' (builder_message ''m'' (errorAt (Span 2 3)))]))
    = ''error: m'' @ [ch_lf] @ '' --> f:2:1'' @ [ch_lf]
      @ ''   |'' @ [ch_lf] @ '' 1 | x'' @ [ch_lf] @ '' 2 | y+'' @ [ch_lf] @ ''   | ^'' @ [ch_lf]
      @ ''note: n'' @ [ch_lf]"
proof -
  let ?D = "builder_note ''n'' (builder_message ''m'' (errorAt (Span 2 3)))"
  let ?E = "withSourceManager ex_manager [?D]"
  have E: "SM ?E = ex_manager" "Diagnostics ?E = [?D]" by (simp_all add: withSourceManager_def engine_emit_def)
  have p: "printable ?D" by code_simp
  have "diagnostic_text ''f'' ex_source ?D = ''error: m'' @ [ch_lf] @ '' --> f:2:1'' @ [ch_lf]
      @ ''   |'' @ [ch_lf] @ '' 1 | x'' @ [ch_lf] @ '' 2 | y+'' @ [ch_lf] @ ''   | ^'' @ [ch_lf]
      @ ''note: n'' @ [ch_lf]"
    by code_simp
  moreover have "getFilename ex_manager = ''f''"
    by (simp add: getFilename_def newSourceManager_def makeFromString_def)
  ultimately show ?thesis using printAll_text [of ?E] p by (simp add: E manager_wf_new ex_buffer)
qed

end
