(* ===== verification/SourceFile.thy ===== *)
theory SourceFile
  imports DiagnosticEngine
begin

text \<open>
  Opening source files (\<^verbatim>\<open>lib/Base/SourceBuffer.cpp\<close>).  The file system is a parameter: what
  \<^verbatim>\<open>llvm::vfs::FileSystem::getBufferForFile\<close> returns for a name, an error with its message or a
  pointer to a buffer, which may be null, and what \<^verbatim>\<open>std::filesystem::exists\<close> says of it.
\<close>

record file_system =
  getBufferForFile :: "string \<Rightarrow> string + string option"
  fileExists :: "string \<Rightarrow> bool"

text \<open>An \<^verbatim>\<open>llvm::Error\<close> made by \<^verbatim>\<open>createStringError\<close> is its message.\<close>

definition makeFromMemoryBuffer ::
    "string option \<Rightarrow> string \<Rightarrow> diagnostic list \<Rightarrow> (string + source_buffer) \<times> diagnostic list" where
  "makeFromMemoryBuffer Buf Name SDE =
     (case Buf of
        None \<Rightarrow>
          (Inl (''failed to read file '' @ [ch_squote] @ Name @ [ch_squote] @ '' into memory''),
           simple_emit (builder_note (''file: '' @ Name)
             (builder_message ''failed to read file into memory'' (builder_atFile Name builder_error))) SDE)
      | Some Content \<Rightarrow> (Inr \<lparr> Filename = Name, Contents = Content \<rparr>, SDE))"

definition makeFromFileName ::
    "file_system \<Rightarrow> string \<Rightarrow> diagnostic list \<Rightarrow> (string + source_buffer) \<times> diagnostic list" where
  "makeFromFileName FS Name SDE =
     (case getBufferForFile FS Name of
        Inl EC \<Rightarrow>
          (Inl (''failed to open file '' @ [ch_squote] @ Name @ [ch_squote] @ '': '' @ EC),
           simple_emit (builder_note (''reason: '' @ EC) (builder_note (''file: '' @ Name)
             (builder_message ''failed to open file'' (builder_atFile Name builder_error)))) SDE)
      | Inr Buf \<Rightarrow> makeFromMemoryBuffer Buf Name SDE)"

text \<open>A file that can be loaded, and what it holds.\<close>

definition contents_of :: "file_system \<Rightarrow> string \<Rightarrow> string option" where
  "contents_of FS Name = (case getBufferForFile FS Name of Inr (Some Content) \<Rightarrow> Some Content | _ \<Rightarrow> None)"

lemma makeFromFileName_contents:
  "makeFromFileName FS Name SDE = (Inr Buf, SDE') \<longleftrightarrow>
     (\<exists>Content. contents_of FS Name = Some Content \<and> Buf = \<lparr> Filename = Name, Contents = Content \<rparr> \<and> SDE' = SDE)"
  by (auto simp: makeFromFileName_def makeFromMemoryBuffer_def contents_of_def
      split: sum.splits option.splits)

lemma makeFromFileName_fails:
  "contents_of FS Name = None \<Longrightarrow> \<exists>E SDE'. makeFromFileName FS Name SDE = (Inl E, SDE')"
  by (auto simp: makeFromFileName_def makeFromMemoryBuffer_def contents_of_def
      split: sum.splits option.splits)

end
