(* ===== verification/Driver.thy ===== *)
theory Driver
  imports SourceFile DiagnosticPrinter PhaseDiagnostic Parser
begin

text \<open>
  The driver (\<^verbatim>\<open>include/eter/Driver/*.h\<close>, \<^verbatim>\<open>lib/Driver/*.cpp\<close>, \<^verbatim>\<open>tools/eter/eter.cpp\<close>): the command
  line, the files of a pack, found through their \<open>mod\<close> declarations, and the diagnostics of each.
  The debug macros print nothing, as in a release build.
\<close>

section \<open>Version\<close>

datatype version_number = Version (Major: nat) (Minor: nat) (Patch: nat)

definition CurrentVersion :: version_number where
  "CurrentVersion = Version 0 1 0"

definition version :: string where
  "version = decimal (Major CurrentVersion) @ ''.'' @ decimal (Minor CurrentVersion) @ ''.''
     @ decimal (Patch CurrentVersion)"

section \<open>State\<close>

record compiler_options =
  InputFiles :: "string list"
  OutputFile :: string
  ShowVersion :: bool
  ShowHelp :: bool
  OptimizationLevel :: int

text \<open>The options, the two global variables of \<^verbatim>\<open>Debug.cpp\<close>, and the two streams.\<close>

record driver =
  Options :: compiler_options
  DebugFlag :: bool
  CurrentDebugType :: string
  StdOut :: string
  StdErr :: "out_item list"

definition newDriver :: driver where
  "newDriver = \<lparr> Options = \<lparr> InputFiles = [], OutputFile = [], ShowVersion = False, ShowHelp = False,
     OptimizationLevel = 0 \<rparr>, DebugFlag = False, CurrentDebugType = [], StdOut = [], StdErr = [] \<rparr>"

definition putOut :: "string \<Rightarrow> driver \<Rightarrow> driver" where
  "putOut s D = D \<lparr> StdOut := StdOut D @ s \<rparr>"

definition putErr :: "string \<Rightarrow> driver \<Rightarrow> driver" where
  "putErr s D = D \<lparr> StdErr := StdErr D @ [Text s] \<rparr>"

definition setOptions :: "(compiler_options \<Rightarrow> compiler_options) \<Rightarrow> driver \<Rightarrow> driver" where
  "setOptions f D = D \<lparr> Options := f (Options D) \<rparr>"

section \<open>The command line\<close>

definition helpText :: string where
  "helpText =
     ''Eter Compiler '' @ version @ [ch_lf]
     @ [ch_lf] @ ''Usage: eter [options] <input-files>'' @ [ch_lf]
     @ [ch_lf] @ ''Options:'' @ [ch_lf]
     @ ''  -h, --help              Show this help message'' @ [ch_lf]
     @ ''  --version               Show version information'' @ [ch_lf]
     @ ''  -o <output>             Specify output file'' @ [ch_lf]
     @ ''  -O0                     No optimization (default)'' @ [ch_lf]
     @ ''  --debug                 Enable debug output'' @ [ch_lf]
     @ ''  --debug-only=<type>     Enable debug output only for <type>'' @ [ch_lf]
     @ [ch_lf] @ ''Examples:'' @ [ch_lf]
     @ ''  eterc --version'' @ [ch_lf]
     @ ''  eterc program.eter'' @ [ch_lf]
     @ ''  eterc program.eter -o program'' @ [ch_lf]"

definition printHelp :: "driver \<Rightarrow> driver" where
  "printHelp = putOut helpText"

definition printVersion :: "driver \<Rightarrow> driver" where
  "printVersion = putOut (''Eter compiler version '' @ version @ [ch_lf])"

text \<open>
  The loop over the arguments: \<open>Some b\<close> for an early return of \<open>b\<close>.  An empty argument counts as an
  input file: its first byte is the terminating zero.
\<close>

function parseArgs :: "string list \<Rightarrow> driver \<Rightarrow> bool option \<times> driver" where
  "parseArgs [] D = (None, D)"
| "parseArgs (Arg # Rest) D =
     (if Arg = ''--version'' then (Some True, setOptions (\<lambda>Op. Op \<lparr> ShowVersion := True \<rparr>) D)
      else if Arg = ''--help'' \<or> Arg = ''-h'' then (Some True, setOptions (\<lambda>Op. Op \<lparr> ShowHelp := True \<rparr>) D)
      else if Arg = ''--debug'' then parseArgs Rest (D \<lparr> DebugFlag := True \<rparr>)
      else if prefix ''--debug-only='' Arg then
        parseArgs Rest (D \<lparr> DebugFlag := True, CurrentDebugType := drop (length ''--debug-only='') Arg \<rparr>)
      else if Arg = ''-O0'' then parseArgs Rest (setOptions (\<lambda>Op. Op \<lparr> OptimizationLevel := 0 \<rparr>) D)
      else if Arg = ''-o'' \<and> Rest \<noteq> [] then
        parseArgs (tl Rest) (setOptions (\<lambda>Op. Op \<lparr> OutputFile := hd Rest \<rparr>) D)
      else if Arg = [] \<or> hd Arg \<noteq> CHR ''-'' then
        parseArgs Rest (setOptions (\<lambda>Op. Op \<lparr> InputFiles := InputFiles Op @ [Arg] \<rparr>) D)
      else (Some False, printHelp (putErr (''error: Unknown option: '' @ Arg @ [ch_lf, ch_lf]) D)))"
  by pat_completeness auto
termination
  by (relation "measure (\<lambda>(as, D). length as)") auto

text \<open>\<open>return 1\<close> in a function that returns a \<^verbatim>\<open>bool\<close> returns true.\<close>

definition parseCommandLine :: "string list \<Rightarrow> driver \<Rightarrow> bool \<times> driver" where
  "parseCommandLine Argv D0 =
     (if length Argv < 2 then (False, printHelp D0)
      else case parseArgs (tl Argv) D0 of
        (Some b, D) \<Rightarrow> (b, D)
      | (None, D) \<Rightarrow>
          if InputFiles (Options D) = [] \<and> \<not> ShowVersion (Options D) \<and> \<not> ShowHelp (Options D) then
            (False, printHelp (putErr (''error: No input files specified'' @ [ch_lf, ch_lf]) D))
          else if length (InputFiles (Options D)) \<noteq> 1 then
            (True, printHelp (putErr (''error: only one input file is supported'' @ [ch_lf, ch_lf]) D))
          else (True, D))"

section \<open>Paths\<close>

text \<open>What \<^verbatim>\<open>std::filesystem::path\<close> does with a path of a POSIX system.\<close>

definition parent_path :: "string \<Rightarrow> string" where
  "parent_path p =
     (let d = rev (dropWhile (\<lambda>c. c \<noteq> CHR ''/'') (rev p));
          s = rev (dropWhile (\<lambda>c. c = CHR ''/'') (rev d))
      in if s = [] then d else s)"

definition path_join :: "string \<Rightarrow> string \<Rightarrow> string" where
  "path_join p q =
     (if q \<noteq> [] \<and> hd q = CHR ''/'' then q
      else if p = [] \<or> last p = CHR ''/'' then p @ q
      else p @ ''/'' @ q)"

text \<open>The file of \<open>mod ModName;\<close> in a directory, if there is one.\<close>

definition fileDotEt :: "string \<Rightarrow> string \<Rightarrow> string" where
  "fileDotEt Dir ModName = path_join Dir (ModName @ ''.et'')"

definition modDotEt :: "string \<Rightarrow> string \<Rightarrow> string" where
  "modDotEt Dir ModName = path_join (path_join Dir ModName) ''mod.et''"

definition childPath :: "file_system \<Rightarrow> string \<Rightarrow> string \<Rightarrow> string option" where
  "childPath FS Dir ModName =
     (if fileExists FS (fileDotEt Dir ModName) then Some (fileDotEt Dir ModName)
      else if fileExists FS (modDotEt Dir ModName) then Some (modDotEt Dir ModName)
      else None)"

section \<open>Diagnostics of a file\<close>

text \<open>The diagnostics by the value of their enumerator, and the template for a stored local id.\<close>

definition all_diags :: "diag_id list" where
  "all_diags =
     map GenDiag [ExpectedTopLevelDecl, ExpectedStmt, ExpectedExpr, ExpectedPattern, ExpectedRegime,
       ExpectedName, ExpectedKeyword, ExpectedIdentifier, ExpectedTypeName]
     @ map TokDiag [ExpectedToken, ExpectedTokenAfter, ExpectedPathSegment, RedundantPathSeparator]
     @ map DelDiag [ExpectedOpen, ExpectedClose, ExpectedSemi, ExpectedColon, ExpectedEq]
     @ map ExpDiag [ExpectedArgListClose, ExpectedParenExprClose, ExpectedTupleExprClose,
       ExpectedFieldName, ExpectedFieldInitName, ExpectedStructLitClose, ExpectedArrayLitClose,
       ExpectedTensorIndexClose, ExpectedTensorLitDim, ExpectedTensorLitClose, ExpectedRSquare]
     @ map TypDiag [ExpectedTupleTypeClose, ExpectedArrayTypeSemi, ExpectedArrayTypeClose,
       ExpectedTensorTypeSemi, ExpectedTensorTypeClose, ExpectedTensorOpen]
     @ map PatDiag [ExpectedFatArrow, ExpectedTuplePatClose, ExpectedStructPatClose, ExpectedFieldPatName]
     @ map DecDiag [ExpectedModOpenOrSemi, ExpectedForInImpl, ExpectedTraitFnSemi,
       ExpectedReturnTypeColon, ExpectedBreakOrContinueSemi]
     @ map GrcDiag [ExpectedLessThan, ExpectedGreaterThan, ExpectedTypeParam, ExpectedCommaOrGreater]
     @ map ModDiag [ExpectedModKeyword, ExpectedModName, ExpectedUseItem, ExpectedUseItemOrGlob, ExpectedAsAlias]
     @ map DocDiag [DocCommentNotAllowed]"

definition messageForID :: "u16 \<Rightarrow> string" where
  "messageForID ID = (case find (\<lambda>D. diag_code D = ID) all_diags of Some D \<Rightarrow> messageFor D | None \<Rightarrow> ''unknown'')"

definition emitLexError :: "lexer_error \<Rightarrow> diagnostic_engine \<Rightarrow> diagnostic_engine" where
  "emitLexError LErr = engine_emit (builder_message (getErrorString (ErrorKind LErr)) (errorAt (ErrorSpan LErr)))"

definition emitParseError :: "phase_diagnostic \<Rightarrow> diagnostic_engine \<Rightarrow> diagnostic_engine" where
  "emitParseError PErr =
     (let Rendered = renderMessage (messageForID (LocalID PErr)) (Args PErr);
          B0 = builder_message Rendered (errorAt (Loc PErr));
          B1 = fold (\<lambda>L. builder_label (DiagSpan L) (LabelMessage L)) (Labels PErr) B0;
          B2 = fold builder_note (Notes PErr) B1;
          B3 = fold builder_help (Helps PErr) B2
      in engine_emit B3)"

text \<open>A stream whose vectors have been moved into the parser: both are left empty.\<close>

definition movedFrom :: "token_stream \<Rightarrow> token_stream" where
  "movedFrom TS = TS \<lparr> Tokens := [], LexErrors := [] \<rparr>"

definition fileDiagnostics ::
    "source_buffer \<Rightarrow> diagnostic list \<Rightarrow> token_stream \<Rightarrow> parse_result \<Rightarrow> diagnostic_engine" where
  "fileDiagnostics Buf SDE TS Result =
     fold emitParseError (ResultErrors Result)
       (fold emitLexError (LexErrors TS) (withSourceManager (newSourceManager Buf) SDE))"

section \<open>Packs\<close>

text \<open>\<^verbatim>\<open>PackSession\<close>, the set of paths in progress, and the error stream.\<close>

record pack =
  SInterner :: interner
  Results :: "string \<rightharpoonup> parse_result"
  InProgress :: "string set"
  PErr :: "out_item list"

definition packErr :: "string \<Rightarrow> pack \<Rightarrow> pack" where
  "packErr s P = P \<lparr> PErr := PErr P @ [Text s] \<rparr>"

definition quote :: "string \<Rightarrow> string" where
  "quote s = ch_squote # s @ [ch_squote]"

definition notFoundText :: "string \<Rightarrow> string \<Rightarrow> string" where
  "notFoundText Dir ModName =
     ''cannot find file for '' @ quote (''mod '' @ ModName @ '';'') @ '' (tried '' @ quote (fileDotEt Dir ModName)
     @ '' and '' @ quote (modDotEt Dir ModName) @ '')'' @ [ch_lf]"

definition circularText :: "string \<Rightarrow> string" where
  "circularText Path = ''error: circular mod dependency detected for '' @ quote Path @ [ch_lf]"

definition cannotOpenText :: "string \<Rightarrow> string \<Rightarrow> string" where
  "cannotOpenText Path E = ''error: cannot open '' @ quote Path @ '': '' @ E @ [ch_lf]"

text \<open>
  The loop over the children of the root, with \<open>rec\<close> for \<^verbatim>\<open>parseFile\<close>.  \<open>None\<close> stands for a node
  or a string out of range, which trips an assertion, and for a \<open>rec\<close> that does not come back.
\<close>

primrec walkChildren ::
    "(string \<Rightarrow> pack \<Rightarrow> (int \<times> pack) option) \<Rightarrow> file_system \<Rightarrow> string \<Rightarrow> node_pool
     \<Rightarrow> node_index list \<Rightarrow> pack \<Rightarrow> (int \<times> pack) option" where
  "walkChildren rec FS Dir Pl [] P = Some (0, P)"
| "walkChildren rec FS Dir Pl (Child # Cs) P =
     (case nodeAt Pl Child of
        None \<Rightarrow> None
      | Some Node \<Rightarrow>
          if NKind Node \<noteq> nk_ModDeclFile then walkChildren rec FS Dir Pl Cs P
          else case getStr (SInterner P) (payloadStr (NPayload Node)) of
            None \<Rightarrow> None
          | Some ModName \<Rightarrow>
              (case childPath FS Dir ModName of
                 None \<Rightarrow> Some (1, packErr (notFoundText Dir ModName) P)
               | Some Path \<Rightarrow>
                   (case rec Path P of
                      None \<Rightarrow> None
                    | Some (Rc, P') \<Rightarrow>
                        if Rc \<noteq> 0 then Some (Rc, P') else walkChildren rec FS Dir Pl Cs P')))"

text \<open>
  \<^verbatim>\<open>parseFile\<close>, with a bound on the depth of the recursion.
\<close>

primrec parseFile :: "nat \<Rightarrow> file_system \<Rightarrow> string \<Rightarrow> pack \<Rightarrow> (int \<times> pack) option" where
  "parseFile 0 FS Path P = None"
| "parseFile (Suc n) FS Path P =
     (if Results P Path \<noteq> None then Some (0, P)
      else if Path \<in> InProgress P then
        Some (1, packErr (circularText Path) P)
      else case makeFromFileName FS Path [] of
        (Inl E, SDE) \<Rightarrow> Some (1, packErr (cannotOpenText Path E) P)
      | (Inr Buf, SDE) \<Rightarrow>
          let TS = newTokenStream (lex (Contents Buf)) (Contents Buf) in
          case parse TS (SInterner P) of
            None \<Rightarrow> None
          | Some (Result, I) \<Rightarrow>
              let P1 = P \<lparr> SInterner := I,
                    PErr := PErr P @ printAll (fileDiagnostics Buf SDE (movedFrom TS) Result),
                    InProgress := insert Path (InProgress P) \<rparr> in
              case childrenOf (ResultPool Result) (Root Result) of
                None \<Rightarrow> None
              | Some Cs \<Rightarrow>
                  (case walkChildren (parseFile n FS) FS (parent_path Path) (ResultPool Result) Cs P1 of
                     None \<Rightarrow> None
                   | Some (Rc, P2) \<Rightarrow>
                       let P3 = P2 \<lparr> InProgress := InProgress P2 - {Path} \<rparr> in
                       if Rc \<noteq> 0 then Some (Rc, P3)
                       else Some (0, P3 \<lparr> Results := (Results P3)(Path \<mapsto>
                              (case Results P3 Path of Some R \<Rightarrow> R | None \<Rightarrow> Result)) \<rparr>)))"

definition newPack :: "out_item list \<Rightarrow> pack" where
  "newPack Err = \<lparr> SInterner = newInterner, Results = Map.empty, InProgress = {}, PErr = Err \<rparr>"

definition compilePack :: "nat \<Rightarrow> file_system \<Rightarrow> string \<Rightarrow> driver \<Rightarrow> (int \<times> driver) option" where
  "compilePack n FS RootFile D =
     (case parseFile n FS RootFile (newPack (StdErr D)) of
        None \<Rightarrow> None
      | Some (Rc, P) \<Rightarrow> Some (Rc, D \<lparr> StdErr := PErr P \<rparr>))"

primrec compileAll :: "nat \<Rightarrow> file_system \<Rightarrow> string list \<Rightarrow> driver \<Rightarrow> (int \<times> driver) option" where
  "compileAll n FS [] D = Some (0, D)"
| "compileAll n FS (F # Fs) D =
     (case compilePack n FS F D of
        None \<Rightarrow> None
      | Some (Rc, D') \<Rightarrow> if Rc \<noteq> 0 then Some (Rc, D') else compileAll n FS Fs D')"

definition runDriver :: "nat \<Rightarrow> file_system \<Rightarrow> driver \<Rightarrow> (int \<times> driver) option" where
  "runDriver n FS D =
     (if ShowVersion (Options D) then Some (0, printVersion D)
      else if ShowHelp (Options D) then Some (0, printHelp D)
      else compileAll n FS (InputFiles (Options D)) D)"

text \<open>The exit status of the program and what it has printed.\<close>

definition eterMain :: "nat \<Rightarrow> file_system \<Rightarrow> string list \<Rightarrow> (int \<times> driver) option" where
  "eterMain n FS Argv =
     (case parseCommandLine Argv newDriver of (Fine, D) \<Rightarrow>
        if \<not> Fine then Some (1, D) else runDriver n FS D)"

end
