(* ===== verification/RootKids.thy ===== *)
theory RootKids
  imports PayloadTypes
begin

text \<open>
  The children of the root.  A list of the parser may hold \<open>NullNode\<close> where something optional is
  missing; the list of a file's declarations does not, so a walk over it finds a node everywhere.
\<close>

section \<open>Lists without gaps\<close>

lemma WP_parseUntil_live:
  assumes elem: "\<And>h. \<lbrakk>later g h; Look h \<inter> {Close, tk_eof} = {}\<rbrakk> \<Longrightarrow>
      WP E (\<lambda>r h'. within h' (yield 0 r h \<lparr> Prog := True \<rparr>)) h"
    and kids: "set Kids \<subseteq> Live g"
    and post: "\<And>Ks. set Ks \<subseteq> Live (H Ks) \<Longrightarrow> Q Ks (H Ks \<lparr> Look := {Close, tk_eof} \<rparr>)"
    and H: "H = (\<lambda>Ks. g \<lparr> Look := UNIV, Live := Live g \<union> set Ks \<rparr>)"
  shows "WP (parseUntil Close E Kids) Q g"
  unfolding parseUntil_def
  by (rule WP_loop [where J = "\<lambda>_. True" and H = H and F = "\<lambda>Ks. H Ks \<lparr> Look := {Close, tk_eof} \<rparr>"])
    (use kids post in \<open>auto intro!: wp loop_bodyI WP_post [OF elem] simp: loop_simps later_def yield_def H\<close>)

definition fileDecls :: "calls \<Rightarrow> (span \<times> node_index list) parser" where
  "fileDecls call = do {
     T \<leftarrow> pPeekToken;
     Docs \<leftarrow> parseFileDocComments;
     Cs \<leftarrow> parseUntil tk_eof (parseTopLevelDecl call) Docs;
     Prev \<leftarrow> pPrevious;
     State_Monad.return (cover (TokenSpan T) (TokenSpan Prev), Cs)
   }"

lemma parseSourceFile_decls:
  "parseSourceFile call = do { (S, Cs) \<leftarrow> fileDecls call; pAlloc nk_SourceFile S Cs 0 0 }"
  by (simp add: parseSourceFile_def fileDecls_def State_Monad.bind_def State_Monad.return_def split_def)

context parser_calls
begin

lemma fileDecls_live:
  assumes "inside k g" "13 \<le> Rate g"
  shows "WP (fileDecls call) (\<lambda>(S, Cs) h. set Cs \<subseteq> Live h) g"
  unfolding fileDecls_def
  by (intro WP_parseUntil_live [OF _ _ _ refl] wp parseTopLevelDecl_spec [THEN WP_spec])
    (use assms in \<open>auto simp: decl_simps\<close>)

end

section \<open>The root\<close>

lemma parse_decls:
  assumes "stream_wf TS" "Cursor TS = 0" "parse TS I = Some (R, J)"
    "length (Nodes (ResultPool R)) < 4294967296" "length (Children (ResultPool R)) < 4294967296"
  shows "\<exists>Cs. childrenOf (ResultPool R) (Root R) = Some Cs \<and> (\<forall>c\<in>set Cs. nodeAt (ResultPool R) c \<noteq> None)"
proof -
  obtain s where run: "run_state (parseSourceFile (tie (Suc (remaining TS)))) (newParser TS I) = (Root R, s)"
    and s: "ResultPool R = Pool s" by (rule parse_run [OF assms(3)])
  obtain S Cs t where d: "run_state (fileDecls (tie (Suc (remaining TS)))) (newParser TS I) = ((S, Cs), t)"
    by (metis prod.exhaust)
  with run have a: "alloc nk_SourceFile S Cs 0 0 (Pool t) = (Root R, Pool s)"
    by (auto simp: parseSourceFile_decls State_Monad.bind_def pAlloc_def split: prod.splits)
  have "WP (fileDecls (tie (Suc (remaining TS)))) (\<lambda>(S, Cs) h. set Cs \<subseteq> Live h) (fresh (remaining TS))"
    by (rule tied.fileDecls_live) (simp_all add: fresh_def inside_def)
  from WP_D [OF this meets_fresh [OF assms(1,2)] d] obtain h where "set Cs \<subseteq> Live h" "meets t h" by auto
  then have live: "\<forall>c\<in>set Cs. unat c < length (Nodes (Pool t))"
    using meetsD(13) by (fastforce simp: live_def)
  note e = alloc_eqs [OF a]
  have root: "unat (Root R) = length (Nodes (Pool t))"
    using assms(4) by (simp add: s e unat_of_nat take_bit_nat_eq_self)
  let ?N = "Nodes (Pool s) ! length (Nodes (Pool t))"
  have n: "nodeAt (Pool s) (Root R) = Some ?N" using root by (simp add: nodeAt_def e(4))
  have "unat (ChildrenBegin ?N) = length (Children (Pool t))"
    using assms(5) by (simp add: s e unat_of_nat take_bit_nat_eq_self)
  then have "set (childSlice (Pool s) ?N) \<subseteq> set Cs"
    by (simp add: childSlice_def e(2) set_take_subset)
  moreover have "nodeAt (Pool s) c \<noteq> None" if "c \<in> set Cs" for c
    using live that by (auto simp: nodeAt_def e(4) less_SucI)
  ultimately show ?thesis using n by (auto simp: s childrenOf_def)
qed

end
