(* ===== verification/PackLoading.thy ===== *)
theory PackLoading
  imports Driver RootKids PrinterProps
begin

text \<open>
  The files of a pack: what the driver has stored when it is done, and that it comes back.  The
  walk over the \<open>mod\<close> declarations of a file relies on the parsing of the files it finds, an
  interface with a contract, \<open>file_loader\<close>, which \<open>parseFile\<close> provides.
\<close>

section \<open>Packs\<close>

text \<open>The names of the files that a file asks for: those of the \<^verbatim>\<open>mod name;\<close> declarations at its top
  level, the children of the root.  A declaration inside an inline module is none of them.\<close>

definition mods_in :: "node_pool \<Rightarrow> node_index list \<Rightarrow> u32 list" where
  "mods_in Pl Cs = concat (map (\<lambda>c. case nodeAt Pl c of
     Some N \<Rightarrow> if NKind N = nk_ModDeclFile then [payloadStr (NPayload N)] else [] | None \<Rightarrow> []) Cs)"

definition mods_of :: "parse_result \<Rightarrow> u32 list" where
  "mods_of R = (case childrenOf (ResultPool R) (Root R) of Some Cs \<Rightarrow> mods_in (ResultPool R) Cs | None \<Rightarrow> [])"

definition names_grow :: "interner \<Rightarrow> interner \<Rightarrow> bool" where
  "names_grow I J \<longleftrightarrow> (\<forall>j T. getStr I j = Some T \<longrightarrow> getStr J j = Some T)"

text \<open>\<open>needs FS P p q\<close>: the stored file \<open>p\<close> declares, at its top level, a module whose file is \<open>q\<close>.\<close>

definition needs :: "file_system \<Rightarrow> pack \<Rightarrow> string \<Rightarrow> string \<Rightarrow> bool" where
  "needs FS P p q \<longleftrightarrow> (\<exists>R N x. Results P p = Some R \<and> N \<in> set (mods_of R)
     \<and> getStr (SInterner P) N = Some x \<and> childPath FS (parent_path p) x = Some q)"

text \<open>The modules with the given names, declared in \<open>p\<close>, have files, which are stored.\<close>

definition stored_mods :: "file_system \<Rightarrow> pack \<Rightarrow> string \<Rightarrow> u32 list \<Rightarrow> bool" where
  "stored_mods FS P p Ns \<longleftrightarrow> (\<forall>N\<in>set Ns. \<exists>x q. getStr (SInterner P) N = Some x
     \<and> childPath FS (parent_path p) x = Some q \<and> Results P q \<noteq> None)"

definition closed :: "file_system \<Rightarrow> pack \<Rightarrow> bool" where
  "closed FS P \<longleftrightarrow> (\<forall>p R. Results P p = Some R \<longrightarrow> stored_mods FS P p (mods_of R))"

text \<open>A stored result is what the parser makes of the file, and its names are still known.\<close>

definition parsed :: "file_system \<Rightarrow> pack \<Rightarrow> string \<Rightarrow> parse_result \<Rightarrow> bool" where
  "parsed FS P p R \<longleftrightarrow> (\<exists>c I J. contents_of FS p = Some c
     \<and> parse (newTokenStream (lex c) c) I = Some (R, J) \<and> names_grow J (SInterner P))"

definition pack_ok :: "file_system \<Rightarrow> pack \<Rightarrow> bool" where
  "pack_ok FS P \<longleftrightarrow> closed FS P \<and> acyclic {(p, q). needs FS P p q}
     \<and> (\<forall>p R. Results P p = Some R \<longrightarrow> parsed FS P p R) \<and> ids_ok (SInterner P)"

definition pack_grows :: "pack \<Rightarrow> pack \<Rightarrow> bool" where
  "pack_grows P P' \<longleftrightarrow> Results P \<subseteq>\<^sub>m Results P' \<and> names_grow (SInterner P) (SInterner P')
     \<and> InProgress P' = InProgress P \<and> (\<forall>p\<in>InProgress P. Results P' p = Results P p)
     \<and> (\<exists>os. PErr P' = PErr P @ os)"

lemma names_grow_refl [simp]: "names_grow I I"
  by (simp add: names_grow_def)

lemma names_grow_trans: "names_grow I J \<Longrightarrow> names_grow J K \<Longrightarrow> names_grow I K"
  by (simp add: names_grow_def)

lemma pack_grows_refl [simp]: "pack_grows P P"
  by (simp add: pack_grows_def)

lemma pack_grows_trans: "pack_grows P Q \<Longrightarrow> pack_grows Q R \<Longrightarrow> pack_grows P R"
  unfolding pack_grows_def by (auto intro: map_le_trans names_grow_trans)

lemma stored_mods_grows:
  assumes "stored_mods FS P p Ns" "Results P \<subseteq>\<^sub>m Results P'" "names_grow (SInterner P) (SInterner P')"
  shows "stored_mods FS P' p Ns"
  using assms unfolding stored_mods_def names_grow_def map_le_def by (metis domIff)

lemma parsed_grows:
  "parsed FS P p R \<Longrightarrow> names_grow (SInterner P) (SInterner P') \<Longrightarrow> parsed FS P' p R"
  unfolding parsed_def using names_grow_trans by blast

text \<open>More names and more output do not change what is stored.\<close>

lemma pack_ok_names:
  assumes "pack_ok FS P" "Results P' = Results P" "names_grow (SInterner P) (SInterner P')" "ids_ok (SInterner P')"
  shows "pack_ok FS P'"
proof -
  have c: "closed FS P'"
    using assms(1-3) stored_mods_grows [of FS P] by (auto simp: pack_ok_def closed_def)
  have "needs FS P p q" if edge: "needs FS P' p q" for p q
  proof -
    obtain R N x where n: "Results P p = Some R" "N \<in> set (mods_of R)"
      "getStr (SInterner P') N = Some x" "childPath FS (parent_path p) x = Some q"
      using edge assms(2) by (auto simp: needs_def)
    moreover obtain y where "getStr (SInterner P) N = Some y"
      using assms(1) n(1,2) unfolding pack_ok_def closed_def stored_mods_def by blast
    ultimately show ?thesis using assms(3) by (fastforce simp: needs_def names_grow_def)
  qed
  then have "{(p, q). needs FS P' p q} \<subseteq> {(p, q). needs FS P p q}" by auto
  with assms(1) have "acyclic {(p, q). needs FS P' p q}" by (auto simp: pack_ok_def intro: acyclic_subset)
  moreover have "parsed FS P' p R" if "Results P' p = Some R" for p R
    by (rule parsed_grows [OF _ assms(3)]) (use assms(1,2) that in \<open>simp add: pack_ok_def\<close>)
  ultimately show ?thesis using c assms(4) by (simp add: pack_ok_def)
qed

text \<open>A new vertex with edges to old ones closes no cycle.\<close>

lemma acyclic_new:
  assumes "acyclic E" "E \<subseteq> A \<times> A" "p \<notin> A" "C \<subseteq> A"
  shows "acyclic (E \<union> {p} \<times> C)"
proof (rule acyclicI, intro allI notI)
  fix x assume "(x, x) \<in> (E \<union> {p} \<times> C)\<^sup>+"
  moreover have "y \<in> A \<and> (x \<in> A \<longrightarrow> (x, y) \<in> E\<^sup>+)" if "(x, y) \<in> (E \<union> {p} \<times> C)\<^sup>+" for x y
    using that
  proof (induction rule: trancl_induct)
    case (base y)
    then show ?case using assms(2-4) by auto
  next
    case (step y z)
    then show ?case using assms(2-4) by (auto intro: trancl_into_trancl)
  qed
  ultimately have "(x, x) \<in> E\<^sup>+" by blast
  with assms(1) show False by (simp add: acyclic_def)
qed

lemma pack_ok_store:
  assumes "pack_ok FS P" "Results P p = None" "stored_mods FS P p (mods_of R)" "parsed FS P p R"
    and P': "P' = P \<lparr> Results := (Results P)(p \<mapsto> R), InProgress := G \<rparr>"
  shows "pack_ok FS P'"
proof -
  have le: "Results P \<subseteq>\<^sub>m Results P'" using assms(2) by (auto simp: P' map_le_def)
  have c: "closed FS P'"
    using assms(1,3) stored_mods_grows [OF _ le, of FS] by (auto simp: pack_ok_def closed_def P')
  let ?E = "{(p, q). needs FS P p q}"
  have E: "?E \<subseteq> dom (Results P) \<times> dom (Results P)"
    using assms(1) by (fastforce simp: needs_def pack_ok_def closed_def stored_mods_def)
  have "{(p, q). needs FS P' p q} \<subseteq> ?E \<union> {p} \<times> {q. needs FS P' p q}"
    by (auto simp: needs_def P' split: if_splits)
  moreover have "{q. needs FS P' p q} \<subseteq> dom (Results P)"
    using assms(3) by (fastforce simp: needs_def P' stored_mods_def)
  then have "acyclic (?E \<union> {p} \<times> {q. needs FS P' p q})"
    using assms(1,2) by (intro acyclic_new [OF _ E]) (auto simp: pack_ok_def)
  ultimately have "acyclic {(p, q). needs FS P' p q}" by (rule acyclic_subset [rotated])
  with c assms(1,4) show ?thesis by (auto simp: pack_ok_def parsed_def P')
qed

text \<open>What is new in \<open>P'\<close> is needed by one of the given files, directly or not.\<close>

definition new_only :: "file_system \<Rightarrow> pack \<Rightarrow> pack \<Rightarrow> string set \<Rightarrow> bool" where
  "new_only FS P P' Qs \<longleftrightarrow> (\<forall>p. Results P' p \<noteq> None \<longrightarrow> Results P p \<noteq> None \<or> (\<exists>q\<in>Qs. (needs FS P')\<^sup>*\<^sup>* q p))"

definition asked :: "file_system \<Rightarrow> pack \<Rightarrow> string \<Rightarrow> u32 list \<Rightarrow> string set" where
  "asked FS P p Ns = {q. \<exists>N\<in>set Ns. \<exists>x. getStr (SInterner P) N = Some x \<and> childPath FS (parent_path p) x = Some q}"

lemma needs_grows: "needs FS P p q \<Longrightarrow> pack_grows P P' \<Longrightarrow> needs FS P' p q"
  unfolding needs_def pack_grows_def names_grow_def map_le_def by (metis domI)

lemma reach_grows: "(needs FS P)\<^sup>*\<^sup>* p q \<Longrightarrow> pack_grows P P' \<Longrightarrow> (needs FS P')\<^sup>*\<^sup>* p q"
  using needs_grows by (metis mono_rtranclp)

lemma asked_grows: "pack_grows P P' \<Longrightarrow> asked FS P p Ns \<subseteq> asked FS P' p Ns"
  unfolding asked_def pack_grows_def names_grow_def by blast

lemma new_only_same [simp]: "new_only FS P P Qs"
  by (simp add: new_only_def)

lemma new_only_trans:
  assumes "new_only FS P P1 Qs" "new_only FS P1 P' Qs" "pack_grows P1 P'"
  shows "new_only FS P P' Qs"
  using assms reach_grows unfolding new_only_def by metis

lemma new_only_mono: "new_only FS P P' Qs \<Longrightarrow> Qs \<subseteq> Rs \<Longrightarrow> new_only FS P P' Rs"
  unfolding new_only_def by blast

section \<open>The walk over the modules of a file\<close>

text \<open>
  What a result says: it is zero, and the file is stored, or one, and the last thing that was
  printed says which file could not be found or opened, or which one needs itself.
\<close>

definition fatal :: "string \<Rightarrow> bool" where
  "fatal t \<longleftrightarrow> (\<exists>Path. t = circularText Path) \<or> (\<exists>Path E. t = cannotOpenText Path E)
     \<or> (\<exists>Dir ModName. t = notFoundText Dir ModName)"

definition stopped :: "pack \<Rightarrow> pack \<Rightarrow> bool" where
  "stopped P P' \<longleftrightarrow> (\<exists>os t. PErr P' = PErr P @ os @ [Text t] \<and> fatal t)"

lemma fatal_texts [simp]: "fatal (circularText Path)" "fatal (cannotOpenText Path E)" "fatal (notFoundText Dir N)"
  unfolding fatal_def by blast+

lemma stopped_packErr [simp]: "fatal t \<Longrightarrow> stopped P (packErr t P)"
  by (simp add: stopped_def packErr_def)

lemma pack_grows_packErr [simp]: "pack_grows P (packErr t P)"
  by (simp add: packErr_def pack_grows_def)

lemma stopped_later: "stopped P1 P' \<Longrightarrow> PErr P1 = PErr P @ os \<Longrightarrow> stopped P P'"
  unfolding stopped_def by fastforce

definition came_back :: "int \<Rightarrow> string \<Rightarrow> pack \<Rightarrow> pack \<Rightarrow> bool" where
  "came_back Rc Path P P' \<longleftrightarrow> (Rc = 0 \<and> Results P' Path \<noteq> None \<or> Rc = 1 \<and> stopped P P')"

text \<open>Files short enough for the nodes of their tree to be indexed by 32 bits.\<close>

definition short_files :: "file_system \<Rightarrow> bool" where
  "short_files FS \<longleftrightarrow> (\<forall>p c. contents_of FS p = Some c \<longrightarrow> 13 * length c + 15 < 4294967296)"

locale file_loader =
  fixes load :: "string \<Rightarrow> pack \<Rightarrow> (int \<times> pack) option" and FS :: file_system
  assumes load_ok: "\<lbrakk>short_files FS; pack_ok FS P; load Path P = Some (Rc, P')\<rbrakk>
    \<Longrightarrow> pack_ok FS P' \<and> pack_grows P P' \<and> came_back Rc Path P P'"
begin

lemma walk_ok:
  "\<lbrakk>short_files FS; pack_ok FS P; walkChildren load FS (parent_path p) Pl Cs P = Some (Rc, P')\<rbrakk>
    \<Longrightarrow> pack_ok FS P' \<and> pack_grows P P' \<and> (Rc = 0 \<and> stored_mods FS P' p (mods_in Pl Cs)
          \<or> Rc = 1 \<and> stopped P P')"
proof (induction Cs arbitrary: P)
  case Nil
  then show ?case by (simp add: mods_in_def stored_mods_def)
next
  case (Cons c Cs)
  from Cons.prems(3) obtain N where N: "nodeAt Pl c = Some N" by (cases "nodeAt Pl c") simp_all
  show ?case
  proof (cases "NKind N = nk_ModDeclFile")
    case False
    with N Cons show ?thesis by (simp add: mods_in_def)
  next
    case True
    let ?N = "payloadStr (NPayload N)" and ?D = "parent_path p"
    have ms: "mods_in Pl (c # Cs) = ?N # mods_in Pl Cs" using N True by (simp add: mods_in_def)
    from Cons.prems(3) N True obtain x where x: "getStr (SInterner P) ?N = Some x"
      by (cases "getStr (SInterner P) ?N") simp_all
    show ?thesis
    proof (cases "childPath FS ?D x")
      case None
      with Cons.prems N True x have e: "P' = packErr (notFoundText ?D x) P" "Rc = 1" by simp_all
      have "pack_ok FS (packErr (notFoundText ?D x) P)"
        by (rule pack_ok_names [OF Cons.prems(2)]) (use Cons.prems(2) in \<open>simp_all add: packErr_def pack_ok_def\<close>)
      with e show ?thesis by simp
    next
      case (Some q)
      with Cons.prems(3) N True x obtain Rc1 P1 where l: "load q P = Some (Rc1, P1)"
        by (cases "load q P") auto
      note l1 = load_ok [OF Cons.prems(1,2) l]
      have w: "(if Rc1 \<noteq> 0 then Some (Rc1, P1) else walkChildren load FS ?D Pl Cs P1) = Some (Rc, P')"
        using Cons.prems(3) N True x Some l by simp
      show ?thesis
      proof (cases "Rc1 = 0")
        case False
        with w l1 show ?thesis by (auto simp: came_back_def)
      next
        case zero: True
        with w have w': "walkChildren load FS ?D Pl Cs P1 = Some (Rc, P')" by simp
        note w1 = Cons.IH [OF Cons.prems(1) conjunct1 [OF l1] w']
        have g: "pack_grows P P'" using pack_grows_trans l1 w1 by blast
        have n: "getStr (SInterner P') ?N = Some x" using x g by (simp add: pack_grows_def names_grow_def)
        have "Results P1 q \<noteq> None" using l1 zero by (simp add: came_back_def)
        then have q: "Results P' q \<noteq> None" using w1 by (auto simp: pack_grows_def map_le_def dom_def)
        have "stopped P P'" if "stopped P1 P'"
          using l1 stopped_later [OF that] by (auto simp: pack_grows_def)
        with w1 n Some q g show ?thesis by (auto simp: ms stored_mods_def)
      qed
    qed
  qed
qed

end

text \<open>A loader that stores no file but those that the file it loads needs.\<close>

locale exact_loader = file_loader +
  assumes load_new: "\<lbrakk>short_files FS; pack_ok FS P; load Path P = Some (0, P')\<rbrakk> \<Longrightarrow> new_only FS P P' {Path}"
begin

lemma walk_new:
  "\<lbrakk>short_files FS; pack_ok FS P; walkChildren load FS (parent_path p) Pl Cs P = Some (0, P')\<rbrakk>
    \<Longrightarrow> new_only FS P P' (asked FS P' p (mods_in Pl Cs))"
proof (induction Cs arbitrary: P)
  case Nil
  then show ?case by simp
next
  case (Cons c Cs)
  from Cons.prems(3) obtain N where N: "nodeAt Pl c = Some N" by (cases "nodeAt Pl c") simp_all
  show ?case
  proof (cases "NKind N = nk_ModDeclFile")
    case False
    with N Cons show ?thesis by (simp add: mods_in_def)
  next
    case True
    let ?N = "payloadStr (NPayload N)" and ?D = "parent_path p"
    have ms: "mods_in Pl (c # Cs) = ?N # mods_in Pl Cs" using N True by (simp add: mods_in_def)
    from Cons.prems(3) N True obtain x where x: "getStr (SInterner P) ?N = Some x"
      by (cases "getStr (SInterner P) ?N") simp_all
    from Cons.prems(3) N True x obtain q where q: "childPath FS ?D x = Some q"
      by (cases "childPath FS ?D x") simp_all
    from Cons.prems(3) N True x q obtain Rc1 P1 where l: "load q P = Some (Rc1, P1)"
      by (cases "load q P") auto
    have rc: "Rc1 = 0" using Cons.prems(3) N True x q l by (simp split: if_splits)
    then have w: "walkChildren load FS ?D Pl Cs P1 = Some (0, P')"
      using Cons.prems(3) N True x q l by simp
    note l1 = load_ok [OF Cons.prems(1,2) l] and ln = load_new [OF Cons.prems(1,2) l [unfolded rc]]
    note w1 = walk_ok [OF Cons.prems(1) conjunct1 [OF l1] w]
    have "getStr (SInterner P') ?N = Some x"
      using x l1 w1 by (simp add: pack_grows_def names_grow_def)
    with q have "q \<in> asked FS P' p (mods_in Pl (c # Cs))" by (auto simp: asked_def ms)
    moreover have "asked FS P' p (mods_in Pl Cs) \<subseteq> asked FS P' p (mods_in Pl (c # Cs))"
      by (auto simp: asked_def ms)
    ultimately show ?thesis
      using new_only_trans [OF new_only_mono [OF ln] new_only_mono [OF Cons.IH [OF Cons.prems(1) conjunct1 [OF l1] w]]] w1
      by simp
  qed
qed

end

section \<open>A file\<close>

lemma parse_names_grow:
  assumes "length c < 4294967295" "parse (newTokenStream (lex c) c) I = Some (R, J)"
  shows "names_grow I J"
proof -
  obtain s where "frame (newParser (newTokenStream (lex c) c) I) s" "J = Interner s"
    using parse_claim [OF source_stream(1,2) [OF assms(1)] assms(2)] by metis
  then show ?thesis by (simp add: names_grow_def frame_def newParser_def)
qed

text \<open>The ways in which \<open>parseFile\<close> can come back.\<close>

lemma parseFile_cases:
  assumes "parseFile (Suc n) FS Path P = Some (Rc, P')"
  obtains (stored) "Results P Path \<noteq> None" "Rc = 0" "P' = P"
  | (refused) e where "fatal e" "Rc = 1" "P' = packErr e P"
      "Path \<in> InProgress P \<or> contents_of FS Path = None"
  | (read) c R I os Cs P2 where "Results P Path = None" "Path \<notin> InProgress P" "contents_of FS Path = Some c"
      "parse (newTokenStream (lex c) c) (SInterner P) = Some (R, I)"
      "childrenOf (ResultPool R) (Root R) = Some Cs"
      "walkChildren (parseFile n FS) FS (parent_path Path) (ResultPool R) Cs
         (P \<lparr> SInterner := I, PErr := PErr P @ os, InProgress := insert Path (InProgress P) \<rparr>) = Some (Rc, P2)"
      "P' = (if Rc \<noteq> 0 then P2 \<lparr> InProgress := InProgress P2 - {Path} \<rparr>
         else P2 \<lparr> InProgress := InProgress P2 - {Path}, Results := (Results P2)(Path \<mapsto>
           (case Results P2 Path of Some R' \<Rightarrow> R' | None \<Rightarrow> R)) \<rparr>)"
      "os = printAll (fileDiagnostics \<lparr> Filename = Path, Contents = c \<rparr> [] (movedFrom (newTokenStream (lex c) c)) R)"
proof (cases "Results P Path \<noteq> None \<or> Path \<in> InProgress P")
  case True
  with assms that(1) that(2) [OF fatal_texts(1)] show ?thesis by (auto split: if_splits)
next
  case new: False
  show ?thesis
  proof (cases "contents_of FS Path")
    case None
    with makeFromFileName_fails obtain E SDE where "makeFromFileName FS Path [] = (Inl E, SDE)" by blast
    with assms new have "Rc = 1" "P' = packErr (cannotOpenText Path E) P" by auto
    with that(2) [OF fatal_texts(2) [of Path E]] None show ?thesis by blast
  next
    case (Some c)
    let ?B = "\<lparr> Filename = Path, Contents = c \<rparr>" and ?TS = "newTokenStream (lex c) c"
    have m: "makeFromFileName FS Path [] = (Inr ?B, [])" using Some makeFromFileName_contents by blast
    from assms new m obtain R I where r: "parse ?TS (SInterner P) = Some (R, I)"
      by (cases "parse ?TS (SInterner P)") auto
    from assms new m r obtain Cs where cs: "childrenOf (ResultPool R) (Root R) = Some Cs"
      by (cases "childrenOf (ResultPool R) (Root R)") (simp_all add: Let_def)
    let ?os = "printAll (fileDiagnostics ?B [] (movedFrom ?TS) R)"
    let ?P1 = "P \<lparr> SInterner := I, PErr := PErr P @ ?os, InProgress := insert Path (InProgress P) \<rparr>"
    from assms new m r cs obtain Rc' P2 where
      w: "walkChildren (parseFile n FS) FS (parent_path Path) (ResultPool R) Cs ?P1 = Some (Rc', P2)"
      by (cases "walkChildren (parseFile n FS) FS (parent_path Path) (ResultPool R) Cs ?P1")
        (auto simp: Let_def)
    have "Some (Rc, P') = (if Rc' \<noteq> 0 then Some (Rc', P2 \<lparr> InProgress := InProgress P2 - {Path} \<rparr>)
        else Some (0, P2 \<lparr> InProgress := InProgress P2 - {Path}, Results := (Results P2)(Path \<mapsto>
          (case Results P2 Path of Some R' \<Rightarrow> R' | None \<Rightarrow> R)) \<rparr>))"
      using assms new m r cs w by (cases "Rc' = 0") (simp_all add: Let_def)
    then have "Rc' = Rc" "P' = (if Rc \<noteq> 0 then P2 \<lparr> InProgress := InProgress P2 - {Path} \<rparr>
         else P2 \<lparr> InProgress := InProgress P2 - {Path}, Results := (Results P2)(Path \<mapsto>
           (case Results P2 Path of Some R' \<Rightarrow> R' | None \<Rightarrow> R)) \<rparr>)"
      by (auto split: if_splits)
    with that(3) new Some r cs w show ?thesis by blast
  qed
qed

lemma read_pack_ok:
  assumes "short_files FS" "pack_ok FS P" "contents_of FS Path = Some c"
    "parse (newTokenStream (lex c) c) (SInterner P) = Some (R, I)"
  shows "pack_ok FS (P \<lparr> SInterner := I, PErr := os, InProgress := G \<rparr>)"
proof -
  have c: "length c < 4294967295" using assms(1,3) by (fastforce simp: short_files_def)
  have "names_grow (SInterner P) I" by (rule parse_names_grow [OF c assms(4)])
  moreover have "ids_ok I" using parse_typed [OF _ assms(4)] assms(2) by (simp add: pack_ok_def)
  ultimately show ?thesis by (intro pack_ok_names [OF assms(2)]) simp_all
qed

lemma parseFile_loads: "file_loader (parseFile n FS) FS"
proof (induction n)
  case 0
  show ?case by unfold_locales simp_all
next
  case (Suc n)
  show ?case
  proof unfold_locales
    fix P Path Rc P' assume small: "short_files FS" and P: "pack_ok FS P" and run: "parseFile (Suc n) FS Path P = Some (Rc, P')"
    from run show "pack_ok FS P' \<and> pack_grows P P' \<and> came_back Rc Path P P'"
    proof (cases rule: parseFile_cases)
      case stored
      with P show ?thesis by (simp add: came_back_def)
    next
      case (refused e)
      have "pack_ok FS (packErr e P)"
        by (rule pack_ok_names [OF P]) (use P in \<open>simp_all add: packErr_def pack_ok_def\<close>)
      with refused show ?thesis by (simp add: came_back_def)
    next
      case (read c R I os Cs P2)
      let ?P1 = "P \<lparr> SInterner := I, PErr := PErr P @ os, InProgress := insert Path (InProgress P) \<rparr>"
      have c: "length c < 4294967295" using small read(3) by (fastforce simp: short_files_def)
      have g: "names_grow (SInterner P) I" by (rule parse_names_grow [OF c read(4)])
      have P1: "pack_ok FS ?P1" by (rule read_pack_ok [OF small P read(3,4)])
      note w = file_loader.walk_ok [OF Suc.IH small P1 read(6)]
      have same: "Results P2 Path = None" using w read(1) by (auto simp: pack_grows_def)
      have grow: "pack_grows P (P2 \<lparr> Results := X, InProgress := InProgress P2 - {Path} \<rparr>)"
        if "X = Results P2 \<or> X = (Results P2)(Path \<mapsto> R)" for X
        using that w read(1,2) g same
        by (auto simp: pack_grows_def map_le_def intro: names_grow_trans)
      show ?thesis
      proof (cases "Rc = 0")
        case False
        then have P': "P' = P2 \<lparr> Results := Results P2, InProgress := InProgress P2 - {Path} \<rparr>" using read(7) by simp
        have "pack_ok FS P'"
          by (rule pack_ok_names [of _ P2]) (use w in \<open>simp_all add: P' pack_ok_def\<close>)
        moreover have "stopped ?P1 P2" using w False by simp
        then have "stopped P P'" using stopped_later [of ?P1 P2 P os] by (simp add: P' stopped_def)
        ultimately show ?thesis using w False grow [of "Results P2"] by (simp add: P' came_back_def)
      next
        case True
        then have P': "P' = P2 \<lparr> Results := (Results P2)(Path \<mapsto> R), InProgress := InProgress P2 - {Path} \<rparr>"
          using read(7) same by simp
        have "mods_of R = mods_in (ResultPool R) Cs" using read(5) by (simp add: mods_of_def)
        then have "stored_mods FS P2 Path (mods_of R)" using w True by simp
        moreover have "parsed FS P2 Path R"
          using read(3,4) w by (auto simp: parsed_def pack_grows_def)
        ultimately have "pack_ok FS P'" using w by (intro pack_ok_store [OF _ same _ _ P']) simp_all
        then show ?thesis using True grow [of "(Results P2)(Path \<mapsto> R)"] by (simp add: P' came_back_def)
      qed
    qed
  qed
qed

lemma parseFile_exact: "exact_loader (parseFile n FS) FS"
proof (induction n)
  case 0
  show ?case by unfold_locales simp_all
next
  case (Suc n)
  show ?case
  proof (intro exact_loader.intro parseFile_loads exact_loader_axioms.intro)
    fix P Path P' assume small: "short_files FS" and P: "pack_ok FS P" and run: "parseFile (Suc n) FS Path P = Some (0, P')"
    from run show "new_only FS P P' {Path}"
    proof (cases rule: parseFile_cases)
      case stored
      then show ?thesis by simp
    next
      case (refused e)
      then show ?thesis by simp
    next
      case (read c R I os Cs P2)
      let ?P1 = "P \<lparr> SInterner := I, PErr := PErr P @ os, InProgress := insert Path (InProgress P) \<rparr>"
      have P1: "pack_ok FS ?P1" by (rule read_pack_ok [OF small P read(3,4)])
      note w = file_loader.walk_ok [OF parseFile_loads small P1 read(6)]
        and wn = exact_loader.walk_new [OF Suc.IH small P1 read(6)]
      have same: "Results P2 Path = None" using w read(1) by (auto simp: pack_grows_def)
      have P': "P' = P2 \<lparr> InProgress := InProgress P2 - {Path}, Results := (Results P2)(Path \<mapsto> R) \<rparr>"
        using read(7) same by simp
      have ms: "mods_of R = mods_in (ResultPool R) Cs" using read(5) by (simp add: mods_of_def)
      have keep: "needs FS P' p q" if "needs FS P2 p q" for p q
        using that same by (fastforce simp: needs_def P')
      have first: "needs FS P' Path q" if "q \<in> asked FS P2 Path (mods_in (ResultPool R) Cs)" for q
        using that by (auto simp: needs_def asked_def P' ms)
      show ?thesis
        unfolding new_only_def
      proof (intro allI impI)
        fix p assume "Results P' p \<noteq> None"
        then consider "p = Path" | "Results P2 p \<noteq> None" by (auto simp: P' split: if_splits)
        then show "Results P p \<noteq> None \<or> (\<exists>q\<in>{Path}. (needs FS P')\<^sup>*\<^sup>* q p)"
        proof cases
          case 2
          with wn consider "Results P p \<noteq> None"
            | q where "q \<in> asked FS P2 Path (mods_in (ResultPool R) Cs)" "(needs FS P2)\<^sup>*\<^sup>* q p"
            unfolding new_only_def by auto
          then show ?thesis
          proof cases
            case 2
            with first keep have "needs FS P' Path q" "(needs FS P')\<^sup>*\<^sup>* q p" by (metis mono_rtranclp)+
            then show ?thesis by (auto intro: converse_rtranclp_into_rtranclp)
          qed simp
        qed simp
      qed
    qed
  qed
qed

interpretation loaded: exact_loader "parseFile n FS" FS for n FS
  by (rule parseFile_exact)

lemma pack_ok_new: "pack_ok FS (newPack Err)"
  by (simp add: pack_ok_def newPack_def closed_def needs_def ids_ok_wf interner_wf_new acyclic_def)

section \<open>Coming back\<close>

text \<open>The children of the nodes are indexed by 32 bits too.\<close>

definition small_trees :: "file_system \<Rightarrow> bool" where
  "small_trees FS \<longleftrightarrow> (\<forall>p c I R J. contents_of FS p = Some c \<longrightarrow> parse (newTokenStream (lex c) c) I = Some (R, J)
     \<longrightarrow> length (Children (ResultPool R)) < 4294967296)"

text \<open>
  The recursion goes no deeper than there are files: a file in progress is not entered again.
  \<open>walkable\<close> is what the walk needs of the tree it walks over.
\<close>

definition walkable :: "node_pool \<Rightarrow> interner \<Rightarrow> node_index list \<Rightarrow> bool" where
  "walkable Pl I Cs \<longleftrightarrow> (\<forall>c\<in>set Cs. nodeAt Pl c \<noteq> None) \<and> (\<forall>N\<in>set (mods_in Pl Cs). getStr I N \<noteq> None)"

lemma walk_returns:
  assumes "\<And>P Path. \<lbrakk>pack_ok FS P; InProgress P = G\<rbrakk> \<Longrightarrow> load Path P \<noteq> None"
    and loader: "file_loader load FS" and small: "short_files FS"
  shows "\<lbrakk>pack_ok FS P; InProgress P = G; walkable Pl (SInterner P) Cs\<rbrakk>
    \<Longrightarrow> walkChildren load FS Dir Pl Cs P \<noteq> None"
proof (induction Cs arbitrary: P)
  case (Cons c Cs)
  then obtain N where N: "nodeAt Pl c = Some N" by (auto simp: walkable_def)
  have tl: "walkable Pl (SInterner P) Cs"
    using Cons.prems(3) by (auto simp: walkable_def mods_in_def)
  show ?case
  proof (cases "NKind N = nk_ModDeclFile")
    case False
    with N Cons.IH [OF Cons.prems(1,2) tl] show ?thesis by simp
  next
    case True
    then obtain x where x: "getStr (SInterner P) (payloadStr (NPayload N)) = Some x"
      using Cons.prems(3) N by (auto simp: walkable_def mods_in_def)
    show ?thesis
    proof (cases "childPath FS Dir x")
      case None
      with N True x show ?thesis by simp
    next
      case (Some q)
      obtain Rc P' where l: "load q P = Some (Rc, P')" using assms(1) [OF Cons.prems(1,2), of q] by auto
      from file_loader.load_ok [OF loader small Cons.prems(1) l]
      have g: "pack_ok FS P'" "pack_grows P P'" by blast+
      have "walkable Pl (SInterner P') Cs" using tl g(2)
        by (fastforce simp: walkable_def pack_grows_def names_grow_def)
      with Cons.IH [OF g(1)] g(2) Cons.prems(2) N True x Some l show ?thesis by (simp add: pack_grows_def)
    qed
  qed
qed simp

lemma parse_walkable:
  assumes "13 * length c + 15 < 4294967296" "ids_ok I" "parse (newTokenStream (lex c) c) I = Some (R, J)"
    "length (Children (ResultPool R)) < 4294967296"
  obtains Cs where "childrenOf (ResultPool R) (Root R) = Some Cs" "walkable (ResultPool R) J Cs"
proof -
  let ?TS = "newTokenStream (lex c) c" and ?Pl = "ResultPool R"
  have c: "length c < 4294967295" using assms(1) by simp
  note src = source_stream [OF c]
  have "13 * length (Tokens ?TS) + 2 < 4294967296" using src(3) assms(1) by simp
  then have "length (Nodes ?Pl) < 4294967296" using parse_nodes [OF src(1,2) assms(3)] by simp
  from parse_decls [OF src(1,2) assms(3) this assms(4)]
  obtain Cs where cs: "childrenOf ?Pl (Root R) = Some Cs" and node: "\<forall>c\<in>set Cs. nodeAt ?Pl c \<noteq> None" by blast
  have "getStr J N \<noteq> None" if in_mods: "N \<in> set (mods_in ?Pl Cs)" for N
  proof -
    obtain M where M: "M \<in> set (Nodes ?Pl)" "NKind M = nk_ModDeclFile" "N = payloadStr (NPayload M)"
      using in_mods nth_mem by (fastforce simp: mods_in_def nodeAt_def split: option.splits if_splits)
    have "fits_type (length (Strings J)) (NPayload M) (payload_type (NKind M))"
      using parse_typed [OF assms(2,3)] M(1) by (auto simp: payloads_typed_def)
    then have "unat (NPayload M) < length (Strings J)" by (simp add: M(2) payload_type_def)
    moreover have "unat (payloadStr (NPayload M)) \<le> unat (NPayload M)"
      using word_and_le2 [of "NPayload M" "0x3FFFFFFF"] by (simp add: payloadStr_def word_le_nat_alt)
    ultimately show ?thesis by (simp add: getStr_def M(3))
  qed
  then have "walkable ?Pl J Cs" using node by (simp add: walkable_def)
  with cs that show thesis by blast
qed

lemma parseFile_comes_back:
  assumes "finite S" "\<And>p. contents_of FS p \<noteq> None \<Longrightarrow> p \<in> S" "short_files FS" "small_trees FS"
  shows "\<lbrakk>pack_ok FS P; card (S - InProgress P) < n\<rbrakk> \<Longrightarrow> parseFile n FS Path P \<noteq> None"
proof (induction n arbitrary: Path P)
  case (Suc n)
  show ?case
  proof (cases "Results P Path \<noteq> None \<or> Path \<in> InProgress P")
    case new: False
    show ?thesis
    proof (cases "contents_of FS Path")
      case None
      with makeFromFileName_fails obtain E SDE where "makeFromFileName FS Path [] = (Inl E, SDE)" by blast
      with new show ?thesis by simp
    next
      case (Some c)
      let ?B = "\<lparr> Filename = Path, Contents = c \<rparr>" and ?TS = "newTokenStream (lex c) c"
      have m: "makeFromFileName FS Path [] = (Inr ?B, [])" using Some makeFromFileName_contents by blast
      have small: "13 * length c + 15 < 4294967296" using assms(3) Some by (auto simp: short_files_def)
      then have c: "length c < 4294967295" by simp
      obtain R I where r: "parse ?TS (SInterner P) = Some (R, I)"
        using parseSourceFile_returns source_stream(1,2) [OF c] by blast
      have ids: "ids_ok (SInterner P)" using Suc.prems(1) by (simp add: pack_ok_def)
      obtain Cs where cs: "childrenOf (ResultPool R) (Root R) = Some Cs" "walkable (ResultPool R) I Cs"
        using parse_walkable [OF small ids r] assms(4) Some r unfolding small_trees_def by blast
      let ?P1 = "P \<lparr> SInterner := I, PErr := PErr P @ printAll (fileDiagnostics ?B [] (movedFrom ?TS) R),
        InProgress := insert Path (InProgress P) \<rparr>"
      have P1: "pack_ok FS ?P1"
        by (rule pack_ok_names [OF Suc.prems(1)])
          (use parse_names_grow [OF c r] parse_typed [OF ids r] in simp_all)
      have "card (S - insert Path (InProgress P)) < card (S - InProgress P)"
        using assms(1,2) Some new by (intro psubset_card_mono) auto
      then have "card (S - insert Path (InProgress P)) < n" using Suc.prems(2) by simp
      then have "walkChildren (parseFile n FS) FS (parent_path Path) (ResultPool R) Cs ?P1 \<noteq> None"
        by (intro walk_returns [where G = "insert Path (InProgress P)", OF Suc.IH parseFile_loads assms(3) P1])
          (simp_all add: cs(2))
      with new m r cs(1) show ?thesis by (auto simp: Let_def)
    qed
  qed auto
qed simp

end
