(* ===== verification/ParserRun.thy ===== *)
theory ParserRun
  imports ParserProps
begin

text \<open>
  Running the parser on a given source inside the logic, for examples: equations that rewrite a run
  on a state, under congruences that leave alone what has not been run yet; and two runs, one on a
  file in which the lexer finds an error, one on a module inside a module.
\<close>

section \<open>Runs\<close>

lemma run_bind: "run_state (State_Monad.bind m f) s = (case run_state m s of (a, t) \<Rightarrow> run_state (f a) t)"
  by (simp add: State_Monad.bind_def split: prod.splits)

lemma run_cases:
  "run_state (if b then m else n) s = (if b then run_state m s else run_state n s)"
  "run_state (case p of (x, y) \<Rightarrow> g x y) s = (case p of (x, y) \<Rightarrow> run_state (g x y) s)"
  "run_state (Let z k) s = (let y = z in run_state (k y) s)"
  by (auto simp: Let_def split: prod.split)

lemma run_prims:
  "run_state (gets f) s = (f s, s)"
  "run_state (modify g) s = ((), g s)"
  "run_state (pPeek n) s = (peek n (Stream s), s)"
  "run_state pPeekToken s = (peekToken 0 (Stream s), s)"
  "run_state pPrevious s = (previous (Stream s), s)"
  "run_state (pCheck K) s = (check K (Stream s), s)"
  "run_state pAtEof s = (atEof (Stream s), s)"
  "run_state pAdvance s = (case advance (Stream s) of (t, TS) \<Rightarrow> (t, s \<lparr> Stream := TS \<rparr>))"
  "run_state (pConsume K) s = (case consume K (Stream s) of (b, TS) \<Rightarrow> (b, s \<lparr> Stream := TS \<rparr>))"
  "run_state (internText S) s =
     (case intern (textOf (Stream s) S) (Interner s) of (i, I) \<Rightarrow> (i, s \<lparr> Interner := I \<rparr>))"
  "run_state (pAlloc NK S ks p fl) s = (case alloc NK S ks p fl (Pool s) of (i, P) \<Rightarrow> (i, s \<lparr> Pool := P \<rparr>))"
  by (simp_all add: gets_def modify_def pPeek_def pPeekToken_def pPrevious_def pCheck_def
      pAtEof_def pAdvance_def pConsume_def internText_def pAlloc_def)

lemma run_loop:
  "run_state (loopP body x) s = (let n = Suc (remaining (Stream s)) in run_state (loopN n body x) s)"
  "run_state (loopN (Suc n) body x) s = (case run_state (body x) s of (p, t) \<Rightarrow>
     (case p of (again, y) \<Rightarrow> if again then run_state (loopN n body y) t else (y, t)))"
  "run_state (loopN (numeral k) body x) s = (let n = pred_numeral k in run_state (loopN (Suc n) body x) s)"
  by (simp_all add: loopP_def gets_def State_Monad.bind_def State_Monad.return_def numeral_eq_Suc
      split: prod.splits)

lemma run_top: "run_state (tie (Suc n) CTopLevel) s = run_state (parseTopLevelDecl (tie n)) s"
  by simp

text \<open>The productions that the examples go through, unfolded only where they are run.\<close>

lemmas run_defs =
  pAllocLeaf_def [THEN arg_cong [where f = run_state], THEN fun_cong]
  makeErrorNode_def [THEN arg_cong [where f = run_state], THEN fun_cong]
  pDiag_def [THEN arg_cong [where f = run_state], THEN fun_cong]
  addError_def [THEN arg_cong [where f = run_state], THEN fun_cong]
  expectIn_def [THEN arg_cong [where f = run_state], THEN fun_cong]
  expect_def [THEN arg_cong [where f = run_state], THEN fun_cong]
  expectName_def [THEN arg_cong [where f = run_state], THEN fun_cong]
  parseComments_def [THEN arg_cong [where f = run_state], THEN fun_cong]
  parseDocComments_def [THEN arg_cong [where f = run_state], THEN fun_cong]
  parseFileDocComments_def [THEN arg_cong [where f = run_state], THEN fun_cong]
  synchronize_def [THEN arg_cong [where f = run_state], THEN fun_cong]
  parseModDecl_def [THEN arg_cong [where f = run_state], THEN fun_cong]
  parseTopLevelDecl_def [THEN arg_cong [where f = run_state], THEN fun_cong]
  parseSourceFile_def [THEN arg_cong [where f = run_state], THEN fun_cong]
  parseUntil_def [THEN fun_cong, THEN arg_cong [where f = run_state], THEN fun_cong]

text \<open>The state is computed before what is run on it is looked at.\<close>

lemma run_state_cong: "s = t \<Longrightarrow> run_state m s = run_state m t"
  by simp

lemma prod_cong: "p = q \<Longrightarrow> case_prod f p = case_prod f q"
  by simp

lemma let_cong: "x = y \<Longrightarrow> Let x f = Let y f"
  by simp

lemmas run_congs = run_state_cong prod_cong let_cong if_weak_cong option.case_cong_weak

lemmas run_rules = run_bind run_cases Let_def run_prims run_loop run_top run_defs
  peek_def peekToken_def eofToken_def previous_def check_def atEof_def advance_def consume_def remaining_def
  textOf_def substr_def alloc_def intern_def newDiag_def d_arg_def cover_def syncKinds_def
  newParser_def newInterner_def newNodePool_def nodeAt_def childrenOf_def childSlice_def

section \<open>Examples\<close>

lemma unlexed_stream: "newTokenStream (lex ''#'') ''#'' =
   \<lparr> Tokens = [Token tk_unknown (Span 0 1), Token tk_eof (Span 1 1)],
     LexErrors = [LexerError InvalidCharacter (Span 0 1)], Source = ''#'', Cursor = 0 \<rparr>"
  by code_simp

lemma unlexed_run: "\<exists>R J. parse (newTokenStream (lex ''#'') ''#'') newInterner = Some (R, J)
    \<and> childrenOf (ResultPool R) (Root R) = Some [1]
    \<and> map_option NKind (nodeAt (ResultPool R) 1) = Some nk_Error"
  unfolding unlexed_stream parse_def by (simp add: run_rules cong: run_congs del: tie.simps)

lemma inline_stream: "newTokenStream (lex ''mod a{mod b;}'') ''mod a{mod b;}'' =
   \<lparr> Tokens = [Token kw_mod (Span 0 3), Token tk_identifier (Span 4 5), Token tk_l_brace (Span 5 6),
       Token kw_mod (Span 6 9), Token tk_identifier (Span 10 11), Token tk_semi (Span 11 12),
       Token tk_r_brace (Span 12 13), Token tk_eof (Span 13 13)],
     LexErrors = [], Source = ''mod a{mod b;}'', Cursor = 0 \<rparr>"
  by code_simp

text \<open>The root has one child, the outer module, and that has one, the declaration of \<open>b\<close>.\<close>

lemma inline_run: "\<exists>R J. parse (newTokenStream (lex ''mod a{mod b;}'') ''mod a{mod b;}'') newInterner = Some (R, J)
    \<and> ResultErrors R = [] \<and> childrenOf (ResultPool R) (Root R) = Some [2]
    \<and> map_option NKind (nodeAt (ResultPool R) 2) = Some nk_ModDecl
    \<and> childrenOf (ResultPool R) 2 = Some [1]
    \<and> map_option NKind (nodeAt (ResultPool R) 1) = Some nk_ModDeclFile
    \<and> map_option (\<lambda>N. getStr J (payloadStr (NPayload N))) (nodeAt (ResultPool R) 1) = Some (Some ''b'')"
  unfolding inline_stream parse_def
  by (simp add: run_rules payloadStr_def getStr_def cong: run_congs del: tie.simps)

end
