(* ===== verification/DriverProps.thy ===== *)
theory DriverProps
  imports PackLoading ParserRound SourcePlaces ParserRun
begin

text \<open>
  What the driver guarantees: which files a pack that was compiled holds, that the driver comes back
  with status 0 or 1, and that a status of 1 is never silent; what it prints for a file, and which
  arguments it accepts.
\<close>

section \<open>Status\<close>

lemma parseFile_new:
  assumes "short_files FS" "parseFile n FS Path (newPack Err) = Some (Rc, P)"
  shows "pack_ok FS P" "pack_grows (newPack Err) P" "came_back Rc Path (newPack Err) P"
  using loaded.load_ok [OF assms(1) pack_ok_new assms(2)] by blast+

text \<open>A status of one, and the last thing on the error stream.\<close>

definition failed :: "int \<Rightarrow> driver \<Rightarrow> bool" where
  "failed Rc D \<longleftrightarrow> Rc = 1 \<and> (\<exists>os t. StdErr D = os @ [Text t] \<and> fatal t)"

lemma compilePack_status:
  assumes "short_files FS" "compilePack n FS F D = Some (Rc, D')"
  shows "Rc = 0 \<or> failed Rc D'"
proof -
  from assms(2) obtain P where P: "parseFile n FS F (newPack (StdErr D)) = Some (Rc, P)"
    "D' = D \<lparr> StdErr := PErr P \<rparr>" by (auto simp: compilePack_def split: option.splits)
  from parseFile_new(3) [OF assms(1) P(1)] show ?thesis
    by (auto simp: came_back_def stopped_def failed_def P(2))
qed

lemma compileAll_status:
  assumes "short_files FS" "compileAll n FS Fs D = Some (Rc, D')"
  shows "Rc = 0 \<or> failed Rc D'"
  using assms(2)
proof (induction Fs arbitrary: D)
  case (Cons F Fs)
  then obtain Rc1 D1 where c: "compilePack n FS F D = Some (Rc1, D1)"
    by (cases "compilePack n FS F D") auto
  with Cons compilePack_status [OF assms(1) c] show ?case by (auto split: if_splits)
qed simp

lemma compileAll_returns:
  assumes "\<And>F D. compilePack n FS F D \<noteq> None"
  shows "compileAll n FS Fs D \<noteq> None"
proof (induction Fs arbitrary: D)
  case (Cons F Fs)
  then show ?case using assms [of F D] by auto
qed simp

lemma parseArgs_refused:
  "parseArgs Argv D = (Some False, D') \<Longrightarrow> suffix helpText (StdOut D')"
  by (induction Argv D rule: parseArgs.induct)
    (auto simp: printHelp_def putOut_def suffix_def split: if_splits)

lemma parseCommandLine_refused:
  "parseCommandLine Argv D = (False, D') \<Longrightarrow> suffix helpText (StdOut D')"
  by (auto simp: parseCommandLine_def printHelp_def putOut_def suffix_def
      dest!: parseArgs_refused split: if_splits prod.splits option.splits)

lemma runDriver_status:
  "\<lbrakk>short_files FS; runDriver n FS D = Some (Rc, D')\<rbrakk> \<Longrightarrow> Rc = 0 \<or> failed Rc D'"
  unfolding runDriver_def using compileAll_status by (auto split: if_splits)

section \<open>Command lines\<close>

lemma parseArgs_files:
  assumes "\<forall>f\<in>set fs. f = [] \<or> hd f \<noteq> CHR ''-''"
  shows "parseArgs fs D = (None, setOptions (\<lambda>Op. Op \<lparr> InputFiles := InputFiles Op @ fs \<rparr>) D)"
  using assms
proof (induction fs arbitrary: D)
  case (Cons f fs)
  then have "f \<notin> {''--version'', ''--help'', ''-h'', ''--debug'', ''-O0'', ''-o''}"
    "\<not> prefix ''--debug-only='' f" by (auto simp: prefix_def)
  with Cons show ?case by (simp add: setOptions_def)
qed (simp add: setOptions_def)

section \<open>Reports\<close>

definition parse_report :: "phase_diagnostic \<Rightarrow> diagnostic" where
  "parse_report E = \<lparr> Level = LevelError, DiagKind = UserError,
     Message = renderMessage (messageForID (LocalID E)) (Args E), Location = LocSpan (Loc E),
     DLabels = Labels E, DNotes = Notes E, DHelps = Helps E \<rparr>"

definition lex_report :: "lexer_error \<Rightarrow> diagnostic" where
  "lex_report E = builder_message (getErrorString (ErrorKind E)) (errorAt (ErrorSpan E))"

lemma fold_labels:
  "fold (\<lambda>L. builder_label (DiagSpan L) (LabelMessage L)) Ls D = D \<lparr> DLabels := DLabels D @ Ls \<rparr>"
  by (induction Ls arbitrary: D) (simp_all add: builder_label_def)

lemma fold_builders:
  "fold builder_note Ns D = D \<lparr> DNotes := DNotes D @ Ns \<rparr>"
  "fold builder_help Ns D = D \<lparr> DHelps := DHelps D @ Ns \<rparr>"
  by (induction Ns arbitrary: D) (simp_all add: builder_note_def builder_help_def)

lemma emitParseError_report: "emitParseError E = engine_emit (parse_report E)"
  by (simp add: emitParseError_def fold_labels fold_builders parse_report_def errorAt_def builder_error_def
      newBuilder_def builder_at_def builder_message_def)

lemma fold_emit:
  "(\<And>x. f x = engine_emit (g x)) \<Longrightarrow> fold f xs E = E \<lparr> Diagnostics := Diagnostics E @ map g xs \<rparr>"
  by (induction xs arbitrary: E) (simp_all add: engine_emit_def)

lemma fileDiagnostics_reports:
  "fileDiagnostics Buf SDE TS R = \<lparr> SM = newSourceManager Buf,
     Diagnostics = SDE @ map lex_report (LexErrors TS) @ map parse_report (ResultErrors R) \<rparr>"
  by (simp add: fileDiagnostics_def withSourceManager_def fold_emit [OF emitParseError_report]
      fold_emit [of emitLexError lex_report] fold_emit [of engine_emit "\<lambda>x. x"] emitLexError_def lex_report_def)



section \<open>Examples\<close>

text \<open>A pack of two files: the first declares the second, which is empty.\<close>

definition example_text :: string where
  "example_text = print_lines (show_file [DMod ''b''])"

definition example_files :: file_system where
  "example_files = \<lparr> getBufferForFile = (\<lambda>p. if p = ''a.et'' then Inr (Some example_text)
       else if p = ''b.et'' then Inr (Some []) else Inl ''no such file''),
     fileExists = (\<lambda>p. p \<in> {''a.et'', ''b.et''}) \<rparr>"

definition empty_file :: file_system where
  "empty_file = \<lparr> getBufferForFile = (\<lambda>p. if p = ''b.et'' then Inr (Some []) else Inl ''no such file''),
     fileExists = (\<lambda>p. p = ''b.et'') \<rparr>"

definition unlexed_file :: file_system where
  "unlexed_file = \<lparr> getBufferForFile = (\<lambda>p. if p = ''c.et'' then Inr (Some ''#'') else Inl ''no such file''),
     fileExists = (\<lambda>p. p = ''c.et'') \<rparr>"

definition inline_file :: file_system where
  "inline_file = \<lparr> getBufferForFile = (\<lambda>p. if p = ''m.et'' then Inr (Some ''mod a{mod b;}'') else Inl ''no such file''),
     fileExists = (\<lambda>p. p = ''m.et'') \<rparr>"

lemma example_contents:
  "contents_of example_files p = (if p = ''a.et'' then Some example_text else if p = ''b.et'' then Some [] else None)"
  "contents_of empty_file p = (if p = ''b.et'' then Some [] else None)"
  "contents_of unlexed_file p = (if p = ''c.et'' then Some ''#'' else None)"
  "contents_of inline_file p = (if p = ''m.et'' then Some ''mod a{mod b;}'' else None)"
  by (simp_all add: contents_of_def example_files_def empty_file_def unlexed_file_def inline_file_def)

lemma example_short: "short_files example_files" "short_files empty_file" "short_files unlexed_file"
proof -
  have "length example_text = 8" by code_simp
  then show "short_files example_files" "short_files empty_file" "short_files unlexed_file"
    by (simp_all add: short_files_def example_contents)
qed

lemma parse_empty:
  "map_option (\<lambda>(R, J). (childrenOf (ResultPool R) (Root R), length (Children (ResultPool R)), ResultErrors R))
     (parse (newTokenStream (lex []) []) I) = Some (Some [], 0, [])"
  by code_simp

lemma parse_empty_run:
  obtains R J where "parse (newTokenStream (lex []) []) I = Some (R, J)"
    "childrenOf (ResultPool R) (Root R) = Some []" "Children (ResultPool R) = []" "ResultErrors R = []"
  using parse_empty [of I] by (cases "parse (newTokenStream (lex []) []) I") auto

lemma empty_small: "small_trees empty_file"
proof -
  have "length (Children (ResultPool R)) < 4294967296" if "parse (newTokenStream (lex []) []) I = Some (R, J)" for I R J
    using parse_empty [of I] that by simp
  then show ?thesis by (auto simp: small_trees_def example_contents)
qed

lemma no_reports: "fileDiagnostics Buf [] (movedFrom TS) R = \<lparr> SM = newSourceManager Buf, Diagnostics = [] \<rparr>"
  if "ResultErrors R = []"
  using that by (simp add: fileDiagnostics_reports movedFrom_def)

lemma parse_example:
  obtains R J i N where "parse (newTokenStream (lex example_text) example_text) newInterner = Some (R, J)"
    "ResultErrors R = []" "childrenOf (ResultPool R) (Root R) = Some [i]"
    "nodeAt (ResultPool R) i = Some N" "NKind N = nk_ModDeclFile" "getStr J (payloadStr (NPayload N)) = Some ''b''"
proof -
  let ?ds = "[DMod ''b'']"
  have p: "\<forall>(k, s)\<in>set (show_file ?ds). plain k s" using plain_names by (simp add: show_file_def sym_def)
  obtain R J "is" where r: "parse (printed (show_file ?ds)) newInterner = Some (R, J)" "ok R"
    "childrenOf (ResultPool R) (Root R) = Some is" "list_all2 (declares (ResultPool R) J) is ?ds"
    by (rule file_run [of ?ds newInterner]) (use p interner_wf_new in \<open>simp_all add: show_file_def sym_def newInterner_def\<close>)
  from r(4) obtain i where i: "is = [i]" "declares (ResultPool R) J i (DMod ''b'')" by (auto simp: list_all2_Cons2)
  then obtain N where "nodeAt (ResultPool R) i = Some N" "NKind N = nk_ModDeclFile"
    "getStr J (payloadStr (NPayload N)) = Some ''b''"
    by (auto simp: declares_def kindOf_def)
  with that r i(1) show thesis by (simp add: ok_def printed_def example_text_def)
qed

lemma example_child: "childPath example_files (parent_path ''a.et'') ''b'' = Some ''b.et''"
  by code_simp

lemma example_opens:
  "makeFromFileName example_files ''a.et'' [] = (Inr \<lparr> Filename = ''a.et'', Contents = example_text \<rparr>, [])"
  "makeFromFileName example_files ''b.et'' [] = (Inr \<lparr> Filename = ''b.et'', Contents = [] \<rparr>, [])"
  "makeFromFileName empty_file ''b.et'' [] = (Inr \<lparr> Filename = ''b.et'', Contents = [] \<rparr>, [])"
  by (simp_all add: makeFromFileName_contents example_contents)

lemma example_b:
  assumes "Results P ''b.et'' = None" "''b.et'' \<notin> InProgress P" "FS = example_files \<or> FS = empty_file"
  obtains R J where "parseFile (Suc n) FS ''b.et'' P = Some (0, P \<lparr> SInterner := J, Results := (Results P)(''b.et'' \<mapsto> R) \<rparr>)"
proof -
  obtain R J where r: "parse (newTokenStream (lex []) []) (SInterner P) = Some (R, J)"
    "childrenOf (ResultPool R) (Root R) = Some []" "ResultErrors R = []" by (rule parse_empty_run)
  have "makeFromFileName FS ''b.et'' [] = (Inr \<lparr> Filename = ''b.et'', Contents = [] \<rparr>, [])"
    using assms(3) example_opens by blast
  with assms(1,2) r that show thesis by (simp add: no_reports printAll_def)
qed

lemma example_run:
  obtains R J R' J' where "parseFile 2 example_files ''a.et'' (newPack []) = Some (0, \<lparr> SInterner = J',
     Results = [''b.et'' \<mapsto> R', ''a.et'' \<mapsto> R], InProgress = {}, PErr = [] \<rparr>)"
proof -
  obtain R J i N where r: "parse (newTokenStream (lex example_text) example_text) newInterner = Some (R, J)"
    "ResultErrors R = []" "childrenOf (ResultPool R) (Root R) = Some [i]"
    "nodeAt (ResultPool R) i = Some N" "NKind N = nk_ModDeclFile" "getStr J (payloadStr (NPayload N)) = Some ''b''"
    by (rule parse_example)
  let ?P = "\<lparr> SInterner = J, Results = Map.empty, InProgress = {''a.et''}, PErr = [] \<rparr>"
  obtain R' J' where b: "parseFile 1 example_files ''b.et'' ?P
      = Some (0, ?P \<lparr> SInterner := J', Results := (Results ?P)(''b.et'' \<mapsto> R') \<rparr>)"
    by (rule example_b [of ?P example_files 0]) simp_all
  have "walkChildren (parseFile 1 example_files) example_files (parent_path ''a.et'') (ResultPool R) [i] ?P
      = Some (0, ?P \<lparr> SInterner := J', Results := (Results ?P)(''b.et'' \<mapsto> R') \<rparr>)"
    using r b example_child by simp
  with r that show thesis
    by (simp add: numeral_2_eq_2 newPack_def example_opens no_reports printAll_def Let_def del: walkChildren.simps)
qed

text \<open>A file whose only children are of another kind asks for no file.\<close>

lemma parseFile_alone:
  assumes "contents_of FS Path = Some c" "parse (newTokenStream (lex c) c) newInterner = Some (R, J)"
    "childrenOf (ResultPool R) (Root R) = Some [i]" "map_option NKind (nodeAt (ResultPool R) i) = Some K"
    "K \<noteq> nk_ModDeclFile"
  obtains os where "parseFile (Suc n) FS Path (newPack []) = Some (0, \<lparr> SInterner = J, Results = [Path \<mapsto> R],
     InProgress = {}, PErr = os \<rparr>)"
proof -
  have "makeFromFileName FS Path [] = (Inr \<lparr> Filename = Path, Contents = c \<rparr>, [])"
    using assms(1) by (simp add: makeFromFileName_contents)
  with assms(2-5) that show thesis by (auto simp: newPack_def Let_def)
qed

text \<open>A declaration inside an inline module: its file is not asked for, though it does not exist,
  and the pack is held to be complete.\<close>

lemma inline_module_skipped:
  "\<exists>P R. parseFile 1 inline_file ''m.et'' (newPack []) = Some (0, P) \<and> dom (Results P) = {''m.et''}
     \<and> Results P ''m.et'' = Some R \<and> ResultErrors R = [] \<and> childrenOf (ResultPool R) (Root R) = Some [2]
     \<and> childrenOf (ResultPool R) 2 = Some [1]
     \<and> map_option NKind (nodeAt (ResultPool R) 1) = Some nk_ModDeclFile
     \<and> childPath inline_file (parent_path ''m.et'') ''b'' = None"
proof -
  obtain R J where r: "parse (newTokenStream (lex ''mod a{mod b;}'') ''mod a{mod b;}'') newInterner = Some (R, J)"
    "ResultErrors R = []" "childrenOf (ResultPool R) (Root R) = Some [2]"
    "map_option NKind (nodeAt (ResultPool R) 2) = Some nk_ModDecl" "childrenOf (ResultPool R) 2 = Some [1]"
    "map_option NKind (nodeAt (ResultPool R) 1) = Some nk_ModDeclFile"
    using inline_run by blast
  have c: "contents_of inline_file ''m.et'' = Some ''mod a{mod b;}''" by (simp add: example_contents)
  obtain os where p: "parseFile (Suc 0) inline_file ''m.et'' (newPack []) = Some (0, \<lparr> SInterner = J,
    Results = [''m.et'' \<mapsto> R], InProgress = {}, PErr = os \<rparr>)"
    by (rule parseFile_alone [OF c r(1,3,4)]) simp_all
  have "childPath inline_file (parent_path ''m.et'') ''b'' = None" by code_simp
  with p r show ?thesis unfolding One_nat_def by (intro exI [of _ R] exI) (auto simp del: parseFile.simps split: if_splits)
qed

section \<open>Properties\<close>

text \<open>C4: which files a pack holds.  When \<open>parseFile\<close> on the root of a new session returns 0, the
  files stored are the root and exactly those that are reached from it by the \<^verbatim>\<open>mod name;\<close>
  declarations at the top level of files; every such declaration of a stored file has a file,
  which is stored; what is stored for a file is what the parser makes of it; no file is in
  progress any more; and the files do not need each other in a cycle.  A declaration inside an
  inline module is not followed (\<open>inline_module_skipped\<close>).\<close>

theorem pack_reachable:
  assumes "short_files FS" "parseFile n FS RootFile (newPack Err) = Some (0, P)"
  shows "dom (Results P) = {p. (needs FS P)\<^sup>*\<^sup>* RootFile p} \<and> InProgress P = {}
    \<and> acyclic {(p, q). needs FS P p q}
    \<and> (\<forall>p R. Results P p = Some R \<longrightarrow> parsed FS P p R \<and> stored_mods FS P p (mods_of R))"
proof -
  note new = parseFile_new [OF assms] and only = loaded.load_new [OF assms(1) pack_ok_new assms(2)]
  have root: "Results P RootFile \<noteq> None" using new(3) by (simp add: came_back_def)
  have closed: "closed FS P" using new(1) by (simp add: pack_ok_def)
  have "Results P p \<noteq> None" if "(needs FS P)\<^sup>*\<^sup>* RootFile p" for p
    using that
  proof induction
    case (step p q)
    then show ?case using closed by (fastforce simp: needs_def closed_def stored_mods_def)
  qed (rule root)
  moreover have "(needs FS P)\<^sup>*\<^sup>* RootFile p" if "Results P p \<noteq> None" for p
    using only that by (auto simp: new_only_def newPack_def)
  ultimately have "dom (Results P) = {p. (needs FS P)\<^sup>*\<^sup>* RootFile p}" by (auto simp: domIff)
  with new show ?thesis by (simp add: pack_ok_def pack_grows_def closed_def newPack_def)
qed

theorem pack_reachable_witness:
  "\<exists>P R. parseFile 2 example_files ''a.et'' (newPack []) = Some (0, P) \<and> InProgress P = {}
     \<and> Results P ''a.et'' = Some R \<and> Results P ''b.et'' \<noteq> None \<and> stored_mods example_files P ''a.et'' (mods_of R)"
proof -
  obtain R J R' J' where r: "parseFile 2 example_files ''a.et'' (newPack []) = Some (0, \<lparr> SInterner = J',
     Results = [''b.et'' \<mapsto> R', ''a.et'' \<mapsto> R], InProgress = {}, PErr = [] \<rparr>)" by (rule example_run)
  from pack_reachable [OF example_short(1) r] r show ?thesis by force
qed

text \<open>C7: the driver comes back.  With finitely many files that can be opened, and enough fuel for
  each of them once, the program ends for every command line, whatever the files hold and however
  they declare each other, and its exit status is 0 or 1.\<close>

theorem driver_returns:
  assumes "finite {p. contents_of FS p \<noteq> None}" "short_files FS" "small_trees FS"
    "card {p. contents_of FS p \<noteq> None} < n"
  shows "\<exists>Rc D. eterMain n FS Argv = Some (Rc, D) \<and> Rc \<in> {0, 1}"
proof -
  have "parseFile n FS Path (newPack Err) \<noteq> None" for Path Err
    by (rule parseFile_comes_back [OF assms(1) _ assms(2,3) pack_ok_new])
      (use assms(4) in \<open>simp_all add: newPack_def\<close>)
  then have "compilePack n FS F D \<noteq> None" for F D
    by (auto simp: compilePack_def split: option.splits)
  from compileAll_returns [OF this] have "runDriver n FS D \<noteq> None" for D
    by (simp add: runDriver_def)
  moreover have "Rc \<in> {0, 1}" if "runDriver n FS D = Some (Rc, D')" for D Rc D'
    using runDriver_status [OF assms(2) that] by (auto simp: failed_def)
  ultimately show ?thesis unfolding eterMain_def by (fastforce split: prod.split)
qed

theorem driver_returns_witness:
  "\<exists>Rc D. eterMain 2 empty_file [''eter'', ''b.et''] = Some (Rc, D) \<and> Rc \<in> {0, 1}"
proof -
  have "{p. contents_of empty_file p \<noteq> None} = {''b.et''}" by (auto simp: example_contents)
  then show ?thesis by (intro driver_returns example_short empty_small) simp_all
qed

text \<open>C15: a failure is never silent.  An exit status other than 0 is 1, and either the command line
  was refused and the help text is the last thing on the output, or the last thing on the error
  stream says which file could not be found, could not be opened, or needs itself.\<close>

theorem exit_status:
  assumes "short_files FS" "eterMain n FS Argv = Some (Rc, D)" "Rc \<noteq> 0"
  shows "Rc = 1 \<and> (\<not> fst (parseCommandLine Argv newDriver) \<and> suffix helpText (StdOut D)
    \<or> (\<exists>os t. StdErr D = os @ [Text t] \<and> fatal t))"
proof -
  obtain Fine D0 where c: "parseCommandLine Argv newDriver = (Fine, D0)" by (metis prod.exhaust)
  show ?thesis
  proof (cases Fine)
    case False
    with assms(2) c parseCommandLine_refused [of Argv newDriver D0] show ?thesis by (simp add: eterMain_def)
  next
    case True
    with assms(2) c have "runDriver n FS D0 = Some (Rc, D)" by (simp add: eterMain_def)
    from runDriver_status [OF assms(1) this] assms(3) show ?thesis by (simp add: failed_def)
  qed
qed

theorem exit_status_witness:
  "\<exists>D. eterMain 1 empty_file [''eter'', ''c.et''] = Some (1, D) \<and> (\<exists>os t. StdErr D = os @ [Text t] \<and> fatal t)"
proof -
  have "map_option fst (eterMain 1 empty_file [''eter'', ''c.et'']) = Some 1" by code_simp
  then obtain D where r: "eterMain 1 empty_file [''eter'', ''c.et''] = Some (1, D)" by auto
  have "fst (parseCommandLine [''eter'', ''c.et''] newDriver)" by code_simp
  with exit_status [OF example_short(2) r] r show ?thesis by auto
qed



text \<open>C34: plain arguments are input files.  A command line with nothing but names of files is
  accepted, with the files in their order, even when there are several; only then is the help
  text printed.\<close>

theorem parseCommandLine_files:
  assumes "fs \<noteq> []" "\<forall>f\<in>set fs. f = [] \<or> hd f \<noteq> CHR ''-''"
  shows "\<exists>D. parseCommandLine (Self # fs) newDriver = (True, D) \<and> InputFiles (Options D) = fs
    \<and> StdOut D = (if length fs = 1 then [] else helpText)"
  using assms parseArgs_files [OF assms(2), of newDriver]
  by (auto simp: parseCommandLine_def newDriver_def setOptions_def printHelp_def putOut_def putErr_def Suc_le_eq)

theorem parseCommandLine_files_witness:
  "\<exists>D. parseCommandLine [''eter'', ''a.et'', ''b.et''] newDriver = (True, D)
     \<and> InputFiles (Options D) = [''a.et'', ''b.et''] \<and> StdOut D = helpText"
  using parseCommandLine_files [of "[''a.et'', ''b.et'']" "''eter''"] by simp

end
