(* ===== verification/Spec2Isabelle.thy ===== *)
theory Spec2Isabelle
  imports LexerProps SourceManager ParserProps ParserRound ChildKinds SourcePlaces PayloadTypes PrinterProps
    DriverProps
begin

text \<open>
  A verification development for the front end of the eter compiler.

  \<^bold>\<open>The program.\<close>  The driver (\<^verbatim>\<open>lib/Driver/Driver.cpp\<close>) reads the command line and opens a source
  file; then the lexer (\<^verbatim>\<open>lib/Lexer/Lexer.cpp\<close>) turns its
  bytes into a vector of tokens and errors, the token stream (\<^verbatim>\<open>lib/Parser/TokenStream.cpp\<close>)
  drops the comments and puts an unknown token in the place of every error, and the parser
  (\<^verbatim>\<open>lib/Parser/*.cpp\<close>) reads the stream by recursive descent, an operator-precedence loop
  for expressions, and fills a node pool (\<^verbatim>\<open>lib/Parser/NodePool.cpp\<close>), a string interner
  (\<^verbatim>\<open>lib/Base/StringInterner.cpp\<close>) and a vector of diagnostics, which refer to message
  templates.  The diagnostic engine (\<^verbatim>\<open>lib/Base/DiagnosticEngine.cpp\<close>) prints them with the lines
  of the source they are about, which a source manager (\<^verbatim>\<open>lib/Base/SourceManager.cpp\<close>) finds from
  byte offsets.  At last the driver goes on to the file of every module that the file declares.

  \<^bold>\<open>The theories.\<close>
  \<^item> \<open>Prelude\<close>: the types of the machine words, the hint collections, lemmas on lists and words.
  \<^item> \<open>Tokens\<close>, \<open>Lexer\<close>, \<open>LexerProps\<close>: \<^verbatim>\<open>TokenKinds.def\<close>, \<^verbatim>\<open>Token.h\<close>, \<^verbatim>\<open>Lexer.cpp\<close>.  A pointer into
    the buffer is the list of the bytes from it to the end of the window; every routine of the
    lexer is a function from pointers to results.  The legal lexemes of each kind are defined
    apart from the lexer, with their escapes and the ends of comments (\<open>lexeme\<close>), and so is what a
    token with an error inside may look like (\<open>shape\<close>).  The properties say that tokens are ordered
    and disjoint, that no byte is lost but in a number with two underscores in a row, whose error
    has no place, that the text of a token is a legal lexeme of its kind exactly when no error is
    reported inside it, and that printed lexemes are read back.
  \<^item> \<open>StringInterner\<close>, \<open>SourceManager\<close>, \<open>NodePool\<close>, \<open>PhaseDiagnostic\<close>, \<open>DiagnosticEngine\<close>, \<open>DiagIDs\<close>,
    \<open>NodeKinds\<close>: the data structures, one theory each, their invariants and their contracts.
    \<open>ids\<close>, \<open>toks\<close> and \<open>pool\<close> are the interpretations of their interfaces.
  \<^item> \<open>TokenStream\<close>: the stream as a refinement of the list of tokens.
  \<^item> \<open>ParserState\<close>: the state of \<^verbatim>\<open>Parser\<close> as a record, its methods as computations of the state
    monad, and the helpers of \<^verbatim>\<open>Parser.cpp\<close>.
  \<^item> \<open>ParseType\<close>, \<open>ParseGenerics\<close>, \<open>ParsePat\<close>, \<open>ParseBlock\<close>, \<open>ParseExpr\<close>, \<open>ParseStmt\<close>, \<open>ParseDecl\<close>:
    every production, in the order in which one calls the other.  The productions are mutually
    recursive through six of them, which the others take as an argument \<open>call\<close>.
  \<^item> \<open>Parser\<close>: \<open>tie\<close> closes the recursion, \<open>parse\<close> is \<^verbatim>\<open>Parser::parse\<close>.
  \<^item> \<open>ParserLogic\<close>, \<open>ParserRules\<close>: a logic of claims about parser states, with a rule for every
    helper; \<open>ParserCalls\<close>, \<open>ExprCalls\<close>, \<open>DeclCalls\<close>: the contract of every production, proved in
    the locale \<open>parser_calls\<close> from the contracts of the six; \<open>ParserCycle\<close>: the interpretation of
    that locale by \<open>tie\<close>, by induction on the fuel; \<open>ParserProps\<close>: the properties of \<open>parse\<close>.
  \<^item> \<open>ParserExec\<close>, \<open>ExprSyntax\<close>, \<open>ExprRound\<close>, \<open>ParserRound\<close>: a logic of what the parser does when it
    knows the tokens ahead; a syntax of expressions, the table of precedences that the comment in
    \<^verbatim>\<open>Parser.h\<close> documents, and the print with the parentheses it asks for; the agreement of the
    binding powers with that table; and the round trips of expressions and of files of constants
    and modules.  \<open>ParserRun\<close>: runs of the parser on given sources, for examples.
  \<^item> \<open>ChildKinds\<close>: the layout of the children of every kind of node, and a logic of kinds with a rule for
    every production, which proves that what the parser makes, errors included, keeps to it.
  \<^item> \<open>PayloadTypes\<close>: what the payload word of a node means for each kind, kept by every production.
  \<^item> \<open>SourcePlaces\<close>: spans only ever join the edges of tokens, so that every node and every diagnostic
    is about a place inside the source.
  \<^item> \<open>DiagnosticPrinter\<close>, \<open>PrinterProps\<close>: the printing of diagnostics as a list of texts and colour
    changes, and its agreement with a reference on the lines of the buffer.
  \<^item> \<open>SourceFile\<close>, \<open>Driver\<close>: the opening of files, with the file system as a parameter, the command
    line, \<open>parseFile\<close> with a bound on its depth, and the program, \<open>eterMain\<close>.  \<open>RootKids\<close>: the children
    of the root are nodes.  \<open>PackLoading\<close>: the walk over the modules of a file in the locale
    \<open>file_loader\<close>, the contract of loading a file, and in \<open>exact_loader\<close>, which adds that nothing else is
    stored, interpreted by \<open>parseFile\<close>.  \<open>DriverProps\<close>: which files a pack holds, that the program
    comes back, its exit status, its reports and its command line.

  \<^bold>\<open>Bounds and fuel.\<close>  Offsets, indices and ids are 32-bit words that wrap around; a theorem that
  needs the absence of a wrap-around says up to which size.  A loop of the parser gets one more
  round than there are tokens left, and the recursion one more level than there are tokens;
  \<open>parse_returns\<close> proves that neither is ever used up, because no round and no cycle of calls
  comes back without having consumed a token.  A loop of the lexer is a recursion on the bytes left.
  The recursion of the driver over files gets one more level than there are files that can be
  opened; \<open>driver_returns\<close> proves that this is enough, because a file in progress is not entered again.

  \<^bold>\<open>Not modelled.\<close>  The debug output, of which only the two flags are kept, as in a release build;
  what the standard library does on systems other than POSIX; the typed views of \<^verbatim>\<open>ASTNodes.h\<close> and
  the definitions of \<^verbatim>\<open>DefIndex.h\<close>, which are declared and defined nowhere; the unit tests.
\<close>

end
